(* ===== verification/Devkit_Prelude.thy ===== *)
theory Devkit_Prelude
  imports Main "HOL-Library.Char_ord" "HOL-Library.List_Lexorder" "HOL-Library.Sublist"
begin

text \<open>
  Shared vocabulary of the development: the fact collections, generic lemmas on lists, and
  the Python string operations the scripts call. A Python \<open>str\<close> is a HOL \<^typ>\<open>string\<close>: a list
  of characters with codes 0 to 255, that is, the code points U+0000 to U+00FF. Lengths,
  slices and comparisons agree with Python's on such strings.
\<close>

named_theorems py_simps \<open>unfolding rules of the effect monad\<close>
named_theorems str_simps \<open>rewrite rules for the string operations\<close>
named_theorems path_simps \<open>rewrite rules for paths\<close>

section \<open>Whitespace, prefixes, stripping\<close>

text \<open>\<open>str.isspace\<close> on code points below 256.\<close>

definition py_isspace :: "char \<Rightarrow> bool" where
  "py_isspace c = (let n = (of_char c :: nat) in
     (9 \<le> n \<and> n \<le> 13) \<or> (28 \<le> n \<and> n \<le> 32) \<or> n = 133 \<or> n = 160)"

definition py_lstrip :: "string \<Rightarrow> string" where
  "py_lstrip s = dropWhile py_isspace s"

definition py_strip :: "string \<Rightarrow> string" where
  "py_strip s = rev (dropWhile py_isspace (rev (dropWhile py_isspace s)))"

definition py_startswith :: "string \<Rightarrow> string \<Rightarrow> bool" where
  "py_startswith s p = (take (length p) s = p)"

definition py_endswith :: "string \<Rightarrow> string \<Rightarrow> bool" where
  "py_endswith s p = (length p \<le> length s \<and> drop (length s - length p) s = p)"

text \<open>The test \<open>sub in s\<close> on strings.\<close>

fun py_contains :: "string \<Rightarrow> string \<Rightarrow> bool" where
  "py_contains sub [] = (sub = [])"
| "py_contains sub (c # cs) = (py_startswith (c # cs) sub \<or> py_contains sub cs)"

section \<open>Splitting, joining, replacing\<close>

text \<open>\<open>s.split(c)\<close> for a one-character separator: always at least one field.\<close>

fun split_on :: "char \<Rightarrow> string \<Rightarrow> string list" where
  "split_on c [] = [[]]"
| "split_on c (x # xs) =
     (if x = c then [] # split_on c xs
      else (x # hd (split_on c xs)) # tl (split_on c xs))"

text \<open>\<open>s.split(c, 1)\<close> when \<open>c in s\<close>: what is before and after the first \<open>c\<close>.\<close>

definition split_once :: "char \<Rightarrow> string \<Rightarrow> string \<times> string" where
  "split_once c s = (takeWhile (\<lambda>x. x \<noteq> c) s, tl (dropWhile (\<lambda>x. x \<noteq> c) s))"

fun py_join :: "string \<Rightarrow> string list \<Rightarrow> string" where
  "py_join sep [] = []"
| "py_join sep [x] = x"
| "py_join sep (x # y # zs) = x @ sep @ py_join sep (y # zs)"

text \<open>\<open>s.replace(old, new)\<close> for a non-empty \<open>old\<close>: every non-overlapping occurrence, left to right.\<close>

function py_replace :: "string \<Rightarrow> string \<Rightarrow> string \<Rightarrow> string" where
  "py_replace old new s =
     (if s = [] \<or> old = [] then s
      else if py_startswith s old then new @ py_replace old new (drop (length old) s)
      else hd s # py_replace old new (tl s))"
  by pat_completeness auto
termination
proof (relation "measure (\<lambda>(_, _, s). length s)", goal_cases)
  case (2 old new s)
  then show ?case by (cases s; cases old) auto
next
  case (3 old new s)
  then show ?case by (cases s) auto
qed simp

declare py_replace.simps [simp del]

text \<open>Line boundaries of \<open>str.splitlines\<close>; a final boundary opens no further line.\<close>

definition is_linebreak :: "char \<Rightarrow> bool" where
  "is_linebreak c = (let n = (of_char c :: nat) in
     (10 \<le> n \<and> n \<le> 13) \<or> (28 \<le> n \<and> n \<le> 30) \<or> n = 133)"

fun splitlines_aux :: "string \<Rightarrow> string \<Rightarrow> string list" where
  "splitlines_aux acc [] = (if acc = [] then [] else [rev acc])"
| "splitlines_aux acc [c] =
     (if is_linebreak c then [rev acc] else [rev (c # acc)])"
| "splitlines_aux acc (c # d # cs) =
     (if c = CHR 0x0D \<and> d = CHR 0x0A then rev acc # splitlines_aux [] cs
      else if is_linebreak c then rev acc # splitlines_aux [] (d # cs)
      else splitlines_aux (c # acc) (d # cs))"

definition py_splitlines :: "string \<Rightarrow> string list" where
  "py_splitlines s = splitlines_aux [] s"

text \<open>Text-mode reading: universal newlines, then iteration line by line.\<close>

fun universal_newlines :: "string \<Rightarrow> string" where
  "universal_newlines [] = []"
| "universal_newlines [c] = [if c = CHR 0x0D then CHR 0x0A else c]"
| "universal_newlines (c # d # cs) =
     (if c = CHR 0x0D \<and> d = CHR 0x0A then CHR 0x0A # universal_newlines cs
      else (if c = CHR 0x0D then CHR 0x0A else c) # universal_newlines (d # cs))"

fun file_lines_aux :: "string \<Rightarrow> string \<Rightarrow> string list" where
  "file_lines_aux acc [] = (if acc = [] then [] else [rev acc])"
| "file_lines_aux acc (c # cs) =
     (if c = CHR 0x0A then rev (c # acc) # file_lines_aux [] cs
      else file_lines_aux (c # acc) cs)"

text \<open>The lines a \<open>for line in f\<close> loop sees, each with its newline.\<close>

definition file_lines :: "string \<Rightarrow> string list" where
  "file_lines s = file_lines_aux [] (universal_newlines s)"

section \<open>Integers and strings\<close>

definition digit_char :: "nat \<Rightarrow> char" where
  "digit_char n = char_of (48 + n)"

definition is_lower :: "char \<Rightarrow> bool" where
  "is_lower c = (CHR ''a'' \<le> c \<and> c \<le> CHR ''z'')"

definition is_upper :: "char \<Rightarrow> bool" where
  "is_upper c = (CHR ''A'' \<le> c \<and> c \<le> CHR ''Z'')"

definition is_digit :: "char \<Rightarrow> bool" where
  "is_digit c = (48 \<le> (of_char c :: nat) \<and> (of_char c :: nat) \<le> 57)"

definition digit_val :: "char \<Rightarrow> nat" where
  "digit_val c = of_char c - 48"

fun str_nat :: "nat \<Rightarrow> string" where
  "str_nat n = (if n < 10 then [digit_char n]
                else str_nat (n div 10) @ [digit_char (n mod 10)])"

declare str_nat.simps [simp del]

definition str_int :: "int \<Rightarrow> string" where
  "str_int i = (if i < 0 then CHR ''-'' # str_nat (nat (- i)) else str_nat (nat i))"

text \<open>
  \<open>int(s)\<close>: surrounding whitespace, an optional sign, digits with single underscores
  between them; more than 4300 digits are refused. \<^const>\<open>None\<close> is \<open>ValueError\<close>.
\<close>

fun scan_digits :: "bool \<Rightarrow> string \<Rightarrow> nat \<Rightarrow> nat option" where
  "scan_digits prev [] acc = (if prev then Some acc else None)"
| "scan_digits prev (c # cs) acc =
     (if is_digit c then scan_digits True cs (10 * acc + digit_val c)
      else if c = CHR ''_'' \<and> prev then scan_digits False cs acc
      else None)"

definition py_int :: "string \<Rightarrow> int option" where
  "py_int s =
     (let t = py_strip s in
      if 4300 < length (filter is_digit t) then None
      else case t of
        [] \<Rightarrow> None
      | c # r \<Rightarrow>
          if c = CHR ''-'' then map_option (\<lambda>n. - int n) (scan_digits False r 0)
          else if c = CHR ''+'' then map_option int (scan_digits False r 0)
          else map_option int (scan_digits False t 0))"

section \<open>Lemmas on the string operations\<close>

lemma py_startswith_iff [str_simps]: "py_startswith s p \<longleftrightarrow> prefix p s"
  by (metis append_eq_conv_conj prefix_def py_startswith_def take_is_prefix)

lemma py_endswith_iff [str_simps]: "py_endswith s p \<longleftrightarrow> suffix p s"
proof
  assume "py_endswith s p"
  then have "drop (length s - length p) s = p" by (simp add: py_endswith_def)
  then show "suffix p s" by (metis suffix_drop)
next
  assume "suffix p s"
  then show "py_endswith s p" by (auto simp: py_endswith_def suffix_def)
qed

lemma py_contains_iff [str_simps]: "py_contains sub s \<longleftrightarrow> (\<exists>u v. s = u @ sub @ v)"
proof (induction s)
  case Nil
  then show ?case by simp
next
  case (Cons c cs)
  show ?case
  proof
    assume "py_contains sub (c # cs)"
    then consider "prefix sub (c # cs)" | "py_contains sub cs"
      by (auto simp: py_startswith_iff)
    then show "\<exists>u v. c # cs = u @ sub @ v"
    proof cases
      case 1
      then show ?thesis by (metis append_Nil prefix_def)
    next
      case 2
      with Cons.IH obtain u v where "cs = u @ sub @ v" by blast
      then have "c # cs = (c # u) @ sub @ v" by simp
      then show ?thesis by blast
    qed
  next
    assume "\<exists>u v. c # cs = u @ sub @ v"
    then obtain u v where uv: "c # cs = u @ sub @ v" by blast
    show "py_contains sub (c # cs)"
    proof (cases u)
      case Nil
      with uv have "prefix sub (c # cs)" by (auto simp: prefix_def)
      then show ?thesis by (simp add: py_startswith_iff)
    next
      case (Cons a u')
      with uv have "cs = u' @ sub @ v" by simp
      with Cons.IH show ?thesis by auto
    qed
  qed
qed

lemma split_on_nonempty [simp]: "split_on c s \<noteq> []"
  by (cases s) auto

text \<open>The rest is split once only.\<close>

lemma split_on_code [code]:
  "split_on c [] = [[]]"
  "split_on c (x # xs) =
     (if x = c then [] # split_on c xs
      else case split_on c xs of [] \<Rightarrow> [[x]] | h # t \<Rightarrow> (x # h) # t)"
  by (simp_all split: list.split)

lemma split_on_no_sep: "f \<in> set (split_on c s) \<Longrightarrow> c \<notin> set f"
proof (induction s arbitrary: f)
  case Nil
  then show ?case by simp
next
  case (Cons x xs)
  have hd_in: "hd (split_on c xs) \<in> set (split_on c xs)" by simp
  show ?case
  proof (cases "x = c")
    case True
    with Cons show ?thesis by auto
  next
    case False
    with Cons.prems consider "f = x # hd (split_on c xs)" | "f \<in> set (tl (split_on c xs))"
      by auto
    then show ?thesis
    proof cases
      case 1
      with Cons.IH [OF hd_in] False show ?thesis by auto
    next
      case 2
      then have "f \<in> set (split_on c xs)" by (metis list.set_sel(2) split_on_nonempty)
      then show ?thesis by (rule Cons.IH)
    qed
  qed
qed

lemma split_on_single: "c \<notin> set s \<Longrightarrow> split_on c s = [s]"
  by (induction s) auto

lemma split_on_append_sep: "c \<notin> set s \<Longrightarrow> split_on c (s @ c # t) = s # split_on c t"
  by (induction s) auto

lemma py_join_Cons: "xs \<noteq> [] \<Longrightarrow> py_join sep (x # xs) = x @ sep @ py_join sep xs"
  by (cases xs) auto

text \<open>Joining with a separator and splitting at it are inverse.\<close>

lemma join_split: "py_join [c] (split_on c s) = s"
proof (induction s)
  case Nil
  then show ?case by simp
next
  case (Cons x xs)
  obtain h t where ht: "split_on c xs = h # t"
    by (metis split_on_nonempty list.exhaust)
  with Cons.IH have "py_join [c] (h # t) = xs" by simp
  then show ?case using ht by (cases t) auto
qed

lemma split_join:
  "xs \<noteq> [] \<Longrightarrow> \<forall>x \<in> set xs. c \<notin> set x \<Longrightarrow> split_on c (py_join [c] xs) = xs"
proof (induction xs)
  case Nil
  then show ?case by simp
next
  case (Cons x xs)
  then show ?case
    by (cases xs) (auto simp: split_on_single split_on_append_sep)
qed

lemma split_once_Cons:
  "c \<in> set s \<Longrightarrow> fst (split_once c s) @ c # snd (split_once c s) = s"
  by (induction s) (auto simp: split_once_def)

lemma split_once_fst: "c \<notin> set (fst (split_once c s))"
  by (auto simp: split_once_def dest: set_takeWhileD)

lemma split_once_append: "c \<notin> set k \<Longrightarrow> split_once c (k @ c # v) = (k, v)"
  by (induction k) (auto simp: split_once_def)

section \<open>Printing and reading integers\<close>

lemma digit_char_props [str_simps]:
  assumes "n < 10"
  shows "is_digit (digit_char n)" "digit_val (digit_char n) = n" "\<not> py_isspace (digit_char n)"
    "digit_char n \<noteq> CHR ''-''" "digit_char n \<noteq> CHR ''+''"
proof -
  have code: "(of_char (digit_char n) :: nat) = 48 + n"
    using assms by (simp add: digit_char_def)
  show "is_digit (digit_char n)" "digit_val (digit_char n) = n" "\<not> py_isspace (digit_char n)"
    using code assms by (auto simp: is_digit_def digit_val_def py_isspace_def)
  show "digit_char n \<noteq> CHR ''-''" "digit_char n \<noteq> CHR ''+''"
    using code by auto
qed

lemma str_nat_digits: "\<forall>c \<in> set (str_nat n). \<exists>d < 10. c = digit_char d"
proof (induction n rule: str_nat.induct)
  case (1 n)
  show ?case
  proof (cases "n < 10")
    case True
    then show ?thesis by (subst str_nat.simps) auto
  next
    case False
    then have "n mod 10 < 10" by simp
    then have "\<exists>d < 10. digit_char (n mod 10) = digit_char d" by blast
    with 1 False show ?thesis by (subst str_nat.simps) auto
  qed
qed

lemma str_nat_nonempty [simp]: "str_nat n \<noteq> []"
  by (subst str_nat.simps) simp

lemma scan_digits_append:
  "\<forall>c \<in> set s. is_digit c \<Longrightarrow> s \<noteq> [] \<Longrightarrow>
   scan_digits p (s @ t) a = scan_digits True t (foldl (\<lambda>a c. 10 * a + digit_val c) a s)"
proof (induction s arbitrary: p a)
  case Nil
  then show ?case by simp
next
  case (Cons c s)
  show ?case
  proof (cases "s = []")
    case True
    with Cons.prems show ?thesis by simp
  next
    case False
    have "scan_digits True (s @ t) (10 * a + digit_val c) =
      scan_digits True t (foldl (\<lambda>a c. 10 * a + digit_val c) (10 * a + digit_val c) s)"
      using Cons.prems False by (intro Cons.IH) auto
    with Cons.prems show ?thesis by simp
  qed
qed

lemma foldl_str_nat: "foldl (\<lambda>a c. 10 * a + digit_val c) 0 (str_nat n) = n"
proof (induction n rule: str_nat.induct)
  case (1 n)
  show ?case
  proof (cases "n < 10")
    case True
    then show ?thesis by (subst str_nat.simps) (simp add: str_simps)
  next
    case False
    with 1 have "foldl (\<lambda>a c. 10 * a + digit_val c) 0 (str_nat (n div 10)) = n div 10" by simp
    with False show ?thesis by (subst str_nat.simps) (simp add: str_simps)
  qed
qed

lemma is_digit_str_nat: "c \<in> set (str_nat n) \<Longrightarrow> is_digit c"
  using str_nat_digits [of n] by (auto simp: digit_char_props)

lemma scan_digits_str_nat: "scan_digits p (str_nat n) 0 = Some n"
proof -
  have "scan_digits p (str_nat n @ []) 0 =
        scan_digits True [] (foldl (\<lambda>a c. 10 * a + digit_val c) 0 (str_nat n))"
    by (rule scan_digits_append) (auto simp: is_digit_str_nat)
  then show ?thesis by (simp add: foldl_str_nat)
qed

lemma py_strip_id:
  assumes "s \<noteq> []" "\<not> py_isspace (hd s)" "\<not> py_isspace (last s)"
  shows "py_strip s = s"
proof -
  have "dropWhile py_isspace s = s" using assms by (cases s) auto
  moreover have "dropWhile py_isspace (rev s) = rev s"
    using assms by (cases "rev s") (auto simp: hd_rev [symmetric])
  ultimately show ?thesis by (simp add: py_strip_def)
qed

lemma str_nat_not_space: "c \<in> set (str_nat n) \<Longrightarrow> \<not> py_isspace c"
  using str_nat_digits [of n] by (auto simp: digit_char_props)

lemma py_strip_str_int: "py_strip (str_int i) = str_int i"
proof (rule py_strip_id)
  have minus: "\<not> py_isspace (CHR ''-'')" by (simp add: py_isspace_def)
  show "str_int i \<noteq> []" by (simp add: str_int_def)
  have "\<not> py_isspace (hd (str_nat n))" "\<not> py_isspace (last (str_nat n))" for n
    using str_nat_not_space [of "hd (str_nat n)" n] str_nat_not_space [of "last (str_nat n)" n]
    by simp_all
  with minus show "\<not> py_isspace (hd (str_int i))" "\<not> py_isspace (last (str_int i))"
    by (auto simp: str_int_def)
qed

text \<open>\<open>int(str(i)) = i\<close> for every integer \<open>int\<close> accepts the digits of.\<close>

lemma py_int_str_int:
  assumes "length (str_int i) \<le> 4300"
  shows "py_int (str_int i) = Some i"
proof -
  have len: "length (filter is_digit (str_int i)) \<le> 4300"
    using assms length_filter_le le_trans by blast
  show ?thesis
  proof (cases "i < 0")
    case True
    then show ?thesis using len
      by (simp add: py_int_def py_strip_str_int) (simp add: str_int_def scan_digits_str_nat)
  next
    case False
    obtain c r where cr: "str_nat (nat i) = c # r"
      using str_nat_nonempty by (cases "str_nat (nat i)") auto
    then obtain d where "d < 10" "c = digit_char d"
      using str_nat_digits [of "nat i"] by auto
    then have "c \<noteq> CHR ''-''" "c \<noteq> CHR ''+''" by (simp_all add: digit_char_props)
    moreover have "scan_digits False (c # r) 0 = Some (nat i)"
      using scan_digits_str_nat [of False "nat i"] cr by simp
    ultimately show ?thesis using False len cr
      by (simp add: py_int_def py_strip_str_int) (simp add: str_int_def)
  qed
qed

end
