(* ===== verification/Py_Path.thy ===== *)
theory Py_Path
  imports Devkit_Prelude
begin

text \<open>
  Lexical paths: \<open>pathlib.PurePosixPath\<close> and the functions of \<open>posixpath\<close> the scripts call
  (Python 3.12, which \<open>.devkit/scripts/uv\<close> selects). A path is its proot (empty, one slash or
  two) and its components, none of which is empty or a single dot.
\<close>

section \<open>Paths\<close>

datatype path = Path (proot: string) (tail: "string list")

definition path_wf :: "path \<Rightarrow> bool" where
  "path_wf p = (proot p \<in> {'''', ''/'', ''//''} \<and>
     (\<forall>c \<in> set (tail p). c \<noteq> '''' \<and> c \<noteq> ''.'' \<and> CHR ''/'' \<notin> set c))"

text \<open>The components of a string, as \<open>PurePath._parse_path\<close> keeps them.\<close>

definition components :: "string \<Rightarrow> string list" where
  "components s = filter (\<lambda>c. c \<noteq> '''' \<and> c \<noteq> ''.'') (split_on (CHR ''/'') s)"

definition path_of :: "string \<Rightarrow> path" where
  "path_of s =
     (if \<not> py_startswith s ''/'' then Path '''' (components s)
      else if py_startswith s ''//'' \<and> \<not> py_startswith s ''///'' then Path ''//'' (components s)
      else Path ''/'' (components s))"

definition path_str :: "path \<Rightarrow> string" where
  "path_str p = (if proot p = '''' \<and> tail p = [] then ''.''
                 else proot p @ py_join ''/'' (tail p))"

text \<open>\<open>a / b\<close>: an absolute right operand replaces the left one.\<close>

definition path_div :: "path \<Rightarrow> path \<Rightarrow> path" where
  "path_div a b = (if proot b \<noteq> '''' then b else Path (proot a) (tail a @ tail b))"

definition path_sub :: "path \<Rightarrow> string \<Rightarrow> path" where
  "path_sub a s = path_div a (path_of s)"

definition path_parent :: "path \<Rightarrow> path" where
  "path_parent p = Path (proot p) (butlast (tail p))"

text \<open>\<open>p.parents\<close>: nearest first, down to the proot or \<open>.\<close>.\<close>

definition path_parents :: "path \<Rightarrow> path list" where
  "path_parents p = map (\<lambda>n. Path (proot p) (take n (tail p))) (rev [0..<length (tail p)])"

definition path_name :: "path \<Rightarrow> string" where
  "path_name p = (if tail p = [] then '''' else last (tail p))"

definition is_relative_to :: "path \<Rightarrow> path \<Rightarrow> bool" where
  "is_relative_to p other = (other = p \<or> other \<in> set (path_parents p))"

text \<open>\<open>p.relative_to(other)\<close>; \<^const>\<open>None\<close> is \<open>ValueError\<close>.\<close>

definition relative_to :: "path \<Rightarrow> path \<Rightarrow> path option" where
  "relative_to p other =
     (if is_relative_to p other then Some (Path '''' (drop (length (tail other)) (tail p))) else None)"

text \<open>The key of \<open>PurePath.__lt__\<close>.\<close>

definition path_key :: "path \<Rightarrow> string list" where
  "path_key p = split_on (CHR ''/'') (path_str p)"

text \<open>\<open>os.path.normpath\<close> on the string of a path.\<close>

fun norm_comps :: "bool \<Rightarrow> string list \<Rightarrow> string list \<Rightarrow> string list" where
  "norm_comps rooted acc [] = acc"
| "norm_comps rooted acc (c # cs) =
     (if c = '''' \<or> c = ''.'' then norm_comps rooted acc cs
      else if c \<noteq> ''..'' \<or> (\<not> rooted \<and> acc = []) \<or> (acc \<noteq> [] \<and> last acc = ''..'')
      then norm_comps rooted (acc @ [c]) cs
      else norm_comps rooted (butlast acc) cs)"

definition normpath :: "path \<Rightarrow> path" where
  "normpath p = Path (proot p) (norm_comps (proot p \<noteq> '''') [] (tail p))"

text \<open>\<open>os.path.commonpath([str(a), str(b)])\<close>; \<^const>\<open>None\<close> is \<open>ValueError\<close>.\<close>

fun common_prefix :: "string list \<Rightarrow> string list \<Rightarrow> string list" where
  "common_prefix (x # xs) (y # ys) = (if x = y then x # common_prefix xs ys else [])"
| "common_prefix _ _ = []"

definition commonpath :: "path \<Rightarrow> path \<Rightarrow> path option" where
  "commonpath a b =
     (if (proot a = '''') \<noteq> (proot b = '''') then None
      else Some (Path (if proot a = '''' then '''' else ''/'') (common_prefix (tail a) (tail b))))"

section \<open>Laws\<close>

lemma is_relative_to_iff [path_simps]:
  "is_relative_to p q \<longleftrightarrow> proot q = proot p \<and> prefix (tail q) (tail p)"
proof
  assume "is_relative_to p q"
  then show "proot q = proot p \<and> prefix (tail q) (tail p)"
    by (auto simp: is_relative_to_def path_parents_def take_is_prefix)
next
  assume asm: "proot q = proot p \<and> prefix (tail q) (tail p)"
  then obtain r where r: "tail p = tail q @ r" by (auto simp: prefix_def)
  show "is_relative_to p q"
  proof (cases "r = []")
    case True
    with asm r show ?thesis by (auto simp: is_relative_to_def path.expand)
  next
    case False
    with r have "length (tail q) \<in> set (rev [0..<length (tail p)])" by simp
    moreover have "q = Path (proot p) (take (length (tail q)) (tail p))"
      using asm r by (simp add: path.expand)
    ultimately show ?thesis unfolding is_relative_to_def path_parents_def by auto
  qed
qed

lemma is_relative_to_refl [simp]: "is_relative_to p p"
  by (simp add: is_relative_to_def)

lemma is_relative_to_trans: "is_relative_to p q \<Longrightarrow> is_relative_to q r \<Longrightarrow> is_relative_to p r"
  by (auto simp: is_relative_to_iff)

lemma is_relative_to_antisym: "is_relative_to p q \<Longrightarrow> is_relative_to q p \<Longrightarrow> p = q"
  by (auto simp: is_relative_to_iff path.expand)

lemma relative_to_div:
  "relative_to p q = Some r \<Longrightarrow> path_div q r = p"
  by (auto simp: relative_to_def is_relative_to_iff path_div_def prefix_def path.expand
      split: if_splits)

lemma relative_to_Some_iff: "(\<exists>r. relative_to p q = Some r) \<longleftrightarrow> is_relative_to p q"
  by (simp add: relative_to_def)

lemma components_wf: "c \<in> set (components s) \<Longrightarrow> c \<noteq> '''' \<and> c \<noteq> ''.'' \<and> CHR ''/'' \<notin> set c"
  by (auto simp: components_def dest: split_on_no_sep)

lemma path_of_wf: "path_wf (path_of s)"
  using components_wf by (auto simp: path_of_def path_wf_def)

lemma path_div_wf: "path_wf a \<Longrightarrow> path_wf b \<Longrightarrow> path_wf (path_div a b)"
  by (auto simp: path_div_def path_wf_def)

lemma components_join:
  assumes "\<forall>c \<in> set cs. c \<noteq> '''' \<and> c \<noteq> ''.'' \<and> CHR ''/'' \<notin> set c"
  shows "components (py_join ''/'' cs) = cs"
proof (cases "cs = []")
  case True
  then show ?thesis by (simp add: components_def)
next
  case False
  with assms have "split_on (CHR ''/'') (py_join ''/'' cs) = cs"
    by (intro split_join) auto
  moreover have "filter (\<lambda>c. c \<noteq> '''' \<and> c \<noteq> ''.'') cs = cs"
    using assms by (intro filter_True) auto
  ultimately show ?thesis by (simp add: components_def)
qed

lemma components_slash: "components (CHR ''/'' # s) = components s"
  by (simp add: components_def)

lemma join_head:
  assumes "\<forall>c \<in> set cs. c \<noteq> '''' \<and> CHR ''/'' \<notin> set c"
  shows "\<not> prefix ''/'' (py_join ''/'' cs)"
proof (cases cs)
  case (Cons c cs')
  with assms obtain x xs where "c = x # xs" "x \<noteq> CHR ''/''" by (cases c) auto
  with Cons show ?thesis by (cases cs') auto
qed simp

text \<open>Printing a path and parsing it back gives the same path.\<close>

lemma path_of_str: "path_wf p \<Longrightarrow> path_of (path_str p) = p"
proof -
  assume wf: "path_wf p"
  then have cs: "\<forall>c \<in> set (tail p). c \<noteq> '''' \<and> c \<noteq> ''.'' \<and> CHR ''/'' \<notin> set c"
    by (simp add: path_wf_def)
  have comps: "components (py_join ''/'' (tail p)) = tail p" by (rule components_join [OF cs])
  have nosl: "\<not> prefix ''/'' (py_join ''/'' (tail p))" using cs by (intro join_head) auto
  from wf consider "proot p = ''''" "tail p = []" | "proot p = ''''" "tail p \<noteq> []"
    | "proot p = ''/''" | "proot p = ''//''" by (auto simp: path_wf_def)
  then show ?thesis
  proof cases
    case 1
    then show ?thesis
      by (simp add: path_str_def path_of_def components_def py_startswith_def path.expand)
  next
    case 2
    then show ?thesis using nosl comps
      by (simp add: path_str_def path_of_def py_startswith_iff path.expand)
  next
    case 3
    then show ?thesis using nosl comps
      by (simp add: path_str_def path_of_def py_startswith_iff components_slash path.expand)
  next
    case 4
    then show ?thesis using nosl comps
      by (simp add: path_str_def path_of_def py_startswith_iff components_slash path.expand)
  qed
qed

lemma path_str_inj: "path_wf p \<Longrightarrow> path_wf q \<Longrightarrow> path_str p = path_str q \<Longrightarrow> p = q"
  by (metis path_of_str)

lemma path_key_inj: "path_wf p \<Longrightarrow> path_wf q \<Longrightarrow> path_key p = path_key q \<Longrightarrow> p = q"
  by (metis path_key_def path_str_inj join_split)

lemma common_prefix_prefix:
  "prefix (common_prefix xs ys) xs" "prefix (common_prefix xs ys) ys"
  by (induction xs ys rule: common_prefix.induct) auto

lemma common_prefix_self_iff: "common_prefix xs ys = xs \<longleftrightarrow> prefix xs ys"
  by (induction xs ys rule: common_prefix.induct) auto

text \<open>A component \<open>normpath\<close> leaves alone.\<close>

definition plain_comp :: "string \<Rightarrow> bool" where
  "plain_comp c = (c \<noteq> '''' \<and> c \<noteq> ''.'' \<and> c \<noteq> ''..'')"

lemma norm_comps_id: "\<forall>c \<in> set cs. plain_comp c \<Longrightarrow> norm_comps r acc cs = acc @ cs"
  by (induction cs arbitrary: acc) (auto simp: plain_comp_def)

text \<open>One step of the loop: skip, push or pop.\<close>

lemma norm_comps_cases [case_names skip push pop]:
  assumes "norm_comps r acc (c # cs) = norm_comps r acc cs \<Longrightarrow> P"
    and "plain_comp c \<or> \<not> r \<or> (acc \<noteq> [] \<and> \<not> plain_comp (last acc)) \<Longrightarrow>
         norm_comps r acc (c # cs) = norm_comps r (acc @ [c]) cs \<Longrightarrow> P"
    and "norm_comps r acc (c # cs) = norm_comps r (butlast acc) cs \<Longrightarrow> P"
  shows P
proof (cases "c = '''' \<or> c = ''.''")
  case True
  then show P by (intro assms(1)) auto
next
  case nodot: False
  show P
  proof (cases "c \<noteq> ''..'' \<or> (\<not> r \<and> acc = []) \<or> (acc \<noteq> [] \<and> last acc = ''..'')")
    case True
    then have "plain_comp c \<or> \<not> r \<or> (acc \<noteq> [] \<and> \<not> plain_comp (last acc))"
      using nodot by (auto simp: plain_comp_def)
    then show P using True nodot by (intro assms(2)) simp_all
  next
    case False
    with nodot show P by (intro assms(3)) (simp only: norm_comps.simps if_False simp_thms)
  qed
qed

lemma norm_comps_rooted_proper:
  "\<forall>c \<in> set acc. plain_comp c \<Longrightarrow> \<forall>c \<in> set (norm_comps True acc cs). plain_comp c"
proof (induction cs arbitrary: acc)
  case Nil
  then show ?case by simp
next
  case (Cons c cs)
  show ?case
  proof (cases rule: norm_comps_cases [of True acc c cs])
    case skip
    show ?thesis unfolding skip by (rule Cons.IH [OF Cons.prems])
  next
    case push
    have "plain_comp (last acc)" if "acc \<noteq> []" using that Cons.prems by simp
    with push(1) Cons.prems have "\<forall>x \<in> set (acc @ [c]). plain_comp x" by auto
    then show ?thesis unfolding push(2) by (rule Cons.IH)
  next
    case pop
    have "\<forall>x \<in> set (butlast acc). plain_comp x"
      using Cons.prems in_set_butlastD by fast
    then show ?thesis unfolding pop by (rule Cons.IH)
  qed
qed

lemma normpath_idem: "proot p \<noteq> '''' \<Longrightarrow> normpath (normpath p) = normpath p"
  using norm_comps_id [OF norm_comps_rooted_proper, of "[]"] by (simp add: normpath_def)

lemma norm_comps_sub: "set (norm_comps r acc cs) \<subseteq> set acc \<union> set cs"
proof (induction cs arbitrary: acc)
  case Nil
  then show ?case by simp
next
  case (Cons c cs)
  show ?case
  proof (cases rule: norm_comps_cases [of r acc c cs])
    case skip
    then show ?thesis using Cons.IH [of acc] by auto
  next
    case push
    then show ?thesis using Cons.IH [of "acc @ [c]"] by auto
  next
    case pop
    then show ?thesis using Cons.IH [of "butlast acc"] in_set_butlastD [of _ acc] by auto
  qed
qed

lemma normpath_wf: "path_wf p \<Longrightarrow> path_wf (normpath p)"
  using norm_comps_sub [of _ "[]" "tail p"] by (auto simp: path_wf_def normpath_def)

end
