(* ===== verification/Py_Fs.thy ===== *)
theory Py_Fs
  imports Py_Path
begin

text \<open>
  The file system as a tree of directories, files and symbolic links, and the queries of
  \<open>pathlib\<close>, \<open>os.path\<close> and \<open>os.walk\<close> on it. Names are resolved as the kernel resolves them:
  component by component, following at most 40 links. A node \<open>FBad\<close> is an entry whose
  \<open>stat\<close> fails with an \<open>OSError\<close> that \<open>pathlib\<close> does not ignore.
\<close>

section \<open>The tree\<close>

datatype fnode =
    FFile string
  | FLink string
  | FBad string
  | FDir "(string \<times> fnode) list"

type_synonym canon = "string list"

fun get_node :: "fnode \<Rightarrow> canon \<Rightarrow> fnode option" where
  "get_node n [] = Some n"
| "get_node (FDir es) (c # cs) =
     (case map_of es c of None \<Rightarrow> None | Some n \<Rightarrow> get_node n cs)"
| "get_node _ (c # cs) = None"

text \<open>Replacing or adding the node at a canonical location whose parent is a directory.\<close>

fun assoc_put :: "'k \<Rightarrow> 'v \<Rightarrow> ('k \<times> 'v) list \<Rightarrow> ('k \<times> 'v) list" where
  "assoc_put k v [] = [(k, v)]"
| "assoc_put k v ((k', v') # xs) =
     (if k' = k then (k, v) # xs else (k', v') # assoc_put k v xs)"

fun put_node :: "canon \<Rightarrow> fnode \<Rightarrow> fnode \<Rightarrow> fnode" where
  "put_node [] new n = new"
| "put_node [c] new (FDir es) = FDir (assoc_put c new es)"
| "put_node (c # d # cs) new (FDir es) =
     (case map_of es c of
        None \<Rightarrow> FDir es
      | Some n \<Rightarrow> FDir (assoc_put c (put_node (d # cs) new n) es))"
| "put_node (c # cs) new n = n"

section \<open>Name resolution\<close>

datatype fs_error = ENOENT | ENOTDIR | ELOOP | EIO string

text \<open>
  \<open>namei r n follow cur cs\<close> resolves the components \<open>cs\<close> from the directory at \<open>cur\<close>, with
  \<open>n\<close> links left to follow; it returns the canonical location and the links left. A final
  link is followed when \<open>follow\<close> is set (\<open>stat\<close>) and kept otherwise (\<open>lstat\<close>).
\<close>

function namei :: "fnode \<Rightarrow> nat \<Rightarrow> bool \<Rightarrow> canon \<Rightarrow> string list \<Rightarrow> fs_error + (canon \<times> nat)" where
  "namei r n fl cur [] = Inr (cur, n)"
| "namei r n fl cur (c # cs) =
     (if c = '''' \<or> c = ''.'' then namei r n fl cur cs
      else if c = ''..'' then namei r n fl (butlast cur) cs
      else case get_node r (cur @ [c]) of
             None \<Rightarrow> Inl ENOENT
           | Some (FBad m) \<Rightarrow> Inl (EIO m)
           | Some (FDir es) \<Rightarrow> namei r n fl (cur @ [c]) cs
           | Some (FFile t) \<Rightarrow> (if cs = [] then Inr (cur @ [c], n) else Inl ENOTDIR)
           | Some (FLink t) \<Rightarrow>
               (if cs = [] \<and> \<not> fl then Inr (cur @ [c], n)
                else if n = 0 then Inl ELOOP
                else if t = '''' then Inl ENOENT
                else namei r (n - 1) fl (if py_startswith t ''/'' then [] else cur)
                       (split_on (CHR ''/'') t @ cs)))"
  by pat_completeness auto
termination
  by (relation "inv_image (less_than <*lex*> less_than) (\<lambda>(r, n, fl, cur, cs). (n, length cs))") auto

declare namei.simps [simp del]

definition link_limit :: nat where
  "link_limit = 40"

text \<open>The canonical location of the directory a relative path starts from is \<open>cwd\<close>.\<close>

definition base_of :: "canon \<Rightarrow> path \<Rightarrow> canon" where
  "base_of cwd p = (if proot p = '''' then cwd else [])"

definition fs_stat :: "fnode \<Rightarrow> canon \<Rightarrow> path \<Rightarrow> fs_error + canon" where
  "fs_stat r cwd p = map_sum id fst (namei r link_limit True (base_of cwd p) (tail p))"

definition fs_lstat :: "fnode \<Rightarrow> canon \<Rightarrow> path \<Rightarrow> fs_error + canon" where
  "fs_lstat r cwd p = map_sum id fst (namei r link_limit False (base_of cwd p) (tail p))"

text \<open>
  \<open>Path.exists\<close>, \<open>is_dir\<close>, \<open>is_symlink\<close>: a missing entry, a file used as a directory or too
  many links mean \<open>False\<close>; any other error is raised (\<^const>\<open>Inl\<close>).
\<close>

definition probe :: "fnode \<Rightarrow> (fnode \<Rightarrow> bool) \<Rightarrow> fs_error + canon \<Rightarrow> string + bool" where
  "probe r test res =
     (case res of
        Inl (EIO m) \<Rightarrow> Inl m
      | Inl _ \<Rightarrow> Inr False
      | Inr c \<Rightarrow> Inr (case get_node r c of None \<Rightarrow> False | Some n \<Rightarrow> test n))"

definition is_FDir :: "fnode \<Rightarrow> bool" where
  "is_FDir n = (case n of FDir _ \<Rightarrow> True | _ \<Rightarrow> False)"

definition is_FLink :: "fnode \<Rightarrow> bool" where
  "is_FLink n = (case n of FLink _ \<Rightarrow> True | _ \<Rightarrow> False)"

definition fs_exists :: "fnode \<Rightarrow> canon \<Rightarrow> path \<Rightarrow> string + bool" where
  "fs_exists r cwd p = probe r (\<lambda>_. True) (fs_stat r cwd p)"

definition fs_is_dir :: "fnode \<Rightarrow> canon \<Rightarrow> path \<Rightarrow> string + bool" where
  "fs_is_dir r cwd p = probe r is_FDir (fs_stat r cwd p)"

definition fs_is_symlink :: "fnode \<Rightarrow> canon \<Rightarrow> path \<Rightarrow> string + bool" where
  "fs_is_symlink r cwd p = probe r is_FLink (fs_lstat r cwd p)"

text \<open>\<open>Path.readlink\<close>: the target text of the link; \<^const>\<open>None\<close> when it cannot be read.\<close>

definition fs_readlink :: "fnode \<Rightarrow> canon \<Rightarrow> path \<Rightarrow> string option" where
  "fs_readlink r cwd p =
     (case fs_lstat r cwd p of
        Inl _ \<Rightarrow> None
      | Inr c \<Rightarrow> (case get_node r c of Some (FLink t) \<Rightarrow> Some t | _ \<Rightarrow> None))"

definition fs_read :: "fnode \<Rightarrow> canon \<Rightarrow> path \<Rightarrow> string option" where
  "fs_read r cwd p =
     (case fs_stat r cwd p of
        Inl _ \<Rightarrow> None
      | Inr c \<Rightarrow> (case get_node r c of Some (FFile t) \<Rightarrow> Some t | _ \<Rightarrow> None))"

section \<open>\<open>os.path.realpath\<close>\<close>

text \<open>Every location that holds a link; a link is expanded at most once, so this bounds the loop.\<close>

fun link_paths :: "canon \<Rightarrow> fnode \<Rightarrow> canon list" where
  "link_paths at (FLink t) = [at]"
| "link_paths at (FDir es) = concat (map (\<lambda>e. link_paths (at @ [fst e]) (snd e)) es)"
| "link_paths at _ = []"

lemma link_paths_get:
  "get_node n p = Some (FLink t) \<Longrightarrow> at @ p \<in> set (link_paths at n)"
proof (induction n p arbitrary: at rule: get_node.induct)
  case (2 es c cs)
  from "2.prems" obtain m where m: "map_of es c = Some m" "get_node m cs = Some (FLink t)"
    by (auto split: option.splits)
  from "2.IH" [OF m] have "(at @ [c]) @ cs \<in> set (link_paths (at @ [c]) m)" .
  moreover from m(1) have "(c, m) \<in> set es" by (rule map_of_SomeD)
  ultimately show ?case by force
qed auto

text \<open>
  The work list of \<open>posixpath._joinrealpath\<close>: components still to resolve, and marks for the
  point where a link's target has been resolved and its value enters the \<open>seen\<close> table.
\<close>

datatype pending = Comp string | Close canon

fun pending_comps :: "pending list \<Rightarrow> string list" where
  "pending_comps [] = []"
| "pending_comps (Comp c # ps) = c # pending_comps ps"
| "pending_comps (Close l # ps) = pending_comps ps"

text \<open>The result is the location and whether the resolution met no link loop.\<close>

function realpath_loop ::
  "fnode \<Rightarrow> (canon \<times> canon option) list \<Rightarrow> canon \<Rightarrow> pending list \<Rightarrow> canon \<times> bool" where
  "realpath_loop r seen cur [] = (cur, True)"
| "realpath_loop r seen cur (Close l # ps) = realpath_loop r ((l, Some cur) # seen) cur ps"
| "realpath_loop r seen cur (Comp c # ps) =
     (if c = '''' \<or> c = ''.'' then realpath_loop r seen cur ps
      else if c = ''..'' then realpath_loop r seen (butlast cur) ps
      else case get_node r (cur @ [c]) of
             Some (FLink t) \<Rightarrow>
               (case map_of seen (cur @ [c]) of
                  Some (Some v) \<Rightarrow> realpath_loop r seen v ps
                | Some None \<Rightarrow> (norm_comps True [] (cur @ [c] @ pending_comps ps), False)
                | None \<Rightarrow>
                    realpath_loop r ((cur @ [c], None) # seen)
                      (if py_startswith t ''/'' then [] else cur)
                      (map Comp (split_on (CHR ''/'') t) @ Close (cur @ [c]) # ps))
           | _ \<Rightarrow> realpath_loop r seen (cur @ [c]) ps)"
  by pat_completeness auto
termination
proof (relation "inv_image (less_than <*lex*> less_than)
    (\<lambda>(r, seen, cur, ps). (card (set (link_paths [] r) - dom (map_of seen)), length ps))", goal_cases)
  case (2 r seen cur l ps)
  have "card (set (link_paths [] r) - dom (map_of ((l, Some cur) # seen)))
      \<le> card (set (link_paths [] r) - dom (map_of seen))"
    by (intro card_mono) auto
  then show ?case by auto
next
  case (7 r seen cur c ps x2 t)
  then have "cur @ [c] \<in> set (link_paths [] r) - dom (map_of seen)"
    using link_paths_get [of r "cur @ [c]" t "[]"] by auto
  then have "card (set (link_paths [] r) - dom (map_of ((cur @ [c], None) # seen)))
      < card (set (link_paths [] r) - dom (map_of seen))"
    by (intro psubset_card_mono) auto
  then show ?case by auto
qed auto

declare realpath_loop.simps [simp del]

definition realpath :: "fnode \<Rightarrow> canon \<Rightarrow> path \<Rightarrow> canon" where
  "realpath r cwd p = fst (realpath_loop r [] (base_of cwd p) (map Comp (tail p)))"

text \<open>
  \<open>Path.resolve()\<close> (not strict): the real path; \<^const>\<open>None\<close> is the \<open>RuntimeError\<close> of a link
  loop, which Python 3.12 looks for with a \<open>stat\<close> of the result.
\<close>

definition fs_resolve :: "fnode \<Rightarrow> canon \<Rightarrow> path \<Rightarrow> path option" where
  "fs_resolve r cwd p =
     (let q = Path ''/'' (realpath r cwd p) in
      if fs_stat r cwd q = Inl ELOOP then None else Some q)"

section \<open>\<open>os.walk\<close>\<close>

text \<open>
  One directory of the walk: its path, the names of its subdirectories (links to directories
  included) and the names of its other entries.
\<close>

type_synonym walk_step = "path \<times> string list \<times> string list"

definition entry_is_dir :: "fnode \<Rightarrow> nat \<Rightarrow> canon \<Rightarrow> string \<Rightarrow> bool" where
  "entry_is_dir r n at name =
     (case namei r n True at [name] of
        Inl _ \<Rightarrow> False
      | Inr (c, _) \<Rightarrow> (case get_node r c of Some (FDir _) \<Rightarrow> True | _ \<Rightarrow> False))"

definition dir_names :: "fnode \<Rightarrow> nat \<Rightarrow> canon \<Rightarrow> (string \<times> fnode) list \<Rightarrow> string list" where
  "dir_names r n at es = filter (entry_is_dir r n at) (map fst es)"

definition file_names :: "fnode \<Rightarrow> nat \<Rightarrow> canon \<Rightarrow> (string \<times> fnode) list \<Rightarrow> string list" where
  "file_names r n at es = filter (\<lambda>x. \<not> entry_is_dir r n at x) (map fst es)"

text \<open>
  \<open>os.walk(top, topdown=True, followlinks=False)\<close> over the directory \<open>node\<close> at the canonical
  location \<open>at\<close>; \<open>prune\<close> is what the body of the loop removes from \<open>dirs\<close> before the walk descends.
\<close>

fun walk_nofollow ::
  "fnode \<Rightarrow> (string list \<Rightarrow> string list) \<Rightarrow> path \<Rightarrow> canon \<Rightarrow> fnode \<Rightarrow> walk_step list" where
  "walk_nofollow r prune d at (FDir es) =
     (d, prune (dir_names r link_limit at es), file_names r link_limit at es) #
     concat (map (\<lambda>(c, n). if c \<in> set (prune (dir_names r link_limit at es))
                           then walk_nofollow r prune (path_div d (Path '''' [c])) (at @ [c]) n
                           else []) es)"
| "walk_nofollow r prune d at _ = []"

definition os_walk :: "fnode \<Rightarrow> canon \<Rightarrow> (string list \<Rightarrow> string list) \<Rightarrow> path \<Rightarrow> walk_step list" where
  "os_walk r cwd prune d =
     (case fs_stat r cwd d of
        Inl _ \<Rightarrow> []
      | Inr at \<Rightarrow> (case get_node r at of None \<Rightarrow> [] | Some n \<Rightarrow> walk_nofollow r prune d at n))"

text \<open>
  \<open>os.walk(top, followlinks=True)\<close>. A link to a directory is entered as long as the kernel
  still resolves the path, so every entered link spends one of the 40; the test \<open>n' < n\<close> only
  records that.
\<close>

lemma size_dir_entry: "(c, m) \<in> set es \<Longrightarrow> size m < size (FDir es)"
  by (induction es) (auto simp: less_Suc_eq_le)

function walk_follow :: "fnode \<Rightarrow> nat \<Rightarrow> path \<Rightarrow> canon \<Rightarrow> fnode \<Rightarrow> walk_step list" where
  "walk_follow r n d at (FDir es) =
     (d, dir_names r n at es, file_names r n at es) #
     concat (map (\<lambda>(c, m).
       if c \<in> set (dir_names r n at es) then
         (case m of
            FLink t \<Rightarrow>
              (case namei r n True at [c] of
                 Inl _ \<Rightarrow> []
               | Inr (at', n') \<Rightarrow>
                   (case get_node r at' of
                      None \<Rightarrow> []
                    | Some m' \<Rightarrow>
                        if n' < n then walk_follow r n' (path_div d (Path '''' [c])) at' m' else []))
          | _ \<Rightarrow> walk_follow r n (path_div d (Path '''' [c])) (at @ [c]) m)
       else []) es)"
| "walk_follow r n d at (FFile t) = []"
| "walk_follow r n d at (FLink t) = []"
| "walk_follow r n d at (FBad t) = []"
  by pat_completeness auto
termination
  by (relation "inv_image (less_than <*lex*> less_than) (\<lambda>(r, n, d, at, m). (n, size m))")
    (auto dest: size_dir_entry)

definition os_walk_follow :: "fnode \<Rightarrow> canon \<Rightarrow> path \<Rightarrow> walk_step list" where
  "os_walk_follow r cwd d =
     (case namei r link_limit True (base_of cwd d) (tail d) of
        Inl _ \<Rightarrow> []
      | Inr (at, n) \<Rightarrow> (case get_node r at of None \<Rightarrow> [] | Some m \<Rightarrow> walk_follow r n d at m))"

section \<open>Creating directories and files\<close>

text \<open>\<open>Path.mkdir(parents=True, exist_ok=True)\<close>; \<^const>\<open>Inl\<close> is the \<open>OSError\<close> it raises.\<close>

function fs_mkdir_p :: "fnode \<Rightarrow> canon \<Rightarrow> path \<Rightarrow> string + fnode" where
  "fs_mkdir_p r cwd p =
     (case fs_stat r cwd p of
        Inr c \<Rightarrow>
          (case get_node r c of
             Some (FDir es) \<Rightarrow> Inr r
           | _ \<Rightarrow> Inl (''File exists: '' @ path_str p))
      | Inl ENOENT \<Rightarrow>
          if tail p = [] then Inl (''No such file or directory: '' @ path_str p)
          else (case fs_lstat r cwd p of
             Inr c \<Rightarrow> Inl (''File exists: '' @ path_str p)
           | Inl _ \<Rightarrow>
              (case fs_mkdir_p r cwd (path_parent p) of
                 Inl e \<Rightarrow> Inl e
               | Inr r' \<Rightarrow>
                   (case fs_stat r' cwd p of
                      Inr c \<Rightarrow> Inr r'
                    | Inl _ \<Rightarrow>
                        (case fs_stat r' cwd (path_parent p) of
                           Inl _ \<Rightarrow> Inl (''No such file or directory: '' @ path_str p)
                         | Inr c \<Rightarrow> Inr (put_node (c @ [last (tail p)]) (FDir []) r')))))
      | Inl _ \<Rightarrow> Inl (''Not a directory: '' @ path_str p))"
  by pat_completeness auto
termination
  by (relation "measure (\<lambda>(r, cwd, p). length (tail p))") (auto simp: path_parent_def)

declare fs_mkdir_p.simps [simp del]

text \<open>Where \<open>open\<close> creates a file that does not exist: in the directory the other components lead
  to, following a dangling final link.\<close>

function create_at :: "fnode \<Rightarrow> nat \<Rightarrow> canon \<Rightarrow> string list \<Rightarrow> canon option" where
  "create_at r n cur [] = None"
| "create_at r n cur (c # cs) =
     (if c = '''' \<or> c = ''.'' then create_at r n cur cs
      else if c = ''..'' then create_at r n (butlast cur) cs
      else case get_node r (cur @ [c]) of
             None \<Rightarrow>
               (case get_node r cur of
                  Some (FDir es) \<Rightarrow> if cs = [] then Some (cur @ [c]) else None
                | _ \<Rightarrow> None)
           | Some (FDir es) \<Rightarrow> create_at r n (cur @ [c]) cs
           | Some (FLink t) \<Rightarrow>
               (if n = 0 \<or> t = '''' then None
                else create_at r (n - 1) (if py_startswith t ''/'' then [] else cur)
                       (split_on (CHR ''/'') t @ cs))
           | _ \<Rightarrow> None)"
  by pat_completeness auto
termination
  by (relation "inv_image (less_than <*lex*> less_than) (\<lambda>(r, n, cur, cs). (n, length cs))") auto

declare create_at.simps [simp del]

text \<open>\<open>open(p, "w")\<close> followed by writing \<open>t\<close>: the file holds exactly \<open>t\<close>.\<close>

definition fs_write :: "fnode \<Rightarrow> canon \<Rightarrow> path \<Rightarrow> string \<Rightarrow> string + fnode" where
  "fs_write r cwd p t =
     (case fs_stat r cwd p of
        Inr c \<Rightarrow>
          (case get_node r c of
             Some (FFile _) \<Rightarrow> Inr (put_node c (FFile t) r)
           | _ \<Rightarrow> Inl (''Is a directory: '' @ path_str p))
      | Inl ENOENT \<Rightarrow>
          (case create_at r link_limit (base_of cwd p) (tail p) of
             Some c \<Rightarrow> Inr (put_node c (FFile t) r)
           | None \<Rightarrow> Inl (''No such file or directory: '' @ path_str p))
      | Inl _ \<Rightarrow> Inl (''Not a directory: '' @ path_str p))"

section \<open>Lookup and update\<close>

lemma map_of_assoc_put [simp]: "map_of (assoc_put k v xs) = (map_of xs)(k \<mapsto> v)"
  by (induction k v xs rule: assoc_put.induct) auto

lemma get_node_append: "get_node n (p @ q) = Option.bind (get_node n p) (\<lambda>m. get_node m q)"
  by (induction n p rule: get_node.induct) (auto split: option.splits)

lemma get_put_same:
  assumes "get_node n p = Some (FDir es)"
  shows "get_node (put_node (p @ [c]) new n) (p @ [c]) = Some new"
  using assms
proof (induction p arbitrary: n)
  case Nil
  then show ?case by simp
next
  case (Cons d p)
  then obtain es' m where es': "n = FDir es'" "map_of es' d = Some m" "get_node m p = Some (FDir es)"
    by (cases n) (auto split: option.splits)
  obtain x xs where x: "p @ [c] = x # xs" by (cases p) auto
  from Cons.IH [OF es'(3)] show ?case by (simp add: es' x)
qed

text \<open>Replacing a node changes no other place except inside the replaced subtree: of a node that
  stays only a directory's entries may differ.\<close>

definition shape :: "fnode \<Rightarrow> fnode" where
  "shape n = (case n of FFile t \<Rightarrow> FFile [] | FDir es \<Rightarrow> FDir [] | _ \<Rightarrow> n)"

lemma shape_simps [simp]:
  "shape (FFile t) = FFile []" "shape (FDir es) = FDir []" "shape (FLink t) = FLink t" "shape (FBad m) = FBad m"
  "shape n = FFile [] \<longleftrightarrow> (\<exists>t. n = FFile t)" "shape n = FDir [] \<longleftrightarrow> (\<exists>es. n = FDir es)"
  "shape n = FLink u \<longleftrightarrow> n = FLink u" "shape n = FBad u \<longleftrightarrow> n = FBad u"
  by (cases n; auto simp: shape_def)+

lemma get_put_other:
  assumes "get_node n p = Some (FDir es)" "\<not> prefix (p @ [c]) q"
  shows "map_option shape (get_node (put_node (p @ [c]) new n) q) = map_option shape (get_node n q)"
  using assms
proof (induction p arbitrary: n q)
  case Nil
  then show ?case by (cases n; cases q) auto
next
  case (Cons d p)
  then obtain es' m where m: "n = FDir es'" "map_of es' d = Some m" "get_node m p = Some (FDir es)"
    by (cases n) (auto split: option.splits)
  obtain x xs where x: "p @ [c] = x # xs" by (cases p) auto
  show ?case
  proof (cases q)
    case q: (Cons e q')
    show ?thesis
    proof (cases "e = d")
      case True
      with Cons.prems(2) q have "\<not> prefix (p @ [c]) q'" by simp
      from Cons.IH [OF m(3) this] q True show ?thesis by (simp add: m x)
    qed (simp add: m x q)
  qed (simp add: m x)
qed

lemma get_put_shape:
  assumes "get_node n p = Some (FDir es)"
    and old: "get_node n (p @ [c]) = None \<or> (\<exists>t. get_node n (p @ [c]) = Some (FFile t))" and "q \<noteq> p @ [c]"
  shows "map_option shape (get_node (put_node (p @ [c]) (FFile t) n) q) = map_option shape (get_node n q)"
proof (cases "prefix (p @ [c]) q")
  case True
  then obtain zs where "q = (p @ [c]) @ zs" "zs \<noteq> []" using assms(3) by (auto simp: prefix_def)
  then obtain y ys where q: "q = (p @ [c]) @ y # ys" by (cases zs) auto
  have "get_node (put_node (p @ [c]) (FFile t) n) q = None"
    unfolding q get_node_append [of _ "p @ [c]"] get_put_same [OF assms(1)] by simp
  moreover have "get_node n q = None" unfolding q get_node_append [of _ "p @ [c]"] using old by auto
  ultimately show ?thesis by simp
qed (rule get_put_other [OF assms(1)])

text \<open>Name resolution looks at the shape of the tree only.\<close>

lemma shape_cases:
  assumes "map_option shape a = map_option shape b"
  obtains "a = None" "b = None" | m where "a = Some (FBad m)" "b = Some (FBad m)"
    | t where "a = Some (FLink t)" "b = Some (FLink t)" | es es' where "a = Some (FDir es)" "b = Some (FDir es')"
    | t t' where "a = Some (FFile t)" "b = Some (FFile t')"
proof (cases b)
  case (Some n)
  with assms that(2-5) show ?thesis by (cases n) auto
qed (use assms that(1) in simp)

lemma namei_shape:
  assumes "\<And>q. map_option shape (get_node r' q) = map_option shape (get_node r q)"
  shows "namei r' n fl cur cs = namei r n fl cur cs"
  using assms
proof (induction r n fl cur cs rule: namei.induct)
  case (2 r n fl cur c cs)
  note prem = "2.prems"
  note IH = "2.IH"(1) [OF _ prem] "2.IH"(2) [OF _ _ prem]
  show ?case
  proof (cases "c = '''' \<or> c = ''.'' \<or> c = ''..''")
    case True
    with IH show ?thesis by (auto simp: namei.simps(2))
  next
    case False
    then have c: "\<not> (c = '''' \<or> c = ''.'')" "c \<noteq> ''..''" by auto
    show ?thesis
      by (rule shape_cases [OF prem [of "cur @ [c]"]])
        (use "2.IH"(4) [OF c _ _ prem] "2.IH"(3) [OF c _ _ _ _ _ prem] c in \<open>simp_all add: namei.simps(2)\<close>)
  qed
qed (simp add: namei.simps)

text \<open>The location a file is created at is where its name leads afterwards.\<close>

lemma create_at_missing: "create_at r n cur cs = Some c \<Longrightarrow>
  get_node r c = None \<and> c \<noteq> [] \<and> (\<exists>es. get_node r (butlast c) = Some (FDir es))"
proof (induction r n cur cs rule: create_at.induct)
  case (2 r n cur d cs)
  from "2.prems" "2.IH" show ?case
    by (simp add: create_at.simps(2) split: if_splits option.splits fnode.splits; fastforce)
qed (simp add: create_at.simps)

lemma create_at_namei:
  assumes "create_at r n cur cs = Some loc" "get_node r' loc = Some (FFile t)"
    and "\<And>q. q \<noteq> loc \<Longrightarrow> map_option shape (get_node r' q) = map_option shape (get_node r q)"
  shows "\<exists>m. namei r' n True cur cs = Inr (loc, m)"
  using assms
proof (induction r n cur cs rule: create_at.induct)
  case (2 r n cur d cs)
  note prem = "2.prems"
  have none: "get_node r loc = None" using create_at_missing [OF prem(1)] by simp
  show ?case
  proof (cases "d = '''' \<or> d = ''.'' \<or> d = ''..''")
    case True
    with "2.IH"(1,2) prem show ?thesis by (auto simp: namei.simps(2) create_at.simps(2) split: if_splits)
  next
    case False
    then have d: "\<not> (d = '''' \<or> d = ''.'')" "d \<noteq> ''..''" by auto
    show ?thesis
    proof (cases "get_node r (cur @ [d])")
      case None
      with prem(1,2) d show ?thesis by (auto simp: namei.simps create_at.simps(2) split: option.splits fnode.splits if_splits)
    next
      case (Some n')
      with none have "cur @ [d] \<noteq> loc" by auto
      then show ?thesis
        by (rule shape_cases [OF prem(3)])
          (use Some d prem(1) "2.IH"(4) [OF d _ _ _ prem(2,3)] "2.IH"(3) [OF d _ _ _ _ prem(2,3)] in
            \<open>auto simp: namei.simps(2) create_at.simps(2) split: if_splits\<close>)
    qed
  qed
qed (simp add: create_at.simps)

text \<open>Writing a file and reading it back.\<close>

lemma get_node_parent:
  "get_node r (p @ [c]) = Some n \<Longrightarrow> \<exists>es. get_node r p = Some (FDir es)"
proof -
  assume "get_node r (p @ [c]) = Some n"
  then obtain m where "get_node r p = Some m" "get_node m [c] = Some n"
    by (auto simp: get_node_append bind_eq_Some_conv)
  then show ?thesis by (cases m) auto
qed

lemma put_file_shape:
  assumes "get_node r c = Some (FFile u)"
  shows "get_node (put_node c (FFile t) r) c = Some (FFile t)"
    and "map_option shape (get_node (put_node c (FFile t) r) q) = map_option shape (get_node r q)"
proof -
  show A: "get_node (put_node c (FFile t) r) c = Some (FFile t)"
  proof (cases c rule: rev_cases)
    case (snoc p d)
    with assms get_node_parent obtain es where "get_node r p = Some (FDir es)" by blast
    with snoc show ?thesis by (simp add: get_put_same)
  qed simp
  show "map_option shape (get_node (put_node c (FFile t) r) q) = map_option shape (get_node r q)"
  proof (cases c rule: rev_cases)
    case Nil
    with assms show ?thesis by (cases q) auto
  next
    case (snoc p d)
    with assms get_node_parent obtain es where "get_node r p = Some (FDir es)" by blast
    with snoc assms A show ?thesis by (cases "q = c") (auto intro!: get_put_shape)
  qed
qed

lemma fs_read_write:
  assumes "fs_write r cwd p t = Inr r'"
  shows "fs_read r' cwd p = Some t"
proof -
  consider (over) c u where "fs_stat r cwd p = Inr c" "get_node r c = Some (FFile u)" "r' = put_node c (FFile t) r"
    | (new) c where "create_at r link_limit (base_of cwd p) (tail p) = Some c" "r' = put_node c (FFile t) r"
    using assms by (auto simp: fs_write_def split: sum.splits option.splits fnode.splits fs_error.splits)
  then show ?thesis
  proof cases
    case over
    with put_file_shape [OF over(2), of t] namei_shape [of r' r]
    have "fs_stat r' cwd p = Inr c" by (simp add: fs_stat_def)
    with over put_file_shape(1) [OF over(2)] show ?thesis by (simp add: fs_read_def)
  next
    case new
    then obtain q d es where c: "c = q @ [d]" "get_node r q = Some (FDir es)" "get_node r (q @ [d]) = None"
      using create_at_missing [OF new(1)] by (metis append_butlast_last_id)
    then have at: "get_node r' c = Some (FFile t)" using new(2) by (simp add: get_put_same)
    have "\<exists>m. namei r' link_limit True (base_of cwd p) (tail p) = Inr (c, m)"
      by (rule create_at_namei [OF new(1) at]) (use c new(2) get_put_shape in blast)
    with at show ?thesis by (auto simp: fs_read_def fs_stat_def)
  qed
qed

end
