(* ===== verification/Py_Float.thy ===== *)
theory Py_Float
  imports Devkit_Prelude Complex_Main "HOL-Library.Log_Nat"
begin

text \<open>
  Python floats: IEEE 754 binary64 values as exact rationals, with rounding to nearest, ties
  to even, written out. The sign of a zero is not represented.
\<close>

section \<open>Rounding\<close>

definition pow2 :: "int \<Rightarrow> rat" where
  "pow2 e = (if 0 \<le> e then 2 ^ nat e else 1 / 2 ^ nat (- e))"

text \<open>\<open>floor_log2 x\<close> is the exponent \<open>k\<close> with \<open>2\<^sup>k \<le> x < 2\<^sup>k\<^sup>+\<^sup>1\<close>, for a positive \<open>x\<close>.\<close>

definition floor_log2 :: "rat \<Rightarrow> int" where
  "floor_log2 x =
     (let (a, b) = quotient_of x; k = bitlen a - bitlen b
      in if pow2 k \<le> x then k else k - 1)"

definition round_even :: "rat \<Rightarrow> int" where
  "round_even x =
     (let n = \<lfloor>x\<rfloor>; d = x - of_int n
      in if d < 1 / 2 then n else if 1 / 2 < d then n + 1
         else if even n then n else n + 1)"

definition ulp_exp :: "rat \<Rightarrow> int" where
  "ulp_exp x = max (floor_log2 \<bar>x\<bar> - 52) (- 1074)"

definition rnd :: "rat \<Rightarrow> rat" where
  "rnd x = (if x = 0 then 0 else of_int (round_even (x / pow2 (ulp_exp x))) * pow2 (ulp_exp x))"

section \<open>Values and operations\<close>

datatype pyfloat = Fin rat | PInf | NInf | NaN

definition fin_or_inf :: "rat \<Rightarrow> pyfloat" where
  "fin_or_inf x = (if pow2 1024 \<le> x then PInf else if x \<le> - pow2 1024 then NInf else Fin x)"

fun f_less :: "pyfloat \<Rightarrow> pyfloat \<Rightarrow> bool" where
  "f_less NaN _ = False"
| "f_less _ NaN = False"
| "f_less (Fin x) (Fin y) = (x < y)"
| "f_less NInf y = (y \<noteq> NInf)"
| "f_less PInf y = False"
| "f_less x PInf = True"
| "f_less x NInf = False"

fun f_le :: "pyfloat \<Rightarrow> pyfloat \<Rightarrow> bool" where
  "f_le NaN _ = False"
| "f_le _ NaN = False"
| "f_le (Fin x) (Fin y) = (x \<le> y)"
| "f_le NInf y = True"
| "f_le PInf y = (y = PInf)"
| "f_le x PInf = True"
| "f_le x NInf = False"

text \<open>Sum, and division by a positive finite number, in floating point.\<close>

fun f_add :: "pyfloat \<Rightarrow> pyfloat \<Rightarrow> pyfloat" where
  "f_add (Fin x) (Fin y) = fin_or_inf (rnd (x + y))"
| "f_add NaN _ = NaN"
| "f_add _ NaN = NaN"
| "f_add PInf NInf = NaN"
| "f_add NInf PInf = NaN"
| "f_add PInf _ = PInf"
| "f_add NInf _ = NInf"
| "f_add _ PInf = PInf"
| "f_add _ NInf = NInf"

fun f_div_pos :: "pyfloat \<Rightarrow> rat \<Rightarrow> pyfloat" where
  "f_div_pos (Fin x) y = fin_or_inf (rnd (x / y))"
| "f_div_pos v y = v"

fun f_mul_pos :: "pyfloat \<Rightarrow> rat \<Rightarrow> pyfloat" where
  "f_mul_pos (Fin x) y = fin_or_inf (rnd (x * y))"
| "f_mul_pos v y = v"

text \<open>\<open>a / b\<close> on integers, correctly rounded; \<^const>\<open>None\<close> is \<open>OverflowError\<close>. For \<open>b \<noteq> 0\<close>.\<close>

definition int_truediv :: "int \<Rightarrow> int \<Rightarrow> rat option" where
  "int_truediv a b =
     (let x = rnd (of_int a / of_int b)
      in if \<bar>x\<bar> < pow2 1024 then Some x else None)"

section \<open>Reading and printing\<close>

fun digits_tail :: "string \<Rightarrow> string \<times> string" where
  "digits_tail [] = ([], [])"
| "digits_tail [c] = (if is_digit c then ([c], []) else ([], [c]))"
| "digits_tail (c # d # cs) =
     (if is_digit c then (let (ds, r) = digits_tail (d # cs) in (c # ds, r))
      else if c = CHR ''_'' \<and> is_digit d then digits_tail (d # cs)
      else ([], c # d # cs))"

definition digits_run :: "string \<Rightarrow> string \<times> string" where
  "digits_run s = (case s of c # _ \<Rightarrow> if is_digit c then digits_tail s else ([], s) | [] \<Rightarrow> ([], []))"

definition digits_value :: "string \<Rightarrow> nat" where
  "digits_value ds = foldl (\<lambda>a c. 10 * a + digit_val c) 0 ds"

definition pow10 :: "int \<Rightarrow> rat" where
  "pow10 e = (if 0 \<le> e then 10 ^ nat e else 1 / 10 ^ nat (- e))"

definition decimal_float :: "string \<Rightarrow> string \<Rightarrow> int \<Rightarrow> pyfloat" where
  "decimal_float ip fp e =
     fin_or_inf (rnd (of_nat (digits_value (ip @ fp)) * pow10 (e - int (length fp))))"

definition neg_float :: "pyfloat \<Rightarrow> pyfloat" where
  "neg_float v = (case v of Fin x \<Rightarrow> Fin (- x) | PInf \<Rightarrow> NInf | NInf \<Rightarrow> PInf | NaN \<Rightarrow> NaN)"

text \<open>The optional exponent at the end of a number; \<^const>\<open>None\<close> when the text is not one.\<close>

definition exponent_part :: "string \<Rightarrow> int option" where
  "exponent_part s =
     (case s of
        [] \<Rightarrow> Some 0
      | c # r \<Rightarrow>
          if c = CHR ''e'' \<or> c = CHR ''E'' then
            (let (sg, t) = (case r of d # u \<Rightarrow> if d = CHR ''-'' then (-1, u)
                              else if d = CHR ''+'' then (1, u) else (1, r) | [] \<Rightarrow> (1, []));
                 (ds, u) = digits_run t
             in if ds = [] \<or> u \<noteq> [] then None else Some (sg * int (digits_value ds)))
          else None)"

definition unsigned_float :: "string \<Rightarrow> pyfloat option" where
  "unsigned_float s =
     (let (ip, r) = digits_run s;
          (fp, u) = (case r of c # t \<Rightarrow> if c = CHR ''.'' then digits_run t else ([], r) | [] \<Rightarrow> ([], []))
      in if ip = [] \<and> fp = [] then None
         else map_option (decimal_float ip fp) (exponent_part u))"

definition lower_char :: "char \<Rightarrow> char" where
  "lower_char c = (let n = (of_char c :: nat) in if 65 \<le> n \<and> n \<le> 90 then char_of (n + 32) else c)"

text \<open>\<open>float(s)\<close>; \<^const>\<open>None\<close> is \<open>ValueError\<close>.\<close>

definition py_float :: "string \<Rightarrow> pyfloat option" where
  "py_float s =
     (let t = py_strip s;
          (neg, u) = (case t of c # r \<Rightarrow> if c = CHR ''-'' then (True, r)
                        else if c = CHR ''+'' then (False, r) else (False, t) | [] \<Rightarrow> (False, []));
          l = map lower_char u;
          v = (if l = ''inf'' \<or> l = ''infinity'' then Some PInf
               else if l = ''nan'' then Some NaN else unsigned_float u)
      in if neg then map_option neg_float v else v)"

text \<open>The format \<open>:>7.2%\<close>: times 100, two decimals, right-adjusted to seven columns.\<close>

definition pad_left :: "nat \<Rightarrow> string \<Rightarrow> string" where
  "pad_left w s = replicate (w - length s) (CHR '' '') @ s"

definition pad_right :: "nat \<Rightarrow> string \<Rightarrow> string" where
  "pad_right w s = s @ replicate (w - length s) (CHR '' '')"

definition fixed2 :: "rat \<Rightarrow> string" where
  "fixed2 x =
     (let n = nat \<bar>round_even (x * 100)\<bar>
      in (if x < 0 then ''-'' else '''') @ str_nat (n div 100) @ ''.'' @
         [digit_char (n mod 100 div 10), digit_char (n mod 10)])"

definition percent7_2 :: "pyfloat \<Rightarrow> string" where
  "percent7_2 v =
     pad_left 7 ((case f_mul_pos v 100 of
        Fin x \<Rightarrow> fixed2 x | PInf \<Rightarrow> ''inf'' | NInf \<Rightarrow> ''-inf'' | NaN \<Rightarrow> ''nan'') @ ''%'')"

section \<open>Laws of rounding\<close>

lemma pow2_pos [simp]: "0 < pow2 e"
  by (simp add: pow2_def)

lemma pow2_Suc: "pow2 (e + 1) = 2 * pow2 e"
proof -
  consider "0 \<le> e" | "e = -1" | "e < -1" by linarith
  then show ?thesis
  proof cases
    case 1
    then have "nat (e + 1) = Suc (nat e)" by simp
    with 1 show ?thesis by (simp add: pow2_def)
  next
    case 2
    then show ?thesis by (simp add: pow2_def)
  next
    case 3
    then have "nat (- e) = Suc (nat (- (e + 1)))" by simp
    with 3 show ?thesis by (simp add: pow2_def)
  qed
qed

lemma pow2_add_nat: "pow2 (e + int n) = pow2 e * 2 ^ n"
proof (induction n)
  case 0
  then show ?case by simp
next
  case (Suc n)
  have "pow2 (e + int (Suc n)) = pow2 ((e + int n) + 1)" by (simp add: algebra_simps)
  with Suc show ?case by (simp add: pow2_Suc)
qed

lemma pow2_add: "pow2 (a + b) = pow2 a * pow2 b"
proof (cases "0 \<le> b")
  case True
  then show ?thesis using pow2_add_nat [of a "nat b"] by (simp add: pow2_def)
next
  case False
  then have "pow2 a = pow2 (a + b) * 2 ^ nat (- b)"
    using pow2_add_nat [of "a + b" "nat (- b)"] by simp
  with False show ?thesis by (simp add: pow2_def)
qed

lemma pow2_mono: "a \<le> b \<Longrightarrow> pow2 a \<le> pow2 b"
  using pow2_add_nat [of a "nat (b - a)"] by simp

lemma pow2_less_imp: "pow2 a < pow2 b \<Longrightarrow> a < b"
  using pow2_mono [of b a] by linarith

lemma pow2_of_bitlen:
  assumes "0 < a"
  shows "pow2 (bitlen a - 1) \<le> of_int a" "of_int a < pow2 (bitlen a)"
proof -
  have b: "2 ^ nat (bitlen a - 1) \<le> a" "a < 2 ^ nat (bitlen a)" "0 < bitlen a"
    using bitlen_bounds [OF assms] assms bitlen_nonneg [of a] bitlen_eq_zero_iff [of a] by linarith+
  have "(of_int (2 ^ nat (bitlen a - 1)) :: rat) \<le> of_int a" using b(1) of_int_le_iff by blast
  then show "pow2 (bitlen a - 1) \<le> of_int a" using b(3) by (simp add: pow2_def)
  have "(of_int a :: rat) < of_int (2 ^ nat (bitlen a))" using b(2) of_int_less_iff by blast
  then show "of_int a < pow2 (bitlen a)" using b(3) by (simp add: pow2_def)
qed

lemma floor_log2_bounds:
  assumes "0 < x"
  shows "pow2 (floor_log2 x) \<le> x" "x < pow2 (floor_log2 x + 1)"
proof -
  obtain a b where ab: "quotient_of x = (a, b)" by fastforce
  have b: "0 < b" and x: "x = of_int a / of_int b"
    using quotient_of_denom_pos [OF ab] quotient_of_div [OF ab] by auto
  with assms have a: "0 < a" by (simp add: zero_less_divide_iff)
  define k where "k = bitlen a - bitlen b"
  have bpos: "(0 :: rat) < of_int b" using b by simp
  have lo: "pow2 (k - 1) \<le> x"
  proof -
    have "pow2 (k - 1) * of_int b \<le> pow2 (k - 1) * pow2 (bitlen b)"
      using pow2_of_bitlen(2) [OF b] by (simp add: less_imp_le)
    also have "\<dots> = pow2 (bitlen a - 1)" by (simp add: k_def pow2_add [symmetric])
    also have "\<dots> \<le> of_int a" by (rule pow2_of_bitlen(1) [OF a])
    finally show ?thesis using bpos by (simp add: x pos_le_divide_eq)
  qed
  have hi: "x < pow2 (k + 1)"
  proof -
    have "of_int a < pow2 (bitlen a)" by (rule pow2_of_bitlen(2) [OF a])
    also have "\<dots> = pow2 (k + 1) * pow2 (bitlen b - 1)" by (simp add: k_def pow2_add [symmetric])
    also have "\<dots> \<le> pow2 (k + 1) * of_int b" using pow2_of_bitlen(1) [OF b] by simp
    finally show ?thesis using bpos by (simp add: x pos_divide_less_eq)
  qed
  have eq: "floor_log2 x = (if pow2 k \<le> x then k else k - 1)"
    by (simp add: floor_log2_def ab k_def)
  show "pow2 (floor_log2 x) \<le> x" "x < pow2 (floor_log2 x + 1)"
    using lo hi by (auto simp: eq)
qed

lemma round_even_bounds:
  "of_int (round_even x) \<le> x + 1 / 2" "x - 1 / 2 \<le> of_int (round_even x)"
proof -
  have "of_int \<lfloor>x\<rfloor> \<le> x" "x < of_int \<lfloor>x\<rfloor> + 1" using floor_correct [of x] by simp_all
  then show "of_int (round_even x) \<le> x + 1 / 2" "x - 1 / 2 \<le> of_int (round_even x)"
    by (simp_all add: round_even_def Let_def; linarith)+
qed

lemma round_even_of_int [simp]: "round_even (of_int n) = n"
  by (simp add: round_even_def)

lemma round_even_mono:
  assumes "x \<le> y"
  shows "round_even x \<le> round_even y"
proof (cases "\<lfloor>x\<rfloor> = \<lfloor>y\<rfloor>")
  case True
  then show ?thesis using assms by (auto simp: round_even_def Let_def)
next
  case False
  with assms have "\<lfloor>x\<rfloor> + 1 \<le> \<lfloor>y\<rfloor>" using floor_mono [of x y] by linarith
  moreover have "round_even x \<le> \<lfloor>x\<rfloor> + 1" "\<lfloor>y\<rfloor> \<le> round_even y"
    by (auto simp: round_even_def Let_def)
  ultimately show ?thesis by linarith
qed

lemma rnd_eq: "rnd x = of_int (round_even (x / pow2 (ulp_exp x))) * pow2 (ulp_exp x)"
  by (simp add: rnd_def round_even_def)

lemma rnd_error: "\<bar>rnd x - x\<bar> \<le> pow2 (ulp_exp x) / 2"
proof -
  let ?u = "pow2 (ulp_exp x)"
  have "\<bar>of_int (round_even (x / ?u)) - x / ?u\<bar> \<le> 1 / 2"
    using round_even_bounds [of "x / ?u"] by linarith
  then have "\<bar>of_int (round_even (x / ?u)) - x / ?u\<bar> * ?u \<le> 1 / 2 * ?u"
    by (intro mult_right_mono) (simp_all add: less_imp_le)
  moreover have "\<bar>of_int (round_even (x / ?u)) - x / ?u\<bar> * ?u = \<bar>rnd x - x\<bar>"
  proof -
    have "\<bar>of_int (round_even (x / ?u)) - x / ?u\<bar> * ?u =
      \<bar>(of_int (round_even (x / ?u)) - x / ?u) * ?u\<bar>"
      by (simp add: abs_mult less_imp_le)
    then show ?thesis by (simp add: rnd_eq left_diff_distrib less_imp_neq [OF pow2_pos, symmetric])
  qed
  ultimately show ?thesis by simp
qed

text \<open>A bound that is an integer multiple of the unit is kept by rounding.\<close>

lemma rnd_le_multiple:
  assumes "x \<le> of_int n * pow2 (ulp_exp x)"
  shows "rnd x \<le> of_int n * pow2 (ulp_exp x)"
proof -
  have "x / pow2 (ulp_exp x) \<le> of_int n" using assms by (simp add: pos_divide_le_eq)
  then have "round_even (x / pow2 (ulp_exp x)) \<le> n"
    using round_even_mono round_even_of_int by metis
  then show ?thesis by (simp add: rnd_eq)
qed

lemma rnd_ge_multiple:
  assumes "of_int n * pow2 (ulp_exp x) \<le> x"
  shows "of_int n * pow2 (ulp_exp x) \<le> rnd x"
proof -
  have "of_int n \<le> x / pow2 (ulp_exp x)" using assms by (simp add: pos_le_divide_eq)
  then have "n \<le> round_even (x / pow2 (ulp_exp x))"
    using round_even_mono round_even_of_int by metis
  then show ?thesis by (simp add: rnd_eq)
qed

lemma pow2_53: "pow2 (e + 53) = of_int (2 ^ 53) * pow2 e" "pow2 (e + 52) = of_int (2 ^ 52) * pow2 e"
  using pow2_add_nat [of e 53] pow2_add_nat [of e 52] by simp_all

lemma rnd_mono_pos:
  assumes "0 < x" "x \<le> y"
  shows "rnd x \<le> rnd y"
proof -
  from assms have y: "0 < y" by linarith
  have "pow2 (floor_log2 x) < pow2 (floor_log2 y + 1)"
    using floor_log2_bounds [OF assms(1)] floor_log2_bounds [OF y] assms(2) by linarith
  then have fl: "floor_log2 x \<le> floor_log2 y" using pow2_less_imp by fastforce
  then have le: "ulp_exp x \<le> ulp_exp y" using assms y by (simp add: ulp_exp_def)
  show ?thesis
  proof (cases "ulp_exp x = ulp_exp y")
    case True
    then show ?thesis using assms round_even_mono [of "x / pow2 (ulp_exp y)" "y / pow2 (ulp_exp y)"]
      by (simp add: rnd_eq divide_right_mono less_imp_le)
  next
    case False
    with le have lt: "ulp_exp x < ulp_exp y" by linarith
    then have ey: "floor_log2 y = ulp_exp y + 52" using y by (auto simp: ulp_exp_def)
    have "x \<le> pow2 (ulp_exp x + 53)"
    proof -
      have "floor_log2 x + 1 \<le> ulp_exp x + 53" using assms(1) by (simp add: ulp_exp_def)
      then have "pow2 (floor_log2 x + 1) \<le> pow2 (ulp_exp x + 53)" by (rule pow2_mono)
      then show ?thesis using floor_log2_bounds(2) [OF assms(1)] by linarith
    qed
    then have "rnd x \<le> pow2 (ulp_exp x + 53)"
      unfolding pow2_53 by (rule rnd_le_multiple)
    also have "\<dots> \<le> pow2 (ulp_exp y + 52)" using lt by (intro pow2_mono) linarith
    also have "\<dots> \<le> rnd y"
      using floor_log2_bounds(1) [OF y] unfolding ey pow2_53 by (rule rnd_ge_multiple)
    finally show ?thesis .
  qed
qed

lemma rnd_zero [simp]: "rnd 0 = 0"
  by (simp add: rnd_def)

lemma rnd_nonneg: "0 \<le> x \<Longrightarrow> 0 \<le> rnd x"
  using rnd_ge_multiple [of 0 x] by simp

lemma rnd_mono: "0 \<le> x \<Longrightarrow> x \<le> y \<Longrightarrow> rnd x \<le> rnd y"
  using rnd_mono_pos rnd_nonneg by (cases "x = 0") auto

lemma rnd_error_unit:
  assumes "0 \<le> x" "x \<le> 1"
  shows "\<bar>rnd x - x\<bar> \<le> 1 / 2 ^ 53"
proof (cases "x = 0")
  case False
  with assms have "0 < x" by simp
  have "pow2 (floor_log2 x) \<le> 1"
    using floor_log2_bounds(1) [OF \<open>0 < x\<close>] assms(2) by linarith
  then have "floor_log2 x \<le> 0" using pow2_mono [of 1 "floor_log2 x"] by (fastforce simp: pow2_def)
  then have "ulp_exp x \<le> - 52" using assms by (simp add: ulp_exp_def)
  then have "pow2 (ulp_exp x) \<le> pow2 (- 52)" by (rule pow2_mono)
  then show ?thesis using rnd_error [of x] by (simp add: pow2_def)
qed simp

text \<open>
  Two quotients at most 1 that differ by more than \<open>2\<^sup>-\<^sup>5\<^sup>2\<close> stay ordered after rounding, so
  comparing the rounded quotients decides the exact comparison.
\<close>

lemma rnd_less_iff_gap:
  assumes "0 \<le> x" "0 \<le> y" "y \<le> 1" and gap: "x < y \<Longrightarrow> 1 / 2 ^ 52 < y - x"
  shows "rnd x < rnd y \<longleftrightarrow> x < y"
proof
  assume "rnd x < rnd y"
  then show "x < y" using rnd_mono [OF assms(2), of x] by (meson not_le)
next
  assume lt: "x < y"
  with assms have "x \<le> 1" by linarith
  have "rnd x \<le> x + 1 / 2 ^ 53" "y - 1 / 2 ^ 53 \<le> rnd y"
    using rnd_error_unit [OF assms(1) \<open>x \<le> 1\<close>] rnd_error_unit [OF assms(2,3)] by linarith+
  moreover have "x + 1 / 2 ^ 53 < y - 1 / 2 ^ 53" using gap [OF lt] by simp
  ultimately show "rnd x < rnd y" by linarith
qed

end
