(* ===== verification/Py_Json.thy ===== *)
theory Py_Json
  imports Py_Float
begin

text \<open>
  JSON values and the parser of Python's \<open>json.load\<close> and \<open>json.loads\<close>, and the dynamic
  operations the scripts apply to parsed values: membership, indexing, truth and \<open>isinstance\<close>.
\<close>

section \<open>Values\<close>

datatype json =
    JNull
  | JBool bool
  | JInt int
  | JFloat pyfloat
  | JStr string
  | JList "json list"
  | JObj "(string \<times> json) list"

text \<open>\<open>bool(v)\<close>\<close>

definition py_truth :: "json \<Rightarrow> bool" where
  "py_truth v = (case v of JNull \<Rightarrow> False | JBool b \<Rightarrow> b | JInt i \<Rightarrow> i \<noteq> 0 | JFloat f \<Rightarrow> f \<noteq> Fin 0
     | JStr s \<Rightarrow> s \<noteq> [] | JList xs \<Rightarrow> xs \<noteq> [] | JObj d \<Rightarrow> d \<noteq> [])"

text \<open>\<open>d[k] = v\<close> on a dict: an existing key keeps its place.\<close>

fun dict_put :: "'k \<Rightarrow> 'v \<Rightarrow> ('k \<times> 'v) list \<Rightarrow> ('k \<times> 'v) list" where
  "dict_put k v [] = [(k, v)]"
| "dict_put k v ((k', v') # xs) =
     (if k' = k then (k', v) # xs else (k', v') # dict_put k v xs)"

text \<open>\<open>d.update(e)\<close>.\<close>

definition dict_update :: "('k \<times> 'v) list \<Rightarrow> ('k \<times> 'v) list \<Rightarrow> ('k \<times> 'v) list" where
  "dict_update d e = foldl (\<lambda>d kv. dict_put (fst kv) (snd kv) d) d e"

lemma map_of_dict_put [simp]: "map_of (dict_put k v d) = (map_of d)(k \<mapsto> v)"
  by (induction k v d rule: dict_put.induct) auto

lemma dict_put_keys: "fst ` set (dict_put k v d) = insert k (fst ` set d)"
  by (induction k v d rule: dict_put.induct) auto

lemma distinct_dict_put: "distinct (map fst d) \<Longrightarrow> distinct (map fst (dict_put k v d))"
  by (induction k v d rule: dict_put.induct) (auto simp: dict_put_keys image_iff)

section \<open>Parsing\<close>

definition json_ws :: "char \<Rightarrow> bool" where
  "json_ws c = (c = CHR '' '' \<or> c = CHR 0x09 \<or> c = CHR 0x0A \<or> c = CHR 0x0D)"

definition skip_ws :: "string \<Rightarrow> string" where
  "skip_ws s = dropWhile json_ws s"

definition hex_val :: "char \<Rightarrow> nat option" where
  "hex_val c = (let n = (of_char c :: nat) in
     if 48 \<le> n \<and> n \<le> 57 then Some (n - 48)
     else if 97 \<le> n \<and> n \<le> 102 then Some (n - 87)
     else if 65 \<le> n \<and> n \<le> 70 then Some (n - 55) else None)"

text \<open>
  A four-digit escape; a code point beyond U+00FF, which \<^typ>\<open>string\<close> cannot hold, is read as
  a question mark.
\<close>

definition hex4 :: "char \<Rightarrow> char \<Rightarrow> char \<Rightarrow> char \<Rightarrow> char option" where
  "hex4 a b c d =
     (case (hex_val a, hex_val b, hex_val c, hex_val d) of
        (Some w, Some x, Some y, Some z) \<Rightarrow>
          (let n = ((w * 16 + x) * 16 + y) * 16 + z
           in Some (if n < 256 then char_of n else CHR ''?''))
      | _ \<Rightarrow> None)"

definition simple_escape :: "char \<Rightarrow> char option" where
  "simple_escape c =
     (if c = CHR 0x22 then Some (CHR 0x22)
      else if c = CHR 0x5C then Some (CHR 0x5C)
      else if c = CHR ''/'' then Some (CHR ''/'')
      else if c = CHR ''b'' then Some (CHR 0x08)
      else if c = CHR ''f'' then Some (CHR 0x0C)
      else if c = CHR ''n'' then Some (CHR 0x0A)
      else if c = CHR ''r'' then Some (CHR 0x0D)
      else if c = CHR ''t'' then Some (CHR 0x09) else None)"

text \<open>The rest of a string after its opening quote: its value and the text after the closing one.\<close>

fun parse_string :: "string \<Rightarrow> (string \<times> string) option" where
  "parse_string [] = None"
| "parse_string (c # cs) =
     (if c = CHR 0x22 then Some ([], cs)
      else if c = CHR 0x5C then
        (case cs of
           [] \<Rightarrow> None
         | e # r \<Rightarrow>
             if e = CHR ''u'' then
               (case r of
                  h1 # h2 # h3 # h4 # t \<Rightarrow>
                    (case hex4 h1 h2 h3 h4 of
                       None \<Rightarrow> None
                     | Some x \<Rightarrow> map_option (\<lambda>(v, u). (x # v, u)) (parse_string t))
                | _ \<Rightarrow> None)
             else (case simple_escape e of
                     None \<Rightarrow> None
                   | Some x \<Rightarrow> map_option (\<lambda>(v, u). (x # v, u)) (parse_string r)))
      else if (of_char c :: nat) < 32 then None
      else map_option (\<lambda>(v, u). (c # v, u)) (parse_string cs))"

text \<open>\<open>(-?(?:0|[1-9][0-9]*))(\.[0-9]+)?([eE][-+]?[0-9]+)?\<close>\<close>

definition span_digits :: "string \<Rightarrow> string \<times> string" where
  "span_digits s = (takeWhile is_digit s, dropWhile is_digit s)"

definition parse_frac :: "string \<Rightarrow> string option \<times> string" where
  "parse_frac s =
     (case s of
        c # r \<Rightarrow> if c = CHR ''.'' \<and> fst (span_digits r) \<noteq> []
                then (Some (fst (span_digits r)), snd (span_digits r)) else (None, s)
      | [] \<Rightarrow> (None, s))"

definition parse_exp :: "string \<Rightarrow> int option \<times> string" where
  "parse_exp s =
     (case s of
        c # r \<Rightarrow>
          if c = CHR ''e'' \<or> c = CHR ''E'' then
            (let (sg, t) = (case r of d # u \<Rightarrow> if d = CHR ''-'' then (-1, u)
                              else if d = CHR ''+'' then (1, u) else (1, r) | [] \<Rightarrow> (1, []))
             in if fst (span_digits t) = [] then (None, s)
                else (Some (sg * int (digits_value (fst (span_digits t)))), snd (span_digits t)))
          else (None, s)
      | [] \<Rightarrow> (None, s))"

definition parse_number :: "string \<Rightarrow> (json \<times> string) option" where
  "parse_number s =
     (let (neg, t) = (case s of c # r \<Rightarrow> if c = CHR ''-'' then (True, r) else (False, s) | [] \<Rightarrow> (False, []));
          (ip, u) = (case t of c # r \<Rightarrow> if c = CHR ''0'' then (''0'', r) else span_digits t | [] \<Rightarrow> ([], []));
          (fp, v) = parse_frac u;
          (ex, w) = parse_exp v
      in if ip = [] then None
         else if fp = None \<and> ex = None then
           Some (JInt (if neg then - int (digits_value ip) else int (digits_value ip)), w)
         else
           (let x = decimal_float ip (case fp of None \<Rightarrow> [] | Some ds \<Rightarrow> ds)
                      (case ex of None \<Rightarrow> 0 | Some e \<Rightarrow> e)
            in Some (JFloat (if neg then neg_float x else x), w)))"

definition parse_word :: "string \<Rightarrow> (json \<times> string) option" where
  "parse_word s =
     (if py_startswith s ''null'' then Some (JNull, drop 4 s)
      else if py_startswith s ''true'' then Some (JBool True, drop 4 s)
      else if py_startswith s ''false'' then Some (JBool False, drop 5 s)
      else if py_startswith s ''NaN'' then Some (JFloat NaN, drop 3 s)
      else if py_startswith s ''Infinity'' then Some (JFloat PInf, drop 8 s)
      else if py_startswith s ''-Infinity'' then Some (JFloat NInf, drop 9 s)
      else parse_number s)"

text \<open>
  The recursive part, with fuel. A nested value costs two units per opening bracket, so twice
  the length of the text plus one is enough: \<open>parse_fuel_enough\<close> shows that more fuel changes
  nothing.
\<close>

fun parse_value :: "nat \<Rightarrow> string \<Rightarrow> (json \<times> string) option"
  and parse_items :: "nat \<Rightarrow> string \<Rightarrow> (json list \<times> string) option"
  and parse_members :: "nat \<Rightarrow> string \<Rightarrow> ((string \<times> json) list \<times> string) option" where
  "parse_value 0 s = None"
| "parse_value (Suc k) s =
     (case s of
        [] \<Rightarrow> None
      | c # cs \<Rightarrow>
          if c = CHR 0x22 then map_option (\<lambda>(v, r). (JStr v, r)) (parse_string cs)
          else if c = CHR ''['' then
            (case skip_ws cs of
               d # r \<Rightarrow> if d = CHR '']'' then Some (JList [], r)
                       else map_option (\<lambda>(v, r). (JList v, r)) (parse_items k (d # r))
             | [] \<Rightarrow> None)
          else if c = CHR ''{'' then
            (case skip_ws cs of
               d # r \<Rightarrow> if d = CHR ''}'' then Some (JObj [], r)
                       else map_option (\<lambda>(v, r). (JObj (dict_update [] v), r)) (parse_members k (d # r))
             | [] \<Rightarrow> None)
          else parse_word s)"
| "parse_items 0 s = None"
| "parse_items (Suc k) s =
     (case parse_value k s of
        None \<Rightarrow> None
      | Some (v, r) \<Rightarrow>
          (case skip_ws r of
             [] \<Rightarrow> None
           | c # t \<Rightarrow>
               if c = CHR '']'' then Some ([v], t)
               else if c = CHR '','' then map_option (\<lambda>(vs, u). (v # vs, u)) (parse_items k (skip_ws t))
               else None))"
| "parse_members 0 s = None"
| "parse_members (Suc k) s =
     (case s of
        [] \<Rightarrow> None
      | q # qs \<Rightarrow>
          if q \<noteq> CHR 0x22 then None
          else (case parse_string qs of
             None \<Rightarrow> None
           | Some (key, r) \<Rightarrow>
               (case skip_ws r of
                  [] \<Rightarrow> None
                | c # t \<Rightarrow>
                    if c \<noteq> CHR '':'' then None
                    else (case parse_value k (skip_ws t) of
                       None \<Rightarrow> None
                     | Some (v, u) \<Rightarrow>
                         (case skip_ws u of
                            [] \<Rightarrow> None
                          | d # w \<Rightarrow>
                              if d = CHR ''}'' then Some ([(key, v)], w)
                              else if d = CHR '','' then
                                map_option (\<lambda>(kvs, x). ((key, v) # kvs, x)) (parse_members k (skip_ws w))
                              else None)))))"

text \<open>\<open>json.loads\<close>; \<^const>\<open>None\<close> is \<open>JSONDecodeError\<close>.\<close>

definition json_loads :: "string \<Rightarrow> json option" where
  "json_loads s =
     (case parse_value (2 * length s + 1) (skip_ws s) of
        None \<Rightarrow> None
      | Some (v, r) \<Rightarrow> if skip_ws r = [] then Some v else None)"

subsection \<open>Enough fuel\<close>

lemma skip_ws_length [simp]: "length (skip_ws s) \<le> length s"
  by (simp add: skip_ws_def length_dropWhile_le)

lemma parse_string_shorter: "parse_string s = Some (v, r) \<Longrightarrow> length r < length s"
proof (induction "length s" arbitrary: s v r rule: less_induct)
  case less
  have IH: "parse_string t = Some (x, u) \<Longrightarrow> length t < length s \<Longrightarrow> length u < length t" for t x u
    using less.hyps by blast
  show ?case
  proof (cases s)
    case Nil
    with less.prems show ?thesis by simp
  next
    case (Cons c cs)
    have tails: "length u < length s" if "parse_string t = Some (x, u)" "length t < length s" for t x u
      using IH [OF that] that(2) by linarith
    from less.prems Cons show ?thesis
      by (auto split: if_splits option.splits list.splits dest!: tails)
  qed
qed

lemma span_digits_length: "length (snd (span_digits s)) \<le> length s"
  by (simp add: span_digits_def length_dropWhile_le)

lemma parse_frac_length: "length (snd (parse_frac s)) \<le> length s"
proof (cases s)
  case (Cons c r)
  then show ?thesis using span_digits_length [of r] by (auto simp: parse_frac_def)
qed (simp add: parse_frac_def)

lemma parse_exp_length: "length (snd (parse_exp s)) \<le> length s"
proof (cases s)
  case (Cons c r)
  show ?thesis
  proof (cases r)
    case Nil
    with Cons show ?thesis by (simp add: parse_exp_def span_digits_def)
  next
    case r: (Cons d u)
    show ?thesis using Cons r span_digits_length [of u] span_digits_length [of r]
      by (auto simp: parse_exp_def Let_def)
  qed
qed (simp add: parse_exp_def)

lemma parse_number_shorter:
  assumes "parse_number s = Some (v, w)"
  shows "length w < length s"
proof -
  obtain neg t where t: "(case s of c # r \<Rightarrow> if c = CHR ''-'' then (True, r) else (False, s) | [] \<Rightarrow> (False, []))
      = (neg, t)" by fastforce
  obtain ip u where u: "(case t of c # r \<Rightarrow> if c = CHR ''0'' then (''0'', r) else span_digits t | [] \<Rightarrow> ([], []))
      = (ip, u)" by fastforce
  obtain fp x where x: "parse_frac u = (fp, x)" by fastforce
  obtain ex y where y: "parse_exp x = (ex, y)" by fastforce
  from assms have ip: "ip \<noteq> []" and w: "w = y"
    by (auto simp: parse_number_def t u x y Let_def split: if_splits)
  have "length t \<le> length s" using t by (auto split: list.splits if_splits)
  moreover have "length u < length t"
  proof (cases t)
    case Nil
    with u ip show ?thesis by simp
  next
    case (Cons c r)
    show ?thesis
    proof (cases "c = CHR ''0''")
      case True
      with Cons u show ?thesis by simp
    next
      case False
      with Cons u ip have "is_digit c" "u = dropWhile is_digit r"
        by (auto simp: span_digits_def split: if_splits)
      with Cons show ?thesis by (simp add: length_dropWhile_le le_imp_less_Suc)
    qed
  qed
  moreover have "length x \<le> length u" using parse_frac_length [of u] x by simp
  moreover have "length y \<le> length x" using parse_exp_length [of x] y by simp
  ultimately show ?thesis unfolding w by linarith
qed

lemma startswith_length: "py_startswith s p \<Longrightarrow> length p \<le> length s"
  by (auto simp: py_startswith_iff prefix_length_le)

lemma parse_word_shorter: "parse_word s = Some (v, r) \<Longrightarrow> length r < length s"
  by (auto simp: parse_word_def dest: startswith_length parse_number_shorter split: if_splits)

lemma skip_ws_Cons_length: "skip_ws s = c # t \<Longrightarrow> length t < length s"
  using skip_ws_length [of s] by simp

lemma parse_shorter_all:
  "(\<forall>s v r. parse_value k s = Some (v, r) \<longrightarrow> length r < length s) \<and>
   (\<forall>s v r. parse_items k s = Some (v, r) \<longrightarrow> length r < length s) \<and>
   (\<forall>s v r. parse_members k s = Some (v, r) \<longrightarrow> length r < length s)"
proof (induction k)
  case 0
  then show ?case by simp
next
  case (Suc k)
  then have V: "\<And>s v r. parse_value k s = Some (v, r) \<Longrightarrow> length r < length s"
    and I: "\<And>s v r. parse_items k s = Some (v, r) \<Longrightarrow> length r < length s"
    and M: "\<And>s v r. parse_members k s = Some (v, r) \<Longrightarrow> length r < length s"
    by blast+
  have "length r < length s" if "parse_value (Suc k) s = Some (v, r)" for s v r
    using that parse_word_shorter [of s v r]
    by (fastforce split: list.splits if_splits
        dest: I M skip_ws_Cons_length parse_string_shorter)
  moreover have "length r < length s" if asm: "parse_items (Suc k) s = Some (v, r)" for s v r
  proof -
    from asm obtain w u c t where w: "parse_value k s = Some (w, u)" "skip_ws u = c # t"
      by (auto split: option.splits list.splits)
    have "length t < length s" using V [OF w(1)] skip_ws_Cons_length [OF w(2)] by linarith
    moreover have "r = t \<or> length r < length (skip_ws t)"
      using asm w by (auto split: if_splits dest: I)
    ultimately show ?thesis using skip_ws_length [of t] by (elim disjE) (simp, linarith)
  qed
  moreover have "length r < length s" if asm: "parse_members (Suc k) s = Some (v, r)" for s v r
  proof -
    from asm obtain qs key r1 t v1 u d w where
      s: "s = CHR 0x22 # qs" "parse_string qs = Some (key, r1)" "skip_ws r1 = CHR '':'' # t"
        "parse_value k (skip_ws t) = Some (v1, u)" "skip_ws u = d # w"
      by (auto split: option.splits list.splits if_splits)
    have "length s = Suc (length qs)" by (simp add: s(1))
    then have "length w < length s"
      using V [OF s(4)] skip_ws_length [of t] parse_string_shorter [OF s(2)]
        skip_ws_Cons_length [OF s(3)] skip_ws_Cons_length [OF s(5)] by linarith
    moreover have "r = w \<or> length r < length (skip_ws w)"
      using asm s by (auto split: if_splits dest: M)
    ultimately show ?thesis using skip_ws_length [of w] by (elim disjE) (simp, linarith)
  qed
  ultimately show ?case by blast
qed

lemmas parse_shorter =
  parse_shorter_all [THEN conjunct1, rule_format]
  parse_shorter_all [THEN conjunct2, THEN conjunct1, rule_format]
  parse_shorter_all [THEN conjunct2, THEN conjunct2, rule_format]

lemma parse_members_step:
  assumes "s = CHR 0x22 # qs" "parse_string qs = Some (key, r1)" "skip_ws r1 = CHR '':'' # t"
  shows "parse_members (Suc k) s =
    (case parse_value k (skip_ws t) of
       None \<Rightarrow> None
     | Some (v, u) \<Rightarrow>
         (case skip_ws u of
            [] \<Rightarrow> None
          | d # w \<Rightarrow>
              if d = CHR ''}'' then Some ([(key, v)], w)
              else if d = CHR '','' then
                map_option (\<lambda>(kvs, x). ((key, v) # kvs, x)) (parse_members k (skip_ws w))
              else None))"
  using assms by simp

lemma parse_members_head:
  assumes "\<not> (parse_members (Suc k) s = None \<and> parse_members (Suc (Suc k)) s = None)"
  obtains qs key r1 t where "s = CHR 0x22 # qs" "parse_string qs = Some (key, r1)"
    "skip_ws r1 = CHR '':'' # t"
proof -
  have "\<exists>qs key r1 t. s = CHR 0x22 # qs \<and> parse_string qs = Some (key, r1) \<and> skip_ws r1 = CHR '':'' # t"
    if n: "parse_members (Suc n) s \<noteq> None" for n
  proof -
    from n obtain q qs where s: "s = q # qs" by (cases s) simp_all
    have q: "q = CHR 0x22" using n unfolding s by (cases "q = CHR 0x22") (simp_all only: parse_members.simps list.case if_True if_False simp_thms)
    obtain key r1 where r1: "parse_string qs = Some (key, r1)"
      using n unfolding s q by (cases "parse_string qs") auto
    obtain c t where c: "skip_ws r1 = c # t"
      using n r1 unfolding s q by (cases "skip_ws r1") simp_all
    have "c = CHR '':''"
      using n r1 c unfolding s q by (cases "c = CHR '':''") simp_all
    with s q r1 c show ?thesis by blast
  qed
  with assms that show thesis by blast
qed

text \<open>One more unit of fuel changes nothing, if it changes nothing for the parts.\<close>

lemma value_fuel_step:
  assumes I: "\<And>s. 2 * length s + 2 \<le> k \<Longrightarrow> parse_items (Suc k) s = parse_items k s"
    and M: "\<And>s. 2 * length s + 2 \<le> k \<Longrightarrow> parse_members (Suc k) s = parse_members k s"
    and len: "2 * length s + 1 \<le> Suc k"
  shows "parse_value (Suc (Suc k)) s = parse_value (Suc k) s"
proof (cases s)
  case (Cons c cs)
  show ?thesis
  proof (cases "skip_ws cs")
    case Nil
    with Cons show ?thesis by simp
  next
    case ws: (Cons d r)
    then have "length (d # r) \<le> length cs" using skip_ws_length [of cs] by simp
    with Cons len have "2 * length (d # r) + 2 \<le> k" by simp
    with I M ws Cons show ?thesis by (simp del: parse_items.simps parse_members.simps)
  qed
qed simp

lemma items_fuel_step:
  assumes V: "\<And>s. 2 * length s + 1 \<le> k \<Longrightarrow> parse_value (Suc k) s = parse_value k s"
    and I: "\<And>s. 2 * length s + 2 \<le> k \<Longrightarrow> parse_items (Suc k) s = parse_items k s"
    and len: "2 * length s + 2 \<le> Suc k"
  shows "parse_items (Suc (Suc k)) s = parse_items (Suc k) s"
proof (cases "parse_value k s")
  case None
  with V [of s] len show ?thesis
    by (subst (1 2) parse_items.simps) (simp del: parse_items.simps parse_value.simps)
next
  case (Some vr)
  obtain v r where vr: "vr = (v, r)" by fastforce
  show ?thesis
  proof (cases "skip_ws r")
    case Nil
    with Some vr V [of s] len show ?thesis
      by (subst (1 2) parse_items.simps) (simp del: parse_items.simps parse_value.simps)
  next
    case (Cons c t)
    have "length r < length s" using Some vr by (auto intro: parse_shorter(1))
    then have "length (skip_ws t) < length s"
      using skip_ws_Cons_length [OF Cons] skip_ws_length [of t] by linarith
    with len have "2 * length (skip_ws t) + 2 \<le> k" by simp
    with I Cons Some vr V [of s] len show ?thesis
      by (subst (1 2) parse_items.simps) (simp del: parse_items.simps parse_value.simps)
  qed
qed

lemma members_fuel_step:
  assumes V: "\<And>s. 2 * length s + 1 \<le> k \<Longrightarrow> parse_value (Suc k) s = parse_value k s"
    and M: "\<And>s. 2 * length s + 2 \<le> k \<Longrightarrow> parse_members (Suc k) s = parse_members k s"
    and len: "2 * length s + 2 \<le> Suc k"
  shows "parse_members (Suc (Suc k)) s = parse_members (Suc k) s"
proof (cases "parse_members (Suc k) s = None \<and> parse_members (Suc (Suc k)) s = None")
  case False
  then obtain qs key r1 t where s: "s = CHR 0x22 # qs" "parse_string qs = Some (key, r1)"
    "skip_ws r1 = CHR '':'' # t" by (rule parse_members_head)
  have t: "length (skip_ws t) + 3 \<le> length s"
  proof -
    have "length s = Suc (length qs)" by (simp add: s(1))
    then show ?thesis
      using parse_string_shorter [OF s(2)] skip_ws_Cons_length [OF s(3)] skip_ws_length [of t]
      by linarith
  qed
  with len have Vt: "parse_value (Suc k) (skip_ws t) = parse_value k (skip_ws t)"
    by (intro V) simp
  have Mt: "parse_members (Suc k) (skip_ws w) = parse_members k (skip_ws w)"
    if "parse_value k (skip_ws t) = Some (v, u)" "skip_ws u = d # w" for v u d w
  proof (rule M)
    have "length (skip_ws w) \<le> length (skip_ws t)"
      using parse_shorter(1) [OF that(1)] skip_ws_Cons_length [OF that(2)] skip_ws_length [of w]
      by linarith
    with t len show "2 * length (skip_ws w) + 2 \<le> k" by simp
  qed
  show ?thesis
  proof (cases "parse_value k (skip_ws t)")
    case None
    then show ?thesis unfolding parse_members_step [OF s] Vt by simp
  next
    case (Some vu)
    obtain v u where vu: "vu = (v, u)" by fastforce
    show ?thesis
    proof (cases "skip_ws u")
      case Nil
      then show ?thesis unfolding parse_members_step [OF s] Vt Some vu by simp
    next
      case (Cons d w)
      show ?thesis unfolding parse_members_step [OF s] Vt Some vu
        using Mt [OF Some [unfolded vu] Cons] by (simp add: Cons del: parse_members.simps)
    qed
  qed
qed simp

lemma parse_fuel_step:
  "(\<forall>s. 2 * length s + 1 \<le> k \<longrightarrow> parse_value (Suc k) s = parse_value k s) \<and>
   (\<forall>s. 2 * length s + 2 \<le> k \<longrightarrow> parse_items (Suc k) s = parse_items k s) \<and>
   (\<forall>s. 2 * length s + 2 \<le> k \<longrightarrow> parse_members (Suc k) s = parse_members k s)"
proof (induction k)
  case (Suc k)
  then show ?case by (intro conjI allI impI value_fuel_step items_fuel_step members_fuel_step) blast+
qed simp

lemma parse_fuel_enough:
  assumes "2 * length s + 1 \<le> k"
  shows "parse_value k s = parse_value (2 * length s + 1) s"
  using assms
proof (induction k rule: nat_induct_at_least)
  case base
  then show ?case by simp
next
  case (Suc n)
  then show ?case using parse_fuel_step [of n] by (simp del: parse_value.simps)
qed

end
