(* ===== verification/Py_Monad.thy ===== *)
theory Py_Monad
  imports Py_Fs Py_Json
begin

text \<open>
  The effects of a script. A computation takes the world and returns a result or a raised
  exception, and the world afterwards. The world holds the file tree, the environment, and a
  trace of what the script did: commands started, text printed, records logged. What the
  script cannot decide is read off the trace by functions the world fixes: the outcome of a
  command and whether the cancel event of a background task is set may depend on everything
  that happened before.
\<close>

section \<open>Exceptions\<close>

datatype exn =
    SystemExit int
  | KeyboardInterrupt
  | ValueError string
  | JSONDecodeError
  | KeyError string
  | IndexError
  | TypeError
  | AttributeError
  | OverflowError
  | RecursionError
  | RuntimeError string
  | CycleError
  | FileNotFoundError string
  | OSError string
  | CalledProcessError "string list" int string string
  | Diverges  \<comment> \<open>not an exception of Python: a loop of the model ran out of its bound\<close>

text \<open>The \<open>except\<close> clauses the scripts use, with Python's class hierarchy.\<close>

definition is_Exception :: "exn \<Rightarrow> bool" where
  "is_Exception e = (case e of SystemExit _ \<Rightarrow> False | KeyboardInterrupt \<Rightarrow> False | Diverges \<Rightarrow> False | _ \<Rightarrow> True)"

definition is_ValueError :: "exn \<Rightarrow> bool" where
  "is_ValueError e = (case e of ValueError _ \<Rightarrow> True | JSONDecodeError \<Rightarrow> True | CycleError \<Rightarrow> True | _ \<Rightarrow> False)"

definition is_OSError :: "exn \<Rightarrow> bool" where
  "is_OSError e = (case e of FileNotFoundError _ \<Rightarrow> True | OSError _ \<Rightarrow> True | _ \<Rightarrow> False)"

definition is_FileNotFound :: "exn \<Rightarrow> bool" where
  "is_FileNotFound e = (case e of FileNotFoundError _ \<Rightarrow> True | _ \<Rightarrow> False)"

definition is_CalledProcess :: "exn \<Rightarrow> bool" where
  "is_CalledProcess e = (case e of CalledProcessError _ _ _ _ \<Rightarrow> True | _ \<Rightarrow> False)"

definition is_KeyError :: "exn \<Rightarrow> bool" where
  "is_KeyError e = (case e of KeyError _ \<Rightarrow> True | _ \<Rightarrow> False)"

text \<open>\<open>str(e)\<close> where the exception carries its text; a fixed tag otherwise.\<close>

definition exn_str :: "exn \<Rightarrow> string" where
  "exn_str e = (case e of
      ValueError m \<Rightarrow> m | KeyError k \<Rightarrow> ''KeyError: '' @ k | RuntimeError m \<Rightarrow> m
    | FileNotFoundError m \<Rightarrow> m | OSError m \<Rightarrow> m | JSONDecodeError \<Rightarrow> ''JSONDecodeError''
    | IndexError \<Rightarrow> ''IndexError'' | TypeError \<Rightarrow> ''TypeError'' | AttributeError \<Rightarrow> ''AttributeError''
    | OverflowError \<Rightarrow> ''OverflowError'' | RecursionError \<Rightarrow> ''RecursionError''
    | CycleError \<Rightarrow> ''CycleError'' | KeyboardInterrupt \<Rightarrow> ''KeyboardInterrupt''
    | SystemExit n \<Rightarrow> str_int n | Diverges \<Rightarrow> []
    | CalledProcessError cmd n out err \<Rightarrow>
        ''Command failed with exit code '' @ str_int n)"

section \<open>The world\<close>

datatype loglevel = INFO | WARNING | ERROR

text \<open>\<open>Log lvl fmt args\<close> is a logging call before its arguments are formatted in.\<close>

datatype event =
    Spawn "string list"
  | Stdout string
  | Stderr string
  | Log loglevel string "string list"
  | CancelSeen bool
  | EventSet string
  | ThreadStart string
  | ThreadJoin string
  | Terminate "string list"
  | CopyMode path path
  | SocketShutdown
  | SocketClosed
  | Waited  \<comment> \<open>a moment in which a call that blocks did not return\<close>

datatype proc_outcome = Exited int string string | LaunchFailed exn

record world =
  w_fs :: fnode
  w_cwd :: canon
  w_environ :: "(string \<times> string) list"
  w_proc :: "event list \<Rightarrow> string list \<Rightarrow> proc_outcome"
  w_cancel :: "event list \<Rightarrow> bool"
  w_trace :: "event list"

datatype 'a result = Ok 'a | Exc exn

type_synonym 'a py = "world \<Rightarrow> 'a result \<times> world"

section \<open>Combinators\<close>

definition py_ret :: "'a \<Rightarrow> 'a py" where
  "py_ret x = (\<lambda>w. (Ok x, w))"

definition py_raise :: "exn \<Rightarrow> 'a py" where
  "py_raise e = (\<lambda>w. (Exc e, w))"

definition py_bind :: "'a py \<Rightarrow> ('a \<Rightarrow> 'b py) \<Rightarrow> 'b py" where
  "py_bind m f = (\<lambda>w. case m w of (Ok x, w') \<Rightarrow> f x w' | (Exc e, w') \<Rightarrow> (Exc e, w'))"

definition py_seq :: "unit py \<Rightarrow> 'b py \<Rightarrow> 'b py" where
  "py_seq m k = py_bind m (\<lambda>_. k)"

text \<open>\<open>try: m except C as e: h e\<close>, where \<open>C\<close> says which exceptions the clause catches.\<close>

definition py_try :: "'a py \<Rightarrow> (exn \<Rightarrow> bool) \<Rightarrow> (exn \<Rightarrow> 'a py) \<Rightarrow> 'a py" where
  "py_try m c h = (\<lambda>w. case m w of
      (Ok x, w') \<Rightarrow> (Ok x, w')
    | (Exc e, w') \<Rightarrow> if c e then h e w' else (Exc e, w'))"

text \<open>\<open>try: m finally: fin\<close>.\<close>

definition py_finally :: "'a py \<Rightarrow> unit py \<Rightarrow> 'a py" where
  "py_finally m fin = (\<lambda>w. case m w of
      (r, w') \<Rightarrow> (case fin w' of (Ok _, w'') \<Rightarrow> (r, w'') | (Exc e, w'') \<Rightarrow> (Exc e, w'')))"

fun py_for :: "'a list \<Rightarrow> ('a \<Rightarrow> unit py) \<Rightarrow> unit py" where
  "py_for [] f = py_ret ()"
| "py_for (x # xs) f = py_seq (f x) (py_for xs f)"

fun py_fold :: "('a \<Rightarrow> 's \<Rightarrow> 's py) \<Rightarrow> 'a list \<Rightarrow> 's \<Rightarrow> 's py" where
  "py_fold f [] s = py_ret s"
| "py_fold f (x # xs) s = py_bind (f x s) (\<lambda>s'. py_fold f xs s')"

definition py_when :: "bool \<Rightarrow> unit py \<Rightarrow> unit py" where
  "py_when b m = (if b then m else py_ret ())"

definition py_get :: "(world \<Rightarrow> 'a) \<Rightarrow> 'a py" where
  "py_get f = (\<lambda>w. (Ok (f w), w))"

definition emit :: "event \<Rightarrow> unit py" where
  "emit e = (\<lambda>w. (Ok (), w\<lparr>w_trace := w_trace w @ [e]\<rparr>))"

definition py_print :: "string \<Rightarrow> unit py" where
  "py_print s = emit (Stdout (s @ [CHR 0x0A]))"

definition py_eprint :: "string \<Rightarrow> unit py" where
  "py_eprint s = emit (Stderr (s @ [CHR 0x0A]))"

definition log_info :: "string \<Rightarrow> string list \<Rightarrow> unit py" where
  "log_info f xs = emit (Log INFO f xs)"

definition log_warning :: "string \<Rightarrow> string list \<Rightarrow> unit py" where
  "log_warning f xs = emit (Log WARNING f xs)"

definition log_error :: "string \<Rightarrow> string list \<Rightarrow> unit py" where
  "log_error f xs = emit (Log ERROR f xs)"

definition sys_exit :: "int \<Rightarrow> 'a py" where
  "sys_exit n = py_raise (SystemExit n)"

definition of_opt :: "exn \<Rightarrow> 'a option \<Rightarrow> 'a py" where
  "of_opt e x = (case x of None \<Rightarrow> py_raise e | Some v \<Rightarrow> py_ret v)"

text \<open>Computations without effects.\<close>

definition r_bind :: "'a result \<Rightarrow> ('a \<Rightarrow> 'b result) \<Rightarrow> 'b result" where
  "r_bind m f = (case m of Ok x \<Rightarrow> f x | Exc e \<Rightarrow> Exc e)"

definition of_result :: "'a result \<Rightarrow> 'a py" where
  "of_result r = (\<lambda>w. (r, w))"

section \<open>Processes\<close>

text \<open>\<open>subprocess.run(cmd, check=False)\<close>: exit code, captured output, captured errors.\<close>

definition run_proc :: "string list \<Rightarrow> (int \<times> string \<times> string) py" where
  "run_proc cmd = (\<lambda>w.
     let w' = w\<lparr>w_trace := w_trace w @ [Spawn cmd]\<rparr>
     in case w_proc w (w_trace w) cmd of
          Exited n out err \<Rightarrow> (Ok (n, out, err), w')
        | LaunchFailed e \<Rightarrow> (Exc e, w'))"

text \<open>\<open>subprocess.run(cmd, check=True)\<close>; output that was not captured is \<open>None\<close>, here empty.\<close>

definition run_checked :: "bool \<Rightarrow> string list \<Rightarrow> (string \<times> string) py" where
  "run_checked capture cmd =
     py_bind (run_proc cmd) (\<lambda>(n, out, err).
       if n = 0 then py_ret (if capture then (out, err) else ('''', ''''))
       else py_raise (CalledProcessError cmd n (if capture then out else '''') (if capture then err else '''')))"

section \<open>Files and environment\<close>

definition getenv :: "string \<Rightarrow> string option py" where
  "getenv k = py_get (\<lambda>w. map_of (w_environ w) k)"

definition setenv :: "string \<Rightarrow> string \<Rightarrow> unit py" where
  "setenv k v = (\<lambda>w. (Ok (), w\<lparr>w_environ := dict_put k v (w_environ w)\<rparr>))"

definition cwd_path :: "world \<Rightarrow> path" where
  "cwd_path w = Path ''/'' (w_cwd w)"

definition lift_probe :: "(fnode \<Rightarrow> canon \<Rightarrow> path \<Rightarrow> string + bool) \<Rightarrow> path \<Rightarrow> bool py" where
  "lift_probe q p = (\<lambda>w. case q (w_fs w) (w_cwd w) p of
      Inl m \<Rightarrow> (Exc (OSError m), w) | Inr b \<Rightarrow> (Ok b, w))"

definition path_exists :: "path \<Rightarrow> bool py" where
  "path_exists p = lift_probe fs_exists p"

text \<open>\<open>os.path.exists\<close>, which answers \<open>False\<close> on every \<open>OSError\<close>.\<close>

definition os_path_exists :: "path \<Rightarrow> bool py" where
  "os_path_exists p = (\<lambda>w. (Ok (case fs_stat (w_fs w) (w_cwd w) p of Inl _ \<Rightarrow> False | Inr _ \<Rightarrow> True), w))"

definition path_resolve :: "path \<Rightarrow> path py" where
  "path_resolve p = (\<lambda>w. case fs_resolve (w_fs w) (w_cwd w) p of
      None \<Rightarrow> (Exc (RuntimeError (''Symlink loop from '' @ path_str p)), w)
    | Some q \<Rightarrow> (Ok q, w))"

text \<open>\<open>open(p, "r").read()\<close>.\<close>

definition read_file :: "path \<Rightarrow> string py" where
  "read_file p = (\<lambda>w. case fs_read (w_fs w) (w_cwd w) p of
      Some t \<Rightarrow> (Ok t, w)
    | None \<Rightarrow>
        (case fs_stat (w_fs w) (w_cwd w) p of
           Inl ENOENT \<Rightarrow> (Exc (FileNotFoundError (path_str p)), w)
         | _ \<Rightarrow> (Exc (OSError (path_str p)), w)))"

definition write_file :: "path \<Rightarrow> string \<Rightarrow> unit py" where
  "write_file p t = (\<lambda>w. case fs_write (w_fs w) (w_cwd w) p t of
      Inl m \<Rightarrow> (Exc (OSError m), w) | Inr r \<Rightarrow> (Ok (), w\<lparr>w_fs := r\<rparr>))"

definition mkdir_p :: "path \<Rightarrow> unit py" where
  "mkdir_p p = (\<lambda>w. case fs_mkdir_p (w_fs w) (w_cwd w) p of
      Inl m \<Rightarrow> (Exc (OSError m), w) | Inr r \<Rightarrow> (Ok (), w\<lparr>w_fs := r\<rparr>))"

definition json_load :: "path \<Rightarrow> json py" where
  "json_load p = py_bind (read_file p) (\<lambda>t. of_opt JSONDecodeError (json_loads t))"

text \<open>One look at a cancel event: \<open>is_set()\<close> or the answer of \<open>wait(timeout)\<close>.\<close>

definition poll_cancel :: "bool py" where
  "poll_cancel = (\<lambda>w.
     let b = w_cancel w (w_trace w)
     in (Ok b, w\<lparr>w_trace := w_trace w @ [CancelSeen b]\<rparr>))"

text \<open>A call that blocks: at every moment \<open>f\<close> says whether it still waits (\<^const>\<open>None\<close>) or how it ends. A call that
  waits longer than \<open>fuel\<close> moments has not returned.\<close>

fun py_await :: "nat \<Rightarrow> (event list \<Rightarrow> 'a result option) \<Rightarrow> 'a py" where
  "py_await 0 f = py_raise Diverges"
| "py_await (Suc fuel) f =
     py_bind (py_get (\<lambda>w. f (w_trace w))) (\<lambda>x.
     case x of Some r \<Rightarrow> of_result r | None \<Rightarrow> py_seq (emit Waited) (py_await fuel f))"

text \<open>A world with nothing traced yet, in which no task is cancelled.\<close>

definition world_of :: "fnode \<Rightarrow> (string \<times> string) list \<Rightarrow>
    (event list \<Rightarrow> string list \<Rightarrow> proc_outcome) \<Rightarrow> world" where
  "world_of fs env proc = \<lparr>w_fs = fs, w_cwd = [], w_environ = env, w_proc = proc,
     w_cancel = (\<lambda>_. False), w_trace = []\<rparr>"

section \<open>Rewrite rules\<close>

lemma r_bind_simps [simp]: "r_bind (Ok x) f = f x" "r_bind (Exc e) f = Exc e"
  by (simp_all add: r_bind_def)

lemma py_bind_ret [simp]: "py_bind (py_ret x) f = f x"
  by (simp add: py_bind_def py_ret_def)

lemma py_bind_raise [simp]: "py_bind (py_raise e) f = py_raise e"
  by (simp add: py_bind_def py_raise_def)

lemma py_bind_assoc: "py_bind (py_bind m f) g = py_bind m (\<lambda>x. py_bind (f x) g)"
  by (auto simp: py_bind_def fun_eq_iff split: prod.splits result.splits)

lemma py_bind_Ok: "m w = (Ok x, w') \<Longrightarrow> py_bind m f w = f x w'"
  by (simp add: py_bind_def)

lemma py_bind_Exc: "m w = (Exc e, w') \<Longrightarrow> py_bind m f w = (Exc e, w')"
  by (simp add: py_bind_def)

lemma py_bind_OkE:
  assumes "py_bind m f w = (Ok y, w')"
  obtains x w1 where "m w = (Ok x, w1)" "f x w1 = (Ok y, w')"
  using assms by (auto simp: py_bind_def split: prod.splits result.splits)

lemma py_seq_Ok: "m w = (Ok (), w') \<Longrightarrow> py_seq m k w = k w'"
  by (simp add: py_seq_def py_bind_def)

lemma py_seq_OkE:
  assumes "py_seq m k w = (Ok y, w')"
  obtains w1 where "m w = (Ok (), w1)" "k w1 = (Ok y, w')"
  using assms unfolding py_seq_def by (elim py_bind_OkE) auto

lemma emit_apply: "emit e w = (Ok (), w\<lparr>w_trace := w_trace w @ [e]\<rparr>)"
  by (simp add: emit_def)

lemmas effect_simps [py_simps] =
  py_bind_def py_seq_def py_ret_def py_raise_def py_try_def py_when_def py_get_def
  emit_def py_print_def py_eprint_def log_info_def log_warning_def log_error_def
  sys_exit_def of_opt_def run_proc_def run_checked_def getenv_def setenv_def Let_def

section \<open>Commands in a trace\<close>

text \<open>The commands started, in order.\<close>

fun spawned :: "event list \<Rightarrow> string list list" where
  "spawned [] = []"
| "spawned (Spawn c # es) = c # spawned es"
| "spawned (_ # es) = spawned es"

lemma spawned_append [simp]: "spawned (xs @ ys) = spawned xs @ spawned ys"
  by (induction xs rule: spawned.induct) auto

section \<open>Contracts\<close>

text \<open>
  \<open>does m w Q\<close>: run in \<open>w\<close>, \<open>m\<close> keeps the trace so far, adds some \<open>t\<close> to it, and ends with a result
  \<open>r\<close> in a world \<open>w'\<close> such that \<open>Q r w' t\<close>.
\<close>

definition does :: "'a py \<Rightarrow> world \<Rightarrow> ('a result \<Rightarrow> world \<Rightarrow> event list \<Rightarrow> bool) \<Rightarrow> bool" where
  "does m w Q = (\<exists>t. w_trace (snd (m w)) = w_trace w @ t \<and> Q (fst (m w)) (snd (m w)) t)"

lemma doesD:
  assumes "does m w Q" "m w = (r, w')"
  obtains t where "w_trace w' = w_trace w @ t" "Q r w' t"
  using assms by (auto simp: does_def)

lemma does_mono: "does m w Q \<Longrightarrow> (\<And>r w' t. Q r w' t \<Longrightarrow> R r w' t) \<Longrightarrow> does m w R"
  unfolding does_def by blast

lemma does_ret [simp]: "does (py_ret x) w Q = Q (Ok x) w []"
  by (simp add: does_def py_ret_def)

lemma does_raise [simp]: "does (py_raise e) w Q = Q (Exc e) w []"
  by (simp add: does_def py_raise_def)

lemma does_exit [simp]: "does (sys_exit n) w Q = Q (Exc (SystemExit n)) w []"
  by (simp add: sys_exit_def)

lemma does_get [simp]: "does (py_get f) w Q = Q (Ok (f w)) w []"
  by (simp add: does_def py_get_def)

definition traced :: "world \<Rightarrow> event \<Rightarrow> world" where
  "traced w e = w\<lparr>w_trace := w_trace w @ [e]\<rparr>"

lemma traced_simps [simp]:
  "w_trace (traced w e) = w_trace w @ [e]" "w_fs (traced w e) = w_fs w" "w_cwd (traced w e) = w_cwd w"
  "w_environ (traced w e) = w_environ w" "w_proc (traced w e) = w_proc w" "w_cancel (traced w e) = w_cancel w"
  by (simp_all add: traced_def)

lemma does_emit [simp]: "does (emit e) w Q = Q (Ok ()) (traced w e) [e]"
  by (simp add: does_def emit_def traced_def)

lemma does_noise [simp]:
  "does (log_info f xs) w Q = Q (Ok ()) (traced w (Log INFO f xs)) [Log INFO f xs]"
  "does (log_warning f xs) w Q = Q (Ok ()) (traced w (Log WARNING f xs)) [Log WARNING f xs]"
  "does (log_error f xs) w Q = Q (Ok ()) (traced w (Log ERROR f xs)) [Log ERROR f xs]"
  "does (py_print s) w Q = Q (Ok ()) (traced w (Stdout (s @ [CHR 0x0A]))) [Stdout (s @ [CHR 0x0A])]"
  "does (py_eprint s) w Q = Q (Ok ()) (traced w (Stderr (s @ [CHR 0x0A]))) [Stderr (s @ [CHR 0x0A])]"
  by (simp_all only: log_info_def log_warning_def log_error_def py_print_def py_eprint_def does_emit)

lemma does_proc:
  "does (run_proc cmd) w Q =
   (case w_proc w (w_trace w) cmd of
      Exited n out err \<Rightarrow> Q (Ok (n, out, err)) (traced w (Spawn cmd)) [Spawn cmd]
    | LaunchFailed e \<Rightarrow> Q (Exc e) (traced w (Spawn cmd)) [Spawn cmd])"
  by (simp add: does_def run_proc_def Let_def traced_def split: proc_outcome.splits)

lemma does_bind:
  assumes "does m w (\<lambda>r w1 t. case r of
      Ok x \<Rightarrow> does (f x) w1 (\<lambda>r2 w2 u. Q r2 w2 (t @ u)) | Exc e \<Rightarrow> Q (Exc e) w1 t)"
  shows "does (py_bind m f) w Q"
proof -
  obtain r w1 where m: "m w = (r, w1)" by fastforce
  with assms show ?thesis by (cases r) (auto simp: does_def py_bind_def)
qed

lemma does_seq:
  assumes "does m w (\<lambda>r w1 t. case r of
      Ok _ \<Rightarrow> does k w1 (\<lambda>r2 w2 u. Q r2 w2 (t @ u)) | Exc e \<Rightarrow> Q (Exc e) w1 t)"
  shows "does (py_seq m k) w Q"
  unfolding py_seq_def using assms by (rule does_bind)

lemma does_try:
  assumes "does m w (\<lambda>r w1 t. case r of
      Ok x \<Rightarrow> Q (Ok x) w1 t
    | Exc e \<Rightarrow> if c e then does (h e) w1 (\<lambda>r2 w2 u. Q r2 w2 (t @ u)) else Q (Exc e) w1 t)"
  shows "does (py_try m c h) w Q"
proof -
  obtain r w1 where m: "m w = (r, w1)" by fastforce
  with assms show ?thesis by (cases r) (auto simp: does_def py_try_def split: if_splits)
qed

lemma does_finally:
  assumes "does m w (\<lambda>r w1 t. does fin w1 (\<lambda>r2 w2 u.
      Q (case r2 of Ok _ \<Rightarrow> r | Exc e \<Rightarrow> Exc e) w2 (t @ u)))"
  shows "does (py_finally m fin) w Q"
proof -
  obtain r w1 where m: "m w = (r, w1)" by fastforce
  obtain r2 w2 where f: "fin w1 = (r2, w2)" by fastforce
  from assms m f show ?thesis by (cases r2) (auto simp: does_def py_finally_def)
qed

lemmas does_rules = does_bind does_seq does_try does_finally

section \<open>Weakest preconditions\<close>

text \<open>\<open>wp m Q E w\<close>: run in \<open>w\<close>, \<open>m\<close> returns a value and world that satisfy \<open>Q\<close>, or raises an exception
  that satisfies \<open>E\<close>.\<close>

definition wp :: "'a py \<Rightarrow> ('a \<Rightarrow> world \<Rightarrow> bool) \<Rightarrow> (exn \<Rightarrow> world \<Rightarrow> bool) \<Rightarrow> world \<Rightarrow> bool" where
  "wp m Q E w = (case m w of (Ok x, w') \<Rightarrow> Q x w' | (Exc e, w') \<Rightarrow> E e w')"

named_theorems wp_simps

lemma wp_ret [wp_simps, simp]: "wp (py_ret x) Q E w = Q x w"
  by (simp add: wp_def py_ret_def)

lemma wp_raise [wp_simps, simp]: "wp (py_raise e) Q E w = E e w"
  by (simp add: wp_def py_raise_def)

lemma wp_exit [wp_simps, simp]: "wp (sys_exit n) Q E w = E (SystemExit n) w"
  by (simp add: sys_exit_def)

lemma wp_get [wp_simps, simp]: "wp (py_get f) Q E w = Q (f w) w"
  by (simp add: wp_def py_get_def)

lemma wp_bind [wp_simps]: "wp (py_bind m f) Q E w = wp m (\<lambda>x. wp (f x) Q E) E w"
  by (auto simp: wp_def py_bind_def split: prod.splits result.splits)

lemma wp_seq [wp_simps]: "wp (py_seq m k) Q E w = wp m (\<lambda>_. wp k Q E) E w"
  by (simp add: py_seq_def wp_bind)

lemma wp_emit [wp_simps, simp]: "wp (emit e) Q E w = Q () (traced w e)"
  by (simp add: wp_def emit_def traced_def)

lemma wp_noise [wp_simps, simp]:
  "wp (log_info f xs) Q E w = Q () (traced w (Log INFO f xs))"
  "wp (log_warning f xs) Q E w = Q () (traced w (Log WARNING f xs))"
  "wp (log_error f xs) Q E w = Q () (traced w (Log ERROR f xs))"
  "wp (py_print s) Q E w = Q () (traced w (Stdout (s @ [CHR 0x0A])))"
  "wp (py_eprint s) Q E w = Q () (traced w (Stderr (s @ [CHR 0x0A])))"
  by (simp_all only: log_info_def log_warning_def log_error_def py_print_def py_eprint_def wp_emit)

lemma wp_of_opt [wp_simps]: "wp (of_opt e x) Q E w = (case x of None \<Rightarrow> E e w | Some v \<Rightarrow> Q v w)"
  by (simp add: of_opt_def split: option.splits)

lemma wp_of_result [wp_simps]: "wp (of_result r) Q E w = (case r of Ok x \<Rightarrow> Q x w | Exc e \<Rightarrow> E e w)"
  by (simp add: wp_def of_result_def split: result.splits)

lemma wp_when [wp_simps]: "wp (py_when b m) Q E w = (if b then wp m Q E w else Q () w)"
  by (simp add: py_when_def)

lemma wp_try [wp_simps]:
  "wp (py_try m c h) Q E w = wp m Q (\<lambda>e w'. if c e then wp (h e) Q E w' else E e w') w"
  by (auto simp: wp_def py_try_def split: prod.splits result.splits)

lemma wp_proc [wp_simps]:
  "wp (run_proc cmd) Q E w =
   (case w_proc w (w_trace w) cmd of
      Exited n out err \<Rightarrow> Q (n, out, err) (traced w (Spawn cmd))
    | LaunchFailed e \<Rightarrow> E e (traced w (Spawn cmd)))"
  by (simp add: wp_def run_proc_def Let_def traced_def split: proc_outcome.splits)

text \<open>A call that returns after at most \<open>k\<close> moments, and any call.\<close>

definition waited :: "nat \<Rightarrow> world \<Rightarrow> world" where
  "waited j w = w\<lparr>w_trace := w_trace w @ replicate j Waited\<rparr>"

lemma waited_simps [simp]: "waited 0 w = w" "waited j (traced w Waited) = waited (Suc j) w"
  "w_trace (waited j w) = w_trace w @ replicate j Waited" "w_proc (waited j w) = w_proc w" "w_cancel (waited j w) = w_cancel w"
  by (simp_all add: waited_def traced_def)

lemma wp_await:
  assumes "k < fuel" "f (w_trace w @ replicate k Waited) \<noteq> None"
    and "\<And>j r. f (w_trace w @ replicate j Waited) = Some r \<Longrightarrow> wp (of_result r) Q E (waited j w)"
  shows "wp (py_await fuel f) Q E w"
  using assms
proof (induction fuel arbitrary: w k)
  case (Suc fuel)
  show ?case
  proof (cases "f (w_trace w)")
    case None
    with Suc.prems(2) obtain i where i: "k = Suc i" by (cases k) auto
    have "wp (py_await fuel f) Q E (traced w Waited)"
    proof (rule Suc.IH [of i])
      show "wp (of_result r) Q E (waited j (traced w Waited))"
        if "f (w_trace (traced w Waited) @ replicate j Waited) = Some r" for j r
        using Suc.prems(3) [of "Suc j" r] that by simp
    qed (use Suc.prems i in simp_all)
    with None show ?thesis by (simp add: wp_bind wp_seq)
  next
    case (Some r)
    with Suc.prems(3) [of 0 r] show ?thesis by (simp add: wp_bind)
  qed
qed simp

lemma wp_await_any:
  assumes "\<And>j. E Diverges (waited j w)" "\<And>j r. f (w_trace w @ replicate j Waited) = Some r \<Longrightarrow> wp (of_result r) Q E (waited j w)"
  shows "wp (py_await fuel f) Q E w"
  using assms
proof (induction fuel arbitrary: w)
  case 0
  from 0(1) [of 0] show ?case by simp
next
  case (Suc fuel)
  have "wp (py_await fuel f) Q E (traced w Waited)"
    by (rule Suc.IH) (use Suc.prems(1) [of "Suc _"] Suc.prems(2) [of "Suc _"] in simp_all)
  with Suc.prems(2) [of 0] show ?case by (auto simp: wp_bind wp_seq split: option.split)
qed

lemma lift_probe_wp: "wp (path_exists p) Q E w =
    (case fs_exists (w_fs w) (w_cwd w) p of Inl m \<Rightarrow> E (OSError m) w | Inr b \<Rightarrow> Q b w)"
  by (simp add: wp_def path_exists_def lift_probe_def split: sum.splits)

lemma wp_mono:
  "wp m Q E w \<Longrightarrow> (\<And>x w'. Q x w' \<Longrightarrow> Q' x w') \<Longrightarrow> (\<And>e w'. E e w' \<Longrightarrow> E' e w') \<Longrightarrow> wp m Q' E' w"
  by (auto simp: wp_def split: prod.splits result.splits)

lemma wp_conj: "wp m Q E w \<Longrightarrow> wp m Q' E' w \<Longrightarrow> wp m (\<lambda>x w. Q x w \<and> Q' x w) (\<lambda>e w. E e w \<and> E' e w) w"
  by (auto simp: wp_def split: prod.splits result.splits)

lemma wp_Ok: "wp m Q E w \<Longrightarrow> m w = (Ok x, w') \<Longrightarrow> Q x w'"
  by (simp add: wp_def)

lemma wp_Exc: "wp m Q E w \<Longrightarrow> m w = (Exc e, w') \<Longrightarrow> E e w'"
  by (simp add: wp_def)

lemma wp_fold:
  assumes "Inv [] s w"
    and "\<And>us x vs s w. xs = us @ x # vs \<Longrightarrow> Inv us s w \<Longrightarrow> wp (f x s) (Inv (us @ [x])) E w"
  shows "wp (py_fold f xs s) (Inv xs) E w"
proof -
  have "wp (py_fold f vs s) (Inv xs) E w" if "xs = us @ vs" "Inv us s w" for us vs s w
    using that
  proof (induction vs arbitrary: us s w)
    case (Cons x vs)
    from assms(2) [OF Cons.prems] show ?case
      unfolding py_fold.simps wp_bind by (rule wp_mono) (use Cons in auto)
  qed simp
  from this [of "[]"] assms(1) show ?thesis by simp
qed

lemma wp_for:
  assumes "Inv [] w" and "\<And>us x vs w. xs = us @ x # vs \<Longrightarrow> Inv us w \<Longrightarrow> wp (f x) (\<lambda>_. Inv (us @ [x])) E w"
  shows "wp (py_for xs f) (\<lambda>_. Inv xs) E w"
proof -
  have "wp (py_for vs f) (\<lambda>_. Inv xs) E w" if "xs = us @ vs" "Inv us w" for us vs w
    using that
  proof (induction vs arbitrary: us w)
    case (Cons x vs)
    from assms(2) [OF Cons.prems] show ?case
      unfolding py_for.simps wp_seq by (rule wp_mono) (use Cons in auto)
  qed simp
  from this [of "[]"] assms(1) show ?thesis by simp
qed

end
