(* ===== verification/Py_Argparse.thy ===== *)
theory Py_Argparse
  imports Py_Monad
begin

text \<open>
  \<open>argparse.ArgumentParser\<close>, as far as the scripts use it: options that store one value, append
  one value, take one or more values, take any number, set a flag or print help; at most one
  positional argument, with \<open>nargs="*"\<close>; required options, choices, types, abbreviated
  long options, \<open>--opt=value\<close>, the separator \<open>--\<close> and \<open>parse_known_args\<close>. The text of usage and
  help messages is not modelled, only that they are printed and how the script exits.
\<close>

section \<open>Parsers\<close>

datatype narg = NOne | NAppend | NPlus | NStar | NFlag | NHelp

text \<open>\<open>o_type\<close> says whether the \<open>type\<close> function accepts a string; values are kept as strings.\<close>

record opt =
  o_names :: "string list"
  o_dest :: string
  o_narg :: narg
  o_type :: "string \<Rightarrow> bool"
  o_choices :: "string list option"
  o_required :: bool

record parser =
  p_opts :: "opt list"
  p_positional :: "string option"

definition any_str :: "string \<Rightarrow> bool" where "any_str s = True"

definition is_float :: "string \<Rightarrow> bool" where "is_float s = (py_float s \<noteq> None)"

definition is_int :: "string \<Rightarrow> bool" where "is_int s = (py_int s \<noteq> None)"

definition mk_opt :: "string list \<Rightarrow> string \<Rightarrow> narg \<Rightarrow> opt" where
  "mk_opt names dest n = \<lparr>o_names = names, o_dest = dest, o_narg = n, o_type = any_str,
     o_choices = None, o_required = False\<rparr>"

definition help_opt :: opt where
  "help_opt = mk_opt [''-h'', ''--help''] ''help'' NHelp"

text \<open>What the command line gave, by destination; a destination not listed keeps its default.\<close>

type_synonym namespace = "(string \<times> string list) list"

datatype parse_outcome = Parsed namespace "string list" | UsageError | HelpShown

section \<open>Classifying the arguments\<close>

datatype arg_class =
    APos
  | ADash
  | AOpt opt string string "string option"  \<comment> \<open>option, its string, separator, explicit argument\<close>
  | AUnknown
  | AAmbiguous

definition find_exact :: "opt list \<Rightarrow> string \<Rightarrow> opt option" where
  "find_exact os s = find (\<lambda>q. s \<in> set (o_names q)) os"

definition long_matches :: "opt list \<Rightarrow> string \<Rightarrow> (opt \<times> string) list" where
  "long_matches os s =
     concat (map (\<lambda>q. map (Pair q) (filter (\<lambda>n. py_startswith n s) (o_names q))) os)"

definition short_matches :: "opt list \<Rightarrow> string \<Rightarrow> (opt \<times> string) list" where
  "short_matches os s =
     concat (map (\<lambda>q. map (Pair q) (filter (\<lambda>n. n = take 2 s \<or> py_startswith n s) (o_names q))) os)"

text \<open>\<open>^-\d+$|^-\d*\.\d+$\<close>\<close>

definition looks_negative :: "string \<Rightarrow> bool" where
  "looks_negative s =
     (case s of
        c # r \<Rightarrow> c = CHR ''-'' \<and>
          (let a = takeWhile is_digit r; b = dropWhile is_digit r
           in (a \<noteq> [] \<and> b = []) \<or> (b \<noteq> [] \<and> hd b = CHR ''.'' \<and> tl b \<noteq> [] \<and> list_all is_digit (tl b)))
      | [] \<Rightarrow> False)"

definition classify_arg :: "opt list \<Rightarrow> string \<Rightarrow> arg_class" where
  "classify_arg os s =
     (if \<not> py_startswith s ''-'' then APos
      else case find_exact os s of
        Some q \<Rightarrow> AOpt q s '''' None
      | None \<Rightarrow>
          if length s = 1 then APos
          else
           (let (h, t) = split_once (CHR ''='') s; eq = CHR ''='' \<in> set s in
            case (if eq then find_exact os h else None) of
              Some q \<Rightarrow> AOpt q h ''='' (Some t)
            | None \<Rightarrow>
               (let long = py_startswith s ''--'';
                    ms = (if long then long_matches os (if eq then h else s) else short_matches os s)
                in case ms of
                     (q, n) # _ # _ \<Rightarrow> AAmbiguous
                   | [(q, n)] \<Rightarrow>
                       if long then AOpt q n (if eq then ''='' else '''') (if eq then Some t else None)
                       else if n = take 2 s then AOpt q n '''' (Some (drop 2 s))
                       else AOpt q n '''' None
                   | [] \<Rightarrow>
                       if looks_negative s then APos
                       else if CHR '' '' \<in> set s then APos
                       else AUnknown)))"

fun classify :: "opt list \<Rightarrow> string list \<Rightarrow> (string \<times> arg_class) list" where
  "classify os [] = []"
| "classify os (s # ss) =
     (if s = ''--'' then (s, ADash) # map (\<lambda>x. (x, APos)) ss
      else (s, classify_arg os s) # classify os ss)"

section \<open>Consuming them\<close>

definition is_option :: "string \<times> arg_class \<Rightarrow> bool" where
  "is_option x = (case snd x of AOpt _ _ _ _ \<Rightarrow> True | AUnknown \<Rightarrow> True | _ \<Rightarrow> False)"

definition is_pos :: "string \<times> arg_class \<Rightarrow> bool" where
  "is_pos x = (case snd x of APos \<Rightarrow> True | _ \<Rightarrow> False)"

definition value_ok :: "opt \<Rightarrow> string \<Rightarrow> bool" where
  "value_ok q v = (o_type q v \<and> (case o_choices q of None \<Rightarrow> True | Some cs \<Rightarrow> v \<in> set cs))"

definition store :: "opt \<Rightarrow> string list \<Rightarrow> namespace \<Rightarrow> namespace" where
  "store q vs ns =
     (if o_narg q = NAppend
      then dict_put (o_dest q) ((case map_of ns (o_dest q) of None \<Rightarrow> [] | Some us \<Rightarrow> us) @ vs) ns
      else dict_put (o_dest q) vs ns)"

definition drop_dashes :: "string list \<Rightarrow> string list" where
  "drop_dashes ss = (if ''--'' \<in> set ss then remove1 ''--'' ss else ss)"

definition single_dash :: "string \<Rightarrow> bool" where
  "single_dash n = (\<not> py_startswith n ''--'')"

text \<open>
  \<open>consume os pend items ns extras\<close> is the loop of \<open>_parse_known_args\<close>; \<open>pend\<close> is the positional
  argument not consumed yet.
\<close>

function consume ::
  "string option \<Rightarrow> (string \<times> arg_class) list \<Rightarrow> namespace \<Rightarrow> string list \<Rightarrow> parse_outcome" where
  "consume pend [] ns extras = Parsed ns extras"
| "consume pend (x # xs) ns extras =
     (case snd x of
        AAmbiguous \<Rightarrow> UsageError
      | AUnknown \<Rightarrow> consume pend xs ns (extras @ [fst x])
      | AOpt q n sep (Some e) \<Rightarrow>
          (if o_narg q = NFlag \<or> o_narg q = NHelp then
             (if single_dash n \<and> sep = '''' \<and> \<not> py_startswith e ''-'' \<and> o_narg q = NHelp
              then HelpShown else UsageError)
           else if value_ok q e then consume pend xs (store q [e] ns) extras else UsageError)
      | AOpt q n sep None \<Rightarrow>
          (case o_narg q of
             NHelp \<Rightarrow> HelpShown
           | NFlag \<Rightarrow> consume pend xs (dict_put (o_dest q) [] ns) extras
           | NPlus \<Rightarrow>
               (let vs = map fst (takeWhile is_pos xs)
                in if vs = [] \<or> \<not> list_all (value_ok q) vs then UsageError
                   else consume pend (dropWhile is_pos xs) (store q vs ns) extras)
           | NStar \<Rightarrow>
               (let vs = map fst (takeWhile is_pos xs)
                in if \<not> list_all (value_ok q) vs then UsageError
                   else consume pend (dropWhile is_pos xs) (store q vs ns) extras)
           | _ \<Rightarrow>
               (case xs of
                  y # ys \<Rightarrow>
                    if is_pos y \<and> value_ok q (fst y) then consume pend ys (store q [fst y] ns) extras
                    else UsageError
                | [] \<Rightarrow> UsageError))
      | _ \<Rightarrow>
          (let run = takeWhile (\<lambda>y. \<not> is_option y) (x # xs);
               rest = dropWhile (\<lambda>y. \<not> is_option y) xs
           in case pend of
                Some d \<Rightarrow> consume None rest (dict_put d (drop_dashes (map fst run)) ns) extras
              | None \<Rightarrow> consume None rest ns (extras @ map fst run)))"
  by pat_completeness auto
termination
  by (relation "measure (\<lambda>(pend, xs, ns, ex). length xs)") (auto simp: le_imp_less_Suc length_dropWhile_le)

declare consume.simps [simp del]

definition has_ambiguous :: "(string \<times> arg_class) list \<Rightarrow> bool" where
  "has_ambiguous xs = list_ex (\<lambda>x. case snd x of AAmbiguous \<Rightarrow> True | _ \<Rightarrow> False) xs"

definition missing_required :: "opt list \<Rightarrow> namespace \<Rightarrow> bool" where
  "missing_required os ns = list_ex (\<lambda>q. o_required q \<and> map_of ns (o_dest q) = None) os"

definition parse_known :: "parser \<Rightarrow> string list \<Rightarrow> parse_outcome" where
  "parse_known p argv =
     (let xs = classify (p_opts p) argv in
      if has_ambiguous xs then UsageError
      else case consume (p_positional p) xs [] [] of
             Parsed ns ex \<Rightarrow> if missing_required (p_opts p) ns then UsageError else Parsed ns ex
           | out \<Rightarrow> out)"

section \<open>The two entry points\<close>

text \<open>A usage error prints to standard error and exits with 2; help prints and exits with 0.\<close>

definition parse_known_args :: "parser \<Rightarrow> string list \<Rightarrow> (namespace \<times> string list) py" where
  "parse_known_args p argv =
     (case parse_known p argv of
        Parsed ns ex \<Rightarrow> py_ret (ns, ex)
      | UsageError \<Rightarrow> py_seq (py_eprint ''usage'') (sys_exit 2)
      | HelpShown \<Rightarrow> py_seq (py_print ''help'') (sys_exit 0))"

definition parse_args :: "parser \<Rightarrow> string list \<Rightarrow> namespace py" where
  "parse_args p argv =
     py_bind (parse_known_args p argv) (\<lambda>(ns, ex).
       if ex = [] then py_ret ns else py_seq (py_eprint ''usage'') (sys_exit 2))"

text \<open>Reading the namespace: one value or its default, a list or its default, a flag.\<close>

definition arg_value :: "namespace \<Rightarrow> string \<Rightarrow> string option" where
  "arg_value ns d = (case map_of ns d of Some (v # _) \<Rightarrow> Some v | _ \<Rightarrow> None)"

definition arg_default :: "namespace \<Rightarrow> string \<Rightarrow> string \<Rightarrow> string" where
  "arg_default ns d v = (case arg_value ns d of Some u \<Rightarrow> u | None \<Rightarrow> v)"

definition arg_list :: "namespace \<Rightarrow> string \<Rightarrow> string list" where
  "arg_list ns d = (case map_of ns d of Some vs \<Rightarrow> vs | None \<Rightarrow> [])"

definition arg_flag :: "namespace \<Rightarrow> string \<Rightarrow> bool" where
  "arg_flag ns d = (map_of ns d \<noteq> None)"

section \<open>\<open>logging.basicConfig\<close>\<close>

text \<open>With a file name, the log file is opened for appending and created when it is missing.\<close>

definition basic_config :: "string option \<Rightarrow> unit py" where
  "basic_config f =
     (case f of
        None \<Rightarrow> py_ret ()
      | Some s \<Rightarrow> (\<lambda>w. case fs_read (w_fs w) (w_cwd w) (path_of s) of
            Some _ \<Rightarrow> (Ok (), w)
          | None \<Rightarrow> write_file (path_of s) '''' w))"

section \<open>Lemmas\<close>

text \<open>
  With no positional argument and nothing recognised, every argument is passed through in order.
\<close>

lemma consume_unrecognised:
  assumes "\<forall>x \<in> set xs. snd x = APos \<or> snd x = AUnknown \<or> snd x = ADash"
  shows "consume None xs ns ex = Parsed ns (ex @ map fst xs)"
  using assms
proof (induction "length xs" arbitrary: xs ex rule: less_induct)
  case less
  show ?case
  proof (cases xs)
    case Nil
    then show ?thesis by (simp add: consume.simps)
  next
    case (Cons y ys)
    show ?thesis
    proof (cases "snd y = AUnknown")
      case True
      with less Cons show ?thesis by (simp add: consume.simps)
    next
      case False
      let ?rest = "dropWhile (\<lambda>y. \<not> is_option y) ys"
      let ?run = "takeWhile (\<lambda>y. \<not> is_option y) ys"
      from False less.prems Cons have y: "snd y = APos \<or> snd y = ADash" by auto
      have sub: "\<forall>x \<in> set ?rest. snd x = APos \<or> snd x = AUnknown \<or> snd x = ADash"
        using less.prems Cons by (auto dest: set_dropWhileD)
      have step: "consume None xs ns ex = consume None ?rest ns (ex @ map fst (y # ?run))"
        using y Cons by (auto simp: consume.simps(2) [of None y ys] is_option_def Let_def)
      have "consume None ?rest ns (ex @ map fst (y # ?run))
          = Parsed ns ((ex @ map fst (y # ?run)) @ map fst ?rest)"
        by (rule less.hyps) (use Cons sub in \<open>auto simp: le_imp_less_Suc length_dropWhile_le\<close>)
      also have "(ex @ map fst (y # ?run)) @ map fst ?rest = ex @ map fst xs"
        using Cons by (simp add: map_append [symmetric] del: map_append)
      finally show ?thesis using step by simp
    qed
  qed
qed

end
