(* ===== verification/Py_Frame.thy ===== *)
theory Py_Frame
  imports Py_Argparse
begin

text \<open>
  Frame conditions: relations between the world before and the world after that every part of a
  script keeps. The laws are stated once, for every reflexive and transitive relation, and
  interpreted on the relations the development uses.
\<close>

definition keeps :: "(world \<Rightarrow> world \<Rightarrow> bool) \<Rightarrow> 'a py \<Rightarrow> bool" where
  "keeps R m = (\<forall>w. R w (snd (m w)))"

lemma keepsD: "keeps R m \<Longrightarrow> m w = (r, w') \<Longrightarrow> R w w'"
  unfolding keeps_def by (metis snd_conv)

lemma keeps_mono: "keeps R m \<Longrightarrow> (\<And>w w'. R w w' \<Longrightarrow> S w w') \<Longrightarrow> keeps S m"
  by (simp add: keeps_def)

section \<open>Relations closed under the constructs of the language\<close>

locale frame =
  fixes R :: "world \<Rightarrow> world \<Rightarrow> bool"
  assumes frame_refl: "R w w"
    and frame_trans: "R w w1 \<Longrightarrow> R w1 w2 \<Longrightarrow> R w w2"
begin

lemma frame_pure: "(\<And>w. snd (m w) = w) \<Longrightarrow> keeps R m"
  by (simp add: keeps_def frame_refl)

lemma frame_basic:
  "keeps R (py_ret x)" "keeps R (py_raise e)" "keeps R (sys_exit n)" "keeps R (py_get g)" "keeps R (getenv k)"
  "keeps R (of_opt e y)" "keeps R (of_result r)"
  by (rule frame_pure, simp add: py_ret_def py_raise_def sys_exit_def py_get_def getenv_def of_opt_def of_result_def
      split: option.split)+

lemma frame_reads:
  "keeps R (path_exists p)" "keeps R (os_path_exists p)" "keeps R (path_resolve p)" "keeps R (read_file p)"
  by (rule frame_pure, simp add: path_exists_def lift_probe_def os_path_exists_def path_resolve_def read_file_def
      split: sum.split option.split fs_error.split)+

lemma frame_bind:
  assumes "keeps R m" "\<And>x. keeps R (f x)"
  shows "keeps R (py_bind m f)"
  unfolding keeps_def
proof
  fix w
  obtain r w1 where m: "m w = (r, w1)" by fastforce
  with keepsD [OF assms(1) m] show "R w (snd (py_bind m f w))"
    using assms(2) by (cases r) (auto simp: py_bind_def keeps_def intro: frame_trans)
qed

lemma frame_try:
  assumes "keeps R m" "\<And>e. keeps R (h e)"
  shows "keeps R (py_try m c h)"
  unfolding keeps_def
proof
  fix w
  obtain r w1 where m: "m w = (r, w1)" by fastforce
  with keepsD [OF assms(1) m] show "R w (snd (py_try m c h w))"
    using assms(2) by (cases r) (auto simp: py_try_def keeps_def intro: frame_trans)
qed

lemma frame_finally:
  assumes "keeps R m" "keeps R fin"
  shows "keeps R (py_finally m fin)"
  unfolding keeps_def
proof
  fix w
  obtain r w1 where m: "m w = (r, w1)" by fastforce
  obtain r2 w2 where f: "fin w1 = (r2, w2)" by fastforce
  from frame_trans [OF keepsD [OF assms(1) m] keepsD [OF assms(2) f]] m f
  show "R w (snd (py_finally m fin w))" by (cases r2) (auto simp: py_finally_def)
qed

lemma frame_seq: "keeps R m \<Longrightarrow> keeps R k \<Longrightarrow> keeps R (py_seq m k)"
  unfolding py_seq_def by (rule frame_bind)

lemma frame_when: "keeps R m \<Longrightarrow> keeps R (py_when b m)"
  by (simp add: py_when_def frame_basic)

lemma frame_for: "(\<And>x. x \<in> set xs \<Longrightarrow> keeps R (f x)) \<Longrightarrow> keeps R (py_for xs f)"
  by (induction xs) (auto intro!: frame_basic frame_seq)

lemma frame_fold: "(\<And>x s. x \<in> set xs \<Longrightarrow> keeps R (f x s)) \<Longrightarrow> keeps R (py_fold f xs s)"
  by (induction xs arbitrary: s) (auto intro!: frame_basic frame_bind)

lemma frame_json_load: "keeps R (json_load p)"
  unfolding json_load_def by (intro frame_bind frame_reads frame_basic)

lemmas frame_rules = frame_basic frame_reads frame_json_load frame_bind frame_seq frame_try frame_finally frame_when
  frame_for frame_fold

end

text \<open>Relations that allow some events, those of logging and of messages to the user among them.\<close>

locale log_frame = frame +
  fixes allows :: "event \<Rightarrow> bool"
  assumes frame_event: "allows e \<Longrightarrow> R w (traced w e)"
    and allows_log: "allows (Log l f xs)" "allows (Stderr s)"
begin

lemma frame_emit: "allows e \<Longrightarrow> keeps R (emit e)"
  using frame_event [of e] by (simp add: keeps_def emit_def traced_def)

lemma frame_log:
  "keeps R (log_info f xs)" "keeps R (log_warning f xs)" "keeps R (log_error f xs)" "keeps R (py_eprint s)"
  unfolding log_info_def log_warning_def log_error_def py_eprint_def
  by (rule frame_emit, rule allows_log)+

lemma frame_proc: "allows (Spawn cmd) \<Longrightarrow> keeps R (run_proc cmd)"
  using frame_event [of "Spawn cmd"] by (simp add: keeps_def run_proc_def traced_def Let_def split: proc_outcome.split)

lemma frame_checked: "allows (Spawn cmd) \<Longrightarrow> keeps R (run_checked capture cmd)"
  unfolding run_checked_def by (auto intro!: frame_proc frame_rules)

lemma frame_await: "allows Waited \<Longrightarrow> keeps R (py_await fuel f)"
  by (induction fuel) (auto intro!: frame_rules frame_emit split: option.split)

lemma frame_poll: "(\<And>b. allows (CancelSeen b)) \<Longrightarrow> keeps R poll_cancel"
  using frame_event by (simp add: keeps_def poll_cancel_def traced_def Let_def)

lemmas log_rules = frame_rules frame_log

end

text \<open>Relations that allow printing as well.\<close>

locale event_frame = log_frame +
  assumes allows_print: "allows (Stdout s)"
begin

lemma frame_print: "keeps R (py_print s)"
  unfolding py_print_def by (rule frame_emit, rule allows_print)

lemmas frame_noise = frame_log frame_print

lemma frame_parse_known: "keeps R (parse_known_args p argv)"
  unfolding parse_known_args_def by (auto intro!: frame_rules frame_noise split: parse_outcome.split)

lemma frame_parse: "keeps R (parse_args p argv)"
  unfolding parse_args_def by (auto intro!: frame_rules frame_noise frame_parse_known split: prod.split)

lemmas event_rules = frame_rules frame_noise frame_parse_known frame_parse

end

text \<open>Relations that also allow changes of the files and of the environment.\<close>

locale script_frame = event_frame +
  assumes frame_fs: "R w (w\<lparr>w_fs := fs\<rparr>)"
    and frame_environ: "R w (w\<lparr>w_environ := en\<rparr>)"
begin

lemma frame_writes: "keeps R (write_file p t)" "keeps R (mkdir_p p)" "keeps R (setenv k v)"
  using frame_refl frame_fs frame_environ
  by (auto simp: keeps_def write_file_def mkdir_p_def setenv_def split: sum.split)

lemma frame_config: "keeps R (basic_config f)"
  using frame_writes(1) [where t = "[]"] frame_refl
  by (auto simp: basic_config_def keeps_def py_ret_def split: option.split)

lemmas script_rules = event_rules frame_writes frame_config

end

section \<open>The events a script adds\<close>

text \<open>What the script cannot decide behaves as before.\<close>

definition same_outside :: "world \<Rightarrow> world \<Rightarrow> bool" where
  "same_outside w w' = (w_proc w' = w_proc w \<and> w_cancel w' = w_cancel w)"

lemma same_outside_simps [simp]: "same_outside w w" "same_outside w (traced w' e) = same_outside w w'"
  "same_outside w (w'\<lparr>w_fs := fs\<rparr>) = same_outside w w'" "same_outside w (w'\<lparr>w_environ := en\<rparr>) = same_outside w w'"
  "same_outside w (w'\<lparr>w_trace := t\<rparr>) = same_outside w w'"
  by (simp_all add: same_outside_def)

text \<open>The trace so far is kept, and only events that satisfy \<open>ok\<close> are added.\<close>

definition adds :: "(event \<Rightarrow> bool) \<Rightarrow> world \<Rightarrow> world \<Rightarrow> bool" where
  "adds ok w w' = (same_outside w w' \<and> (\<exists>t. w_trace w' = w_trace w @ t \<and> list_all ok t))"

lemma adds_refl: "adds ok w w"
  by (simp add: adds_def)

lemma adds_trans:
  assumes "adds ok w w1" "adds ok w1 w2"
  shows "adds ok w w2"
proof -
  from assms obtain t u where "w_trace w1 = w_trace w @ t" "list_all ok t" "w_trace w2 = w_trace w1 @ u" "list_all ok u"
    unfolding adds_def by blast
  then have "w_trace w2 = w_trace w @ (t @ u)" "list_all ok (t @ u)" by simp_all
  with assms show ?thesis unfolding adds_def same_outside_def by (metis (no_types))
qed

lemma adds_steps: "ok e \<Longrightarrow> adds ok w (traced w e)" "adds ok w (w\<lparr>w_fs := fs\<rparr>)" "adds ok w (w\<lparr>w_environ := en\<rparr>)"
  by (simp_all add: adds_def)

lemmas adds_laws = adds_refl adds_trans adds_steps

lemma keeps_adds: "keeps (adds ok) m = (\<forall>w. does m w (\<lambda>r w' t. same_outside w w' \<and> list_all ok t))"
  by (auto simp: keeps_def does_def adds_def)

text \<open>Every command started satisfies \<open>P\<close>; other events are free.\<close>

definition only_spawns :: "(string list \<Rightarrow> bool) \<Rightarrow> event \<Rightarrow> bool" where
  "only_spawns P e = (\<forall>c. e = Spawn c \<longrightarrow> P c)"

interpretation so: script_frame "adds (only_spawns P)" "only_spawns P" for P
  by unfold_locales (auto simp: only_spawns_def intro: adds_laws)

abbreviation starts_only :: "(string list \<Rightarrow> bool) \<Rightarrow> 'a py \<Rightarrow> bool" where
  "starts_only P m \<equiv> keeps (adds (only_spawns P)) m"

abbreviation silent :: "'a py \<Rightarrow> bool" where
  "silent m \<equiv> starts_only (\<lambda>_. False) m"

lemma list_all_spawns: "list_all (only_spawns P) t = (\<forall>c \<in> set (spawned t). P c)"
  by (induction t rule: spawned.induct) (auto simp: only_spawns_def)

lemma starts_only_does: "starts_only P m = (\<forall>w. does m w (\<lambda>r w' t. same_outside w w' \<and> (\<forall>c \<in> set (spawned t). P c)))"
  by (simp add: keeps_adds list_all_spawns)

lemma does_starts_only:
  assumes "starts_only P m" "\<And>r w' t. \<forall>c \<in> set (spawned t). P c \<Longrightarrow> Q r w' t"
  shows "does m w Q"
  using assms unfolding starts_only_does by (elim allE [of _ w] does_mono) simp

lemma does_silent:
  assumes "silent m" "\<And>r w' t. spawned t = [] \<Longrightarrow> Q r w' t"
  shows "does m w Q"
  using assms by (auto intro: does_starts_only)

end
