(* ===== verification/Py_Conversation.thy ===== *)
theory Py_Conversation
  imports Py_Frame
begin

text \<open>
  The conversation of a script with the programs it starts: the commands with the outcomes they
  had, in order. \<open>conv m Q\<close> says of every run of \<open>m\<close> that its result and its conversation satisfy \<open>Q\<close>.
\<close>

type_synonym conversation = "(string list \<times> proc_outcome) list"

text \<open>The conversation in a stretch of trace that follows \<open>t\<close>, for programs that behave as \<open>p\<close>.\<close>

fun replies :: "(event list \<Rightarrow> string list \<Rightarrow> proc_outcome) \<Rightarrow> event list \<Rightarrow> event list \<Rightarrow> conversation" where
  "replies p t [] = []"
| "replies p t (e # es) = (case e of Spawn c \<Rightarrow> [(c, p t c)] | _ \<Rightarrow> []) @ replies p (t @ [e]) es"

lemma replies_append [simp]: "replies p t (us @ vs) = replies p t us @ replies p (t @ us) vs"
  by (induction us arbitrary: t) auto

lemma replies_spawned: "map fst (replies p t es) = spawned es"
  by (induction es arbitrary: t rule: spawned.induct) auto

lemma replies_from: "(c, y) \<in> set (replies p t es) \<Longrightarrow> \<exists>u. y = p u c"
  by (induction es arbitrary: t) (auto split: event.splits)

definition conv :: "'a py \<Rightarrow> ('a result \<Rightarrow> conversation \<Rightarrow> bool) \<Rightarrow> bool" where
  "conv m Q = (\<forall>w. does m w (\<lambda>r w' t. same_outside w w' \<and> Q r (replies (w_proc w) (w_trace w) t)))"

lemma convD:
  assumes "conv m Q" "m w = (r, w')"
  obtains t where "w_trace w' = w_trace w @ t" "Q r (replies (w_proc w) (w_trace w) t)"
  using assms by (auto simp: conv_def elim: doesD)

lemma conv_same_proc: "conv m Q \<Longrightarrow> w_proc (snd (m w)) = w_proc w \<and> w_cancel (snd (m w)) = w_cancel w"
  by (auto simp: conv_def does_def same_outside_def)

lemma conv_mono: "conv m Q \<Longrightarrow> (\<And>r cs. Q r cs \<Longrightarrow> R r cs) \<Longrightarrow> conv m R"
  unfolding conv_def by (blast intro: does_mono)

lemma conv_continue:
  assumes "conv k (\<lambda>r ds. Q r (replies (w_proc w) (w_trace w) t @ ds))"
    and "w_trace w1 = w_trace w @ t" "same_outside w w1"
  shows "does k w1 (\<lambda>r w2 u. same_outside w w2 \<and> Q r (replies (w_proc w) (w_trace w) (t @ u)))"
  using assms(1,3) unfolding conv_def does_def by (elim allE [of _ w1]) (auto simp: assms(2) same_outside_def)

lemma conv_bind:
  assumes "conv m P" and "\<And>x cs. P (Ok x) cs \<Longrightarrow> conv (f x) (\<lambda>r ds. Q r (cs @ ds))"
    and "\<And>e cs. P (Exc e) cs \<Longrightarrow> Q (Exc e) cs"
  shows "conv (py_bind m f) Q"
  unfolding conv_def
proof (intro allI does_bind)
  fix w
  show "does m w (\<lambda>r w1 t. case r of
      Ok x \<Rightarrow> does (f x) w1 (\<lambda>r2 w2 u. same_outside w w2 \<and> Q r2 (replies (w_proc w) (w_trace w) (t @ u)))
    | Exc e \<Rightarrow> same_outside w w1 \<and> Q (Exc e) (replies (w_proc w) (w_trace w) t))"
    using assms(1) unfolding conv_def does_def [of m]
    by (elim allE [of _ w] exE conjE)
      (intro exI, auto intro!: conv_continue assms(2,3) simp del: replies_append split: result.splits)
qed

lemma conv_seq:
  assumes "conv m P" and "\<And>cs. P (Ok ()) cs \<Longrightarrow> conv k (\<lambda>r ds. Q r (cs @ ds))"
    and "\<And>e cs. P (Exc e) cs \<Longrightarrow> Q (Exc e) cs"
  shows "conv (py_seq m k) Q"
  unfolding py_seq_def using assms by (intro conv_bind [OF assms(1)]) auto

lemma conv_try:
  assumes "conv m P" and "\<And>x cs. P (Ok x) cs \<Longrightarrow> Q (Ok x) cs"
    and "\<And>e cs. P (Exc e) cs \<Longrightarrow> c e \<Longrightarrow> conv (h e) (\<lambda>r ds. Q r (cs @ ds))"
    and "\<And>e cs. P (Exc e) cs \<Longrightarrow> \<not> c e \<Longrightarrow> Q (Exc e) cs"
  shows "conv (py_try m c h) Q"
  unfolding conv_def
proof (intro allI does_try)
  fix w
  show "does m w (\<lambda>r w1 t. case r of
      Ok x \<Rightarrow> same_outside w w1 \<and> Q (Ok x) (replies (w_proc w) (w_trace w) t)
    | Exc e \<Rightarrow> if c e then does (h e) w1 (\<lambda>r2 w2 u. same_outside w w2 \<and> Q r2 (replies (w_proc w) (w_trace w) (t @ u)))
               else same_outside w w1 \<and> Q (Exc e) (replies (w_proc w) (w_trace w) t))"
    using assms(1) unfolding conv_def does_def [of m]
    by (elim allE [of _ w] exE conjE)
      (intro exI, auto intro!: conv_continue assms(2-) simp del: replies_append split: result.splits)
qed

lemma conv_ret: "Q (Ok x) [] \<Longrightarrow> conv (py_ret x) Q"
  by (simp add: conv_def)

lemma conv_raise: "Q (Exc e) [] \<Longrightarrow> conv (py_raise e) Q"
  by (simp add: conv_def)

lemma conv_exit: "Q (Exc (SystemExit n)) [] \<Longrightarrow> conv (sys_exit n) Q"
  by (simp add: conv_def)

lemma conv_emit: "Q (Ok ()) [] \<Longrightarrow> (\<And>c. e \<noteq> Spawn c) \<Longrightarrow> conv (emit e) Q"
  by (simp add: conv_def split: event.splits)

lemma conv_noise:
  "Q (Ok ()) [] \<Longrightarrow> conv (log_info f xs) Q" "Q (Ok ()) [] \<Longrightarrow> conv (log_warning f xs) Q"
  "Q (Ok ()) [] \<Longrightarrow> conv (log_error f xs) Q" "Q (Ok ()) [] \<Longrightarrow> conv (py_print s) Q"
  "Q (Ok ()) [] \<Longrightarrow> conv (py_eprint s) Q"
  unfolding log_info_def log_warning_def log_error_def py_print_def py_eprint_def
  by (rule conv_emit; simp)+

lemma conv_seq_quiet:
  assumes "conv m (\<lambda>r cs. r = Ok () \<and> cs = [])" "conv k Q"
  shows "conv (py_seq m k) Q"
  by (rule conv_seq [OF assms(1)]) (use assms(2) in auto)

definition proc_result :: "proc_outcome \<Rightarrow> (int \<times> string \<times> string) result" where
  "proc_result x = (case x of Exited n out err \<Rightarrow> Ok (n, out, err) | LaunchFailed e \<Rightarrow> Exc e)"

lemma conv_proc: "(\<And>x. Q (proc_result x) [(cmd, x)]) \<Longrightarrow> conv (run_proc cmd) Q"
proof (unfold conv_def, intro allI)
  fix w assume Q: "\<And>x. Q (proc_result x) [(cmd, x)]"
  show "does (run_proc cmd) w (\<lambda>r w' t. same_outside w w' \<and> Q r (replies (w_proc w) (w_trace w) t))"
    using Q [of "w_proc w (w_trace w) cmd"] by (cases "w_proc w (w_trace w) cmd") (simp_all add: does_proc proc_result_def)
qed

definition checked_result :: "bool \<Rightarrow> string list \<Rightarrow> proc_outcome \<Rightarrow> (string \<times> string) result" where
  "checked_result capture cmd x =
     (case x of
        Exited n out err \<Rightarrow>
          (if n = 0 then Ok (if capture then (out, err) else ([], []))
           else Exc (CalledProcessError cmd n (if capture then out else []) (if capture then err else [])))
      | LaunchFailed e \<Rightarrow> Exc e)"

lemma conv_checked: "(\<And>x. Q (checked_result capture cmd x) [(cmd, x)]) \<Longrightarrow> conv (run_checked capture cmd) Q"
  unfolding run_checked_def
proof (rule conv_bind [OF conv_proc [where Q = "\<lambda>r cs. \<exists>x. r = proc_result x \<and> cs = [(cmd, x)]"]])
  assume Q: "\<And>x. Q (checked_result capture cmd x) [(cmd, x)]"
  show "Q (Exc e) cs" if "\<exists>x. Exc e = proc_result x \<and> cs = [(cmd, x)]" for e cs
    using that Q by (fastforce simp: proc_result_def checked_result_def split: proc_outcome.splits)
  fix r cs assume "\<exists>x. Ok r = proc_result x \<and> cs = [(cmd, x)]"
  then obtain n out err where "r = (n, out, err)" "cs = [(cmd, Exited n out err)]"
    by (elim exE, rename_tac x, case_tac x) (auto simp: proc_result_def)
  with Q [of "Exited n out err"] show "conv (case r of (n, out, err) \<Rightarrow>
      if n = 0 then py_ret (if capture then (out, err) else ('''', ''''))
      else py_raise (CalledProcessError cmd n (if capture then out else '''') (if capture then err else '''')))
    (\<lambda>r ds. Q r (cs @ ds))"
    by (auto simp: checked_result_def intro!: conv_ret conv_raise)
qed blast

lemma conv_starts_only: "conv m (\<lambda>_ cs. \<forall>c \<in> set cs. P (fst c)) = starts_only P m"
proof -
  have "(\<forall>c \<in> set (replies p t es). P (fst c)) = (\<forall>c \<in> set (spawned es). P c)" for p t es
    unfolding replies_spawned [of p t es, symmetric] by simp
  then show ?thesis by (simp add: conv_def starts_only_does)
qed

lemma conv_wp:
  assumes "conv m P" "\<And>w. wp m (\<lambda>x _. Q (Ok x)) (\<lambda>e _. Q (Exc e)) w"
  shows "conv m (\<lambda>r cs. P r cs \<and> Q r)"
  unfolding conv_def
proof
  fix w
  have "Q (fst (m w))" using assms(2) [of w] by (auto simp: wp_def split: prod.splits result.splits)
  moreover from assms(1) have "does m w (\<lambda>r w' t. same_outside w w' \<and> P r (replies (w_proc w) (w_trace w) t))"
    by (simp add: conv_def)
  ultimately show "does m w (\<lambda>r w' t. same_outside w w' \<and> P r (replies (w_proc w) (w_trace w) t) \<and> Q r)"
    by (auto simp: does_def)
qed

lemma conv_fold:
  assumes "Inv [] s []"
    and "\<And>us x vs s cs. xs = us @ x # vs \<Longrightarrow> Inv us s cs \<Longrightarrow>
      conv (f x s) (\<lambda>r ds. case r of Ok s' \<Rightarrow> Inv (us @ [x]) s' (cs @ ds) | Exc e \<Rightarrow> E e (cs @ ds))"
  shows "conv (py_fold f xs s) (\<lambda>r cs. case r of Ok s' \<Rightarrow> Inv xs s' cs | Exc e \<Rightarrow> E e cs)"
proof -
  have "conv (py_fold f vs s) (\<lambda>r ds. case r of Ok s' \<Rightarrow> Inv xs s' (cs @ ds) | Exc e \<Rightarrow> E e (cs @ ds))"
    if "xs = us @ vs" "Inv us s cs" for us vs s cs
    using that
  proof (induction vs arbitrary: us s cs)
    case Nil
    then show ?case by (auto intro: conv_ret)
  next
    case (Cons x vs)
    show ?case unfolding py_fold.simps
    proof (rule conv_bind [OF assms(2) [OF Cons.prems]])
      fix s' ds assume "case Ok s' of Ok s' \<Rightarrow> Inv (us @ [x]) s' (cs @ ds) | Exc e \<Rightarrow> E e (cs @ ds)"
      with Cons.IH [of "us @ [x]" s' "cs @ ds"] Cons.prems(1)
      show "conv (py_fold f vs s') (\<lambda>r es. case r of Ok s' \<Rightarrow> Inv xs s' (cs @ ds @ es) | Exc e \<Rightarrow> E e (cs @ ds @ es))"
        unfolding append_assoc by simp
    qed simp
  qed
  from this [of "[]" xs s "[]"] assms(1) show ?thesis unfolding append_Nil by simp
qed

section \<open>Quiet computations\<close>

text \<open>No program is started.\<close>

abbreviation quiet :: "'a py \<Rightarrow> bool" where
  "quiet m \<equiv> conv m (\<lambda>_ cs. cs = [])"

lemma quiet_iff: "quiet m = silent m"
proof -
  have "(\<forall>c \<in> set cs. False) = (cs = [])" for cs :: conversation by (cases cs) auto
  then show ?thesis unfolding conv_starts_only [of m "\<lambda>_. False", symmetric] by presburger
qed

lemmas quiet_pure = so.frame_pure [where P = "\<lambda>_. False", folded quiet_iff]
lemmas quiet_basic = so.frame_basic [where P = "\<lambda>_. False", folded quiet_iff]
  so.frame_noise [where P = "\<lambda>_. False", folded quiet_iff]
lemmas quiet_files = so.frame_reads [where P = "\<lambda>_. False", folded quiet_iff]
lemmas quiet_rules = so.script_rules [where P = "\<lambda>_. False", folded quiet_iff]
lemmas quiet_intros = quiet_rules

text \<open>The conversation between two worlds of one run.\<close>

definition talk :: "world \<Rightarrow> conversation \<Rightarrow> world \<Rightarrow> bool" where
  "talk w cs w' = (w_proc w' = w_proc w \<and>
     (\<exists>t. w_trace w' = w_trace w @ t \<and> replies (w_proc w) (w_trace w) t = cs))"

lemma talk_trans: "talk w cs w1 \<Longrightarrow> talk w1 ds w2 \<Longrightarrow> talk w (cs @ ds) w2"
  unfolding talk_def by (metis append_assoc replies_append)

lemma conv_talk:
  assumes "conv m Q" "m w = (r, w')"
  shows "\<exists>cs. talk w cs w' \<and> Q r cs"
  using convD [OF assms] conv_same_proc [OF assms(1), of w] assms(2) unfolding talk_def by (metis snd_conv)

lemma quiet_talk: "quiet m \<Longrightarrow> m w = (r, w') \<Longrightarrow> talk w [] w'"
  using conv_talk by fastforce

text \<open>The same in terms of weakest preconditions.\<close>

lemma wp_conv:
  assumes "conv m Q"
  shows "wp m (\<lambda>x w'. \<exists>cs. talk w cs w' \<and> Q (Ok x) cs) (\<lambda>e w'. \<exists>cs. talk w cs w' \<and> Q (Exc e) cs) w"
  using conv_talk [OF assms] by (auto simp: wp_def split: prod.splits result.splits)

lemma wp_quiet: "quiet m \<Longrightarrow> wp m (\<lambda>_. talk w []) (\<lambda>_. talk w []) w"
  by (drule wp_conv [of _ _ w]) simp

lemma talk_refl [simp]: "talk w [] w"
  by (simp add: talk_def)

lemma talk_noise: "talk w cs w' \<Longrightarrow> (\<And>c. e \<noteq> Spawn c) \<Longrightarrow> talk w cs (traced w' e)"
  by (cases e) (auto simp: talk_def)

lemma conv_quiet_bind:
  assumes "conv m (\<lambda>r cs. cs = [] \<and> P r)" "\<And>x. P (Ok x) \<Longrightarrow> conv (f x) Q" "\<And>e. P (Exc e) \<Longrightarrow> Q (Exc e) []"
  shows "conv (py_bind m f) Q"
  by (rule conv_bind [OF assms(1)]) (use assms(2,3) in auto)

section \<open>Threads\<close>

text \<open>A thread: its name and what it runs.\<close>

record thread =
  th_name :: string
  th_target :: "unit py"

end
