(* ===== verification/Project_Root.thy ===== *)
theory Project_Root
  imports Py_Conversation
begin

text \<open>
  \<open>.devkit/scripts/find_project_root.py\<close>: the nearest directory at or above the working
  directory that contains an entry \<open>devkit\<close>.
\<close>

definition root_not_found :: exn where
  "root_not_found = FileNotFoundError
     ''Could not find project root. Make sure you are in a devkit project.''"

text \<open>The loop over the working directory and its parents.\<close>

fun search_root :: "path list \<Rightarrow> path py" where
  "search_root [] = py_raise root_not_found"
| "search_root (p # ps) =
     py_bind (path_exists (path_sub p ''devkit'')) (\<lambda>found.
       if found then py_ret p else search_root ps)"

text \<open>\<open>Path(os.getenv("PWD", str(Path.cwd())))\<close>\<close>

definition current_dir :: "world \<Rightarrow> path" where
  "current_dir w = path_of (case map_of (w_environ w) ''PWD'' of
      Some d \<Rightarrow> d | None \<Rightarrow> path_str (cwd_path w))"

definition find_project_root :: "path py" where
  "find_project_root =
     py_bind (py_get current_dir) (\<lambda>d. search_root (d # path_parents d))"

definition find_project_root_main :: "unit py" where
  "find_project_root_main =
     py_try (py_bind find_project_root (\<lambda>root. py_print (path_str root)))
       is_FileNotFound
       (\<lambda>e. py_seq (py_eprint (''Error: '' @ exn_str e)) (sys_exit 1))"

section \<open>Correctness\<close>

text \<open>Whether a directory holds a \<open>devkit\<close> entry, as the script asks it.\<close>

abbreviation has_devkit :: "world \<Rightarrow> path \<Rightarrow> string + bool" where
  "has_devkit w p \<equiv> fs_exists (w_fs w) (w_cwd w) (path_sub p ''devkit'')"

lemma search_root_pure: "snd (search_root ps w) = w"
  by (induction ps) (auto simp: py_raise_def py_bind_def py_ret_def path_exists_def lift_probe_def
      split: sum.splits prod.splits result.splits)

lemma search_root_Ok:
  "search_root ps w = (Ok r, w') \<longleftrightarrow>
   w' = w \<and> (\<exists>us vs. ps = us @ r # vs \<and> has_devkit w r = Inr True \<and> (\<forall>u \<in> set us. has_devkit w u = Inr False))"
proof (induction ps)
  case Nil
  then show ?case by (simp add: py_raise_def)
next
  case (Cons p ps)
  show ?case
  proof (cases "has_devkit w p")
    case (Inl m)
    then have "search_root (p # ps) w \<noteq> (Ok r, w')"
      by (simp add: py_bind_def path_exists_def lift_probe_def)
    moreover have "\<not> (\<exists>us vs. p # ps = us @ r # vs \<and> has_devkit w r = Inr True \<and>
        (\<forall>u \<in> set us. has_devkit w u = Inr False))"
      using Inl by (auto simp: Cons_eq_append_conv)
    ultimately show ?thesis by blast
  next
    case (Inr b)
    show ?thesis
    proof (cases b)
      case True
      with Inr show ?thesis
        by (auto simp: py_bind_def path_exists_def lift_probe_def py_ret_def Cons_eq_append_conv)
    next
      case False
      with Inr have "search_root (p # ps) w = search_root ps w"
        by (simp add: py_bind_def path_exists_def lift_probe_def)
      moreover have "(\<exists>us vs. ps = us @ r # vs \<and> has_devkit w r = Inr True \<and> (\<forall>u \<in> set us. has_devkit w u = Inr False))
        \<longleftrightarrow> (\<exists>us vs. p # ps = us @ r # vs \<and> has_devkit w r = Inr True \<and> (\<forall>u \<in> set us. has_devkit w u = Inr False))"
        (is "?L \<longleftrightarrow> ?R")
      proof
        assume ?L
        then obtain us vs where "p # ps = (p # us) @ r # vs" "has_devkit w r = Inr True"
          "\<forall>u \<in> set (p # us). has_devkit w u = Inr False" using Inr False by auto
        then show ?R by blast
      next
        assume ?R
        then obtain us vs where *: "p # ps = us @ r # vs" "has_devkit w r = Inr True"
          "\<forall>u \<in> set us. has_devkit w u = Inr False" by blast
        with Inr False obtain us' where "us = p # us'" by (cases us) auto
        with * show ?L by auto
      qed
      ultimately show ?thesis by (simp only: Cons.IH)
    qed
  qed
qed

lemma search_root_not_found:
  "fst (search_root ps w) = Exc root_not_found \<longleftrightarrow> (\<forall>p \<in> set ps. has_devkit w p = Inr False)"
proof (induction ps)
  case Nil
  then show ?case by (simp add: py_raise_def)
next
  case (Cons p ps)
  then show ?case
    by (cases "has_devkit w p")
      (auto simp: py_bind_def path_exists_def lift_probe_def py_ret_def root_not_found_def split: if_splits)
qed

lemma search_root_outcome:
  "(\<exists>r. fst (search_root ps w) = Ok r) \<or> fst (search_root ps w) = Exc root_not_found \<or>
   (\<exists>m. fst (search_root ps w) = Exc (OSError m))"
proof (induction ps)
  case (Cons p ps)
  then show ?case
    by (cases "has_devkit w p") (auto simp: py_bind_def path_exists_def lift_probe_def py_ret_def)
qed (simp add: py_raise_def)

lemma find_project_root_eq:
  "find_project_root w = search_root (current_dir w # path_parents (current_dir w)) w"
  by (simp only: find_project_root_def py_bind_def py_get_def result.case prod.case)

lemma find_project_root_pure: "snd (find_project_root w) = w"
  unfolding find_project_root_eq by (rule search_root_pure)

lemma find_project_root_outcome:
  "(\<exists>r. fst (find_project_root w) = Ok r) \<or> fst (find_project_root w) = Exc root_not_found \<or>
   (\<exists>m. fst (find_project_root w) = Exc (OSError m))"
  unfolding find_project_root_eq by (rule search_root_outcome)

lemma quiet_find_project_root: "quiet find_project_root"
  by (rule quiet_pure) (rule find_project_root_pure)

lemma starts_only_find_project_root [intro, simp]: "starts_only P find_project_root"
  by (rule so.frame_pure) (rule find_project_root_pure)

lemma ancestors_iff: "q \<in> set (d # path_parents d) \<longleftrightarrow> is_relative_to d q"
  by (auto simp: is_relative_to_def)

text \<open>The candidates are listed nearest first: what precedes \<open>r\<close> lies strictly below it.\<close>

text \<open>The ancestors of a directory are its prefixes, the longest first.\<close>

definition ancestor :: "path \<Rightarrow> nat \<Rightarrow> path" where
  "ancestor d k = Path (proot d) (take k (tail d))"

lemma ancestors_nth: "i \<le> length (tail d) \<Longrightarrow> (d # path_parents d) ! i = ancestor d (length (tail d) - i)"
proof -
  have "d # path_parents d = map (ancestor d) (rev [0..<Suc (length (tail d))])"
    by (simp add: path_parents_def ancestor_def)
  then show "i \<le> length (tail d) \<Longrightarrow> ?thesis" by (simp only:) (simp add: rev_nth del: upt_Suc)
qed

lemma relative_ancestor: "is_relative_to d q \<longleftrightarrow> q = ancestor d (length (tail q)) \<and> length (tail q) \<le> length (tail d)"
  by (cases q) (auto simp: is_relative_to_iff ancestor_def prefix_def, metis append_take_drop_id)

lemma ancestor_relative: "j \<le> length (tail d) \<Longrightarrow> is_relative_to (ancestor d j) (ancestor d k) \<longleftrightarrow> min k (length (tail d)) \<le> j"
  by (auto simp: relative_ancestor ancestor_def min_def)

lemma ancestors_split:
  assumes "d # path_parents d = us @ r # vs"
  shows "set us = {q. is_relative_to d q \<and> is_relative_to q r \<and> q \<noteq> r}"
proof -
  let ?n = "length (tail d)" and ?l = "length us"
  have "length (us @ r # vs) = Suc ?n" unfolding assms [symmetric] by (simp add: path_parents_def)
  then have len: "?l \<le> ?n" by simp
  have nth: "(us @ r # vs) ! i = ancestor d (?n - i)" if "i \<le> ?n" for i
    using ancestors_nth [OF that] assms by simp
  have r: "r = ancestor d (?n - ?l)" using nth [OF len] by simp
  have us: "us ! i = ancestor d (?n - i)" if "i < ?l" for i
    using nth [of i] that len by (simp add: nth_append)
  have tail: "length (tail (ancestor d k)) = min ?n k" for k by (simp add: ancestor_def)
  show ?thesis
  proof (intro set_eqI iffI)
    fix q assume "q \<in> set us"
    then obtain i where i: "i < ?l" "q = ancestor d (?n - i)" using us by (metis in_set_conv_nth)
    then have "is_relative_to d q" by (simp add: relative_ancestor tail)
    moreover have "is_relative_to q r" using i len r by (simp add: ancestor_relative)
    moreover have "length (tail q) \<noteq> length (tail r)" using i len r tail by simp
    ultimately show "q \<in> {q. is_relative_to d q \<and> is_relative_to q r \<and> q \<noteq> r}" by blast
  next
    fix q assume q: "q \<in> {q. is_relative_to d q \<and> is_relative_to q r \<and> q \<noteq> r}"
    define k where "k = length (tail q)"
    from q have k: "q = ancestor d k" "k \<le> ?n" unfolding k_def by (simp_all add: relative_ancestor [of d])
    with q r len have "?n - ?l \<le> k" by (auto simp: ancestor_relative)
    moreover have "k \<noteq> ?n - ?l" using q k r by auto
    ultimately have "?n - k < ?l" "?n - (?n - k) = k" using k(2) len by auto
    with us [of "?n - k"] k(1) show "q \<in> set us" by (metis nth_mem)
  qed
qed

text \<open>
  C34. The script returns \<open>r\<close> exactly when \<open>r\<close> is the working directory or one of its parents,
  \<open>r\<close> contains \<open>devkit\<close>, and no directory strictly between the working directory and \<open>r\<close> does;
  it changes nothing.
\<close>

theorem find_project_root_nearest:
  "find_project_root w = (Ok r, w') \<longleftrightarrow>
   w' = w \<and> is_relative_to (current_dir w) r \<and>
   fs_exists (w_fs w) (w_cwd w) (path_sub r ''devkit'') = Inr True \<and>
   (\<forall>q. is_relative_to (current_dir w) q \<and> is_relative_to q r \<and> q \<noteq> r \<longrightarrow>
      fs_exists (w_fs w) (w_cwd w) (path_sub q ''devkit'') = Inr False)"
    (is "?L \<longleftrightarrow> ?R")
proof -
  let ?d = "current_dir w"
  note step = find_project_root_eq [of w]
  show ?thesis
  proof
    assume ?L
    then obtain us vs where *: "w' = w" "?d # path_parents ?d = us @ r # vs"
      "has_devkit w r = Inr True" "\<forall>u \<in> set us. has_devkit w u = Inr False"
      unfolding step search_root_Ok by blast
    from *(2) have "is_relative_to ?d r" unfolding ancestors_iff [symmetric] by simp
    with * ancestors_split [OF *(2)] show ?R by blast
  next
    assume R: ?R
    then obtain us vs where uv: "?d # path_parents ?d = us @ r # vs"
      unfolding ancestors_iff [symmetric] by (meson split_list)
    from R show ?L unfolding step search_root_Ok using uv ancestors_split [OF uv] by blast
  qed
qed

definition nested_project :: world where
  "nested_project = world_of (FDir [(''w'', FDir [(''devkit'', FDir []), (''src'', FDir [(''a'', FDir [])])])])
     [(''PWD'', ''/w/src/a'')] (\<lambda>_ _. Exited 0 [] [])"

theorem find_project_root_nearest_witness:
  "find_project_root nested_project = (Ok (Path ''/'' [''w'']), nested_project) \<and>
   fs_exists (w_fs nested_project) (w_cwd nested_project) (path_sub (Path ''/'' [''w'', ''src'']) ''devkit'')
     = Inr False"
proof -
  have "fst (find_project_root nested_project) = Ok (Path ''/'' [''w''])" by code_simp
  then have run: "find_project_root nested_project = (Ok (Path ''/'' [''w'']), nested_project)"
    using find_project_root_pure by (metis prod.collapse)
  have q: "is_relative_to (current_dir nested_project) (Path ''/'' [''w'', ''src''])"
    "is_relative_to (Path ''/'' [''w'', ''src'']) (Path ''/'' [''w''])"
    by code_simp+
  show ?thesis using run q find_project_root_nearest [THEN iffD1, OF run] by simp
qed

text \<open>
  Run as a program, the script exits with status 1 exactly when neither the working
  directory nor any of its parents contains \<open>devkit\<close>.
\<close>

lemma find_project_root_main_fails:
  "fst (find_project_root_main w) = Exc (SystemExit 1) \<longleftrightarrow>
   (\<forall>p. is_relative_to (current_dir w) p \<longrightarrow>
      fs_exists (w_fs w) (w_cwd w) (path_sub p ''devkit'') = Inr False)"
proof -
  let ?d = "current_dir w"
  have eq: "fst (find_project_root_main w) = Exc (SystemExit 1) \<longleftrightarrow>
      fst (find_project_root w) = Exc root_not_found"
    using find_project_root_outcome [of w]
    by (elim disjE exE)
      (auto simp: find_project_root_main_def root_not_found_def is_FileNotFound_def py_simps split: prod.splits)
  show ?thesis
    unfolding eq find_project_root_eq search_root_not_found ancestors_iff [symmetric] by blast
qed

end
