(* ===== verification/Bep.thy ===== *)
theory Bep
  imports Project_Root
begin

text \<open>
  \<open>.devkit/scripts/bep.py\<close>: runs \<open>bazel\<close> once per target to record its build events. The names of
  the two temporary directories of a run come from the parameter \<open>tmp\<close>; the directories exist
  only while the command runs and are not kept in the file tree.
\<close>

type_synonym tmp_names = "nat \<Rightarrow> event list \<Rightarrow> string"

section \<open>Running a command\<close>

text \<open>The two \<open>except\<close> clauses.\<close>

definition command_failed :: "string list \<Rightarrow> exn \<Rightarrow> 'a py" where
  "command_failed cmd_args e =
     (case e of
        CalledProcessError cmd n out err \<Rightarrow>
          py_seq (py_eprint (''Error: Command '' @ [CHR 0x27] @ py_join '' '' cmd @ [CHR 0x27] @
                    '' failed with exit code '' @ str_int n @ ''.''))
          (py_seq (py_when (out \<noteq> []) (py_eprint (''STDOUT:'' @ [CHR 0x0A] @ out)))
          (py_seq (py_when (err \<noteq> []) (py_eprint (''STDERR:'' @ [CHR 0x0A] @ err)))
          (sys_exit 1)))
      | _ \<Rightarrow>
          py_bind (of_opt IndexError (case cmd_args of [] \<Rightarrow> None | c # _ \<Rightarrow> Some c)) (\<lambda>c.
          py_seq (py_eprint (''Error: Command not found: '' @ c))
          (sys_exit 1)))"

definition run_command :: "string list \<Rightarrow> bool \<Rightarrow> string py" where
  "run_command cmd_args capture_output =
     py_seq (log_info ''Executing: %s'' [py_join '' '' cmd_args])
       (py_try
         (py_bind (run_checked capture_output cmd_args) (\<lambda>(out, err).
            py_ret (if capture_output then py_strip out else [])))
         (\<lambda>e. is_CalledProcess e \<or> is_FileNotFound e)
         (command_failed cmd_args))"

section \<open>One target\<close>

definition bazel_command :: "path \<Rightarrow> string \<Rightarrow> string \<Rightarrow> string \<Rightarrow> path \<Rightarrow> string \<Rightarrow> string list" where
  "bazel_command project_root cache_dir registry_cache_dir bazel_target output_path command =
     [path_str (path_sub (path_sub project_root ''devkit'') ''build''),
      ''bazel'',
      ''--output_base='' @ cache_dir,
      command,
      ''--build_event_json_file='' @ path_str output_path,
      ''--repository_cache='' @ registry_cache_dir,
      bazel_target] @
     (if command = ''build'' then [''--noremote_accept_cached''] else [])"

definition generate_build_event_json :: "tmp_names \<Rightarrow> string \<Rightarrow> path \<Rightarrow> string \<Rightarrow> unit py" where
  "generate_build_event_json tmp bazel_target output_path command =
     py_bind find_project_root (\<lambda>project_root.
     py_bind (py_get (\<lambda>w. (tmp 0 (w_trace w), tmp 1 (w_trace w)))) (\<lambda>(d1, d2).
     py_bind (run_command (bazel_command project_root d1 d2 bazel_target output_path command) False)
       (\<lambda>_. py_ret ())))"

definition process_target_and_save :: "tmp_names \<Rightarrow> string \<Rightarrow> path \<Rightarrow> string \<Rightarrow> unit py" where
  "process_target_and_save tmp bazel_target output_file command =
     py_seq (log_info ''--- Processing: %s ---'' [bazel_target])
     (py_seq (generate_build_event_json tmp bazel_target output_file command)
     (log_info ''--- Finished processing %s ---'' [bazel_target]))"

section \<open>All targets\<close>

definition sanitized_target_name :: "string \<Rightarrow> string" where
  "sanitized_target_name t = last (split_on (CHR ''/'') (py_replace '':'' ''_'' t))"

definition target_output :: "path \<Rightarrow> string \<Rightarrow> path" where
  "target_output output_dir t = path_sub (path_sub output_dir (sanitized_target_name t)) ''bep.json''"

definition generate_bazel_events_folder :: "tmp_names \<Rightarrow> string list \<Rightarrow> string \<Rightarrow> path \<Rightarrow> unit py" where
  "generate_bazel_events_folder tmp targets command output_dir =
     py_seq (mkdir_p output_dir)
     (if length targets = 0
      then process_target_and_save tmp ''//...'' (path_sub output_dir ''bep.json'') command
      else py_for targets (\<lambda>t.
        py_seq (mkdir_p (path_parent (target_output output_dir t)))
          (process_target_and_save tmp t (target_output output_dir t) command)))"

definition bep_parser :: parser where
  "bep_parser = \<lparr>p_opts =
     [help_opt,
      mk_opt [''--targets''] ''targets'' NPlus,
      (mk_opt [''--command''] ''command'' NOne)\<lparr>o_choices := Some [''fetch'', ''build'']\<rparr>,
      mk_opt [''--output_dir''] ''output_dir'' NOne,
      mk_opt [''--devkit-log-file''] ''devkit_log_file'' NOne],
     p_positional = None\<rparr>"

definition bep_main :: "tmp_names \<Rightarrow> string list \<Rightarrow> unit py" where
  "bep_main tmp argv =
     py_bind (parse_args bep_parser argv) (\<lambda>args.
     py_seq (basic_config (arg_value args ''devkit_log_file''))
     (py_seq (generate_bazel_events_folder tmp (arg_list args ''targets'')
                (arg_default args ''command'' ''fetch'')
                (path_of (arg_default args ''output_dir'' ''bazel-bep'')))
     (py_print ''All targets processed successfully.'')))"

section \<open>Lemmas\<close>

text \<open>How a command ends the program: not at all if it succeeds, with status 1 if it fails or is not found; any other
  failure to start it is raised.\<close>

definition command_end :: "proc_outcome \<Rightarrow> unit result" where
  "command_end x =
     (case x of
        Exited n _ _ \<Rightarrow> if n = 0 then Ok () else Exc (SystemExit 1)
      | LaunchFailed e \<Rightarrow> Exc (if is_CalledProcess e \<or> is_FileNotFound e then SystemExit 1 else e))"

lemma command_failed_exits:
  assumes "cmd \<noteq> []"
  shows "conv (command_failed cmd e) (\<lambda>r cs. r = Exc (SystemExit 1) \<and> cs = [])"
  using assms unfolding command_failed_def
  by (cases cmd; cases e) (auto simp: py_when_def of_opt_def py_seq_def intro!: conv_bind [where P = "\<lambda>r cs. cs = [] \<and> (\<exists>x. r = Ok x)"]
      conv_noise conv_exit conv_ret)

lemma checked_end:
  "command_end x = (case checked_result capture cmd x of
     Ok _ \<Rightarrow> Ok () | Exc e \<Rightarrow> Exc (if is_CalledProcess e \<or> is_FileNotFound e then SystemExit 1 else e))"
  by (cases x) (simp_all add: checked_result_def command_end_def is_CalledProcess_def)

lemma conv_run_command:
  assumes "cmd \<noteq> []"
  shows "conv (run_command cmd capture) (\<lambda>r cs. \<exists>x. cs = [(cmd, x)] \<and> map_result (\<lambda>_. ()) r = command_end x)"
  unfolding run_command_def
proof (rule conv_seq_quiet, simp add: conv_noise, rule conv_try)
  show "conv (py_bind (run_checked capture cmd) (\<lambda>(out, err). py_ret (if capture then py_strip out else [])))
      (\<lambda>r cs. \<exists>x. cs = [(cmd, x)] \<and>
         ((\<exists>y z. checked_result capture cmd x = Ok y \<and> r = Ok z) \<or> (\<exists>e. checked_result capture cmd x = Exc e \<and> r = Exc e)))"
    by (rule conv_bind [OF conv_checked [where Q = "\<lambda>r cs. \<exists>x. r = checked_result capture cmd x \<and> cs = [(cmd, x)]"]])
      (auto intro!: conv_ret dest: sym split: prod.split)
qed (auto simp: checked_end [of _ capture cmd] intro!: conv_mono [OF command_failed_exits [OF assms]])

text \<open>A command that \<open>bep\<close> may start for a target, and what is started for one target: nothing if
  the preparation raises, one command otherwise, which decides how it ends.\<close>

definition bep_command_for :: "string \<Rightarrow> path \<Rightarrow> string \<Rightarrow> string list \<Rightarrow> bool" where
  "bep_command_for command out t c = (\<exists>r d1 d2. c = bazel_command r d1 d2 t out command)"

definition one_target :: "string \<Rightarrow> path \<Rightarrow> string \<Rightarrow> unit result \<Rightarrow> conversation \<Rightarrow> bool" where
  "one_target command out b r cs =
     ((\<exists>e. r = Exc e \<and> cs = []) \<or> (\<exists>c x. cs = [(c, x)] \<and> bep_command_for command out b c \<and> r = command_end x))"

lemma quiet_mkdir: "quiet (mkdir_p d)"
  by (intro quiet_intros)

lemma conv_target:
  "conv (py_seq (mkdir_p d) (process_target_and_save tmp b out command)) (one_target command out b)"
proof -
  have run: "conv (py_bind (run_command (bazel_command p d1 d2 b out command) False) (\<lambda>_. py_ret ())) (one_target command out b)"
    for p d1 d2
    by (rule conv_bind [OF conv_run_command])
      (auto simp: bazel_command_def one_target_def bep_command_for_def intro!: conv_ret)
  have "conv (generate_build_event_json tmp b out command) (one_target command out b)"
    unfolding generate_build_event_json_def
    by (rule conv_quiet_bind [where P = "\<lambda>_. True"])
      (auto simp: quiet_find_project_root one_target_def quiet_basic intro!: run conv_quiet_bind [where P = "\<lambda>_. True"])
  then have "conv (py_seq (generate_build_event_json tmp b out command) (log_info f xs)) (one_target command out b)" for f xs
    by (rule conv_seq) (auto intro!: conv_noise)
  then have "conv (process_target_and_save tmp b out command) (one_target command out b)"
    unfolding process_target_and_save_def by (rule conv_seq_quiet [OF conv_noise(1), rotated]) simp
  then show ?thesis by (intro conv_seq [OF quiet_mkdir]) (simp_all, simp add: one_target_def)
qed

text \<open>The loop: one command per target, in order, and none after one that failed, which decides the end.\<close>

definition targets_done :: "string \<Rightarrow> (string \<Rightarrow> path) \<Rightarrow> string list \<Rightarrow> unit result \<Rightarrow> conversation \<Rightarrow> bool" where
  "targets_done command out bs r cs = (\<exists>k \<le> length bs.
     list_all2 (\<lambda>b c. bep_command_for command (out b) b (fst c)) (take k bs) cs \<and>
     (\<forall>c \<in> set (butlast cs). command_end (snd c) = Ok ()) \<and>
     (cs \<noteq> [] \<and> command_end (snd (last cs)) \<noteq> Ok () \<longrightarrow> r = command_end (snd (last cs))) \<and>
     (r = Ok () \<longrightarrow> k = length bs))"

lemma targets_done_Cons:
  assumes "one_target command (out b) b (Ok ()) cs" "targets_done command out bs r ds"
  shows "targets_done command out (b # bs) r (cs @ ds)"
proof -
  from assms(1) obtain c x where c: "cs = [(c, x)]" "bep_command_for command (out b) b c" "command_end x = Ok ()"
    by (auto simp: one_target_def)
  from assms(2) obtain k where k: "k \<le> length bs" "list_all2 (\<lambda>b c. bep_command_for command (out b) b (fst c)) (take k bs) ds"
    "\<forall>c \<in> set (butlast ds). command_end (snd c) = Ok ()"
    "ds \<noteq> [] \<and> command_end (snd (last ds)) \<noteq> Ok () \<longrightarrow> r = command_end (snd (last ds))" "r = Ok () \<longrightarrow> k = length bs"
    unfolding targets_done_def by blast
  show ?thesis unfolding targets_done_def using c k by (intro exI [of _ "Suc k"]) auto
qed

lemma targets_done_stop:
  assumes "one_target command (out b) b (Exc e) cs"
  shows "targets_done command out (b # bs) (Exc e) cs"
  using assms unfolding one_target_def
proof (elim disjE exE conjE)
  fix c x assume "cs = [(c, x)]" "bep_command_for command (out b) b c" "Exc e = command_end x"
  then show ?thesis unfolding targets_done_def by (intro exI [of _ 1]) auto
qed (auto simp: targets_done_def intro: exI [of _ 0])

lemma conv_targets:
  "conv (py_for bs (\<lambda>b. py_seq (mkdir_p (f b)) (process_target_and_save tmp b (out b) command))) (targets_done command out bs)"
proof (induction bs)
  case Nil
  show ?case by (simp add: targets_done_def conv_ret)
next
  case (Cons b bs)
  show ?case unfolding py_for.simps
    by (rule conv_seq [OF conv_target]) (auto intro: conv_mono [OF Cons.IH] targets_done_Cons targets_done_stop)
qed

text \<open>
  C35. For a non-empty list of targets, the commands \<open>bep\<close> starts are \<open>bazel\<close> runs for the targets of
  an initial segment of the list, one each, in order, each writing to its own target's output
  file name, up to the first failure: every command but the last has succeeded, and if the last one failed or was not found the
  program exits with status 1 and starts no other. Every target has been run, successfully, when the function returns normally.
\<close>

theorem bep_runs_targets_in_order:
  assumes "targets \<noteq> []"
    and "generate_bazel_events_folder tmp targets command output_dir w = (r, w')"
  shows "\<exists>t k cs. w_trace w' = w_trace w @ t \<and> replies (w_proc w) (w_trace w) t = cs \<and> k \<le> length targets \<and>
     list_all2 (\<lambda>b c. bep_command_for command (target_output output_dir b) b (fst c)) (take k targets) cs \<and>
     (\<forall>c \<in> set (butlast cs). command_end (snd c) = Ok ()) \<and>
     (cs \<noteq> [] \<and> command_end (snd (last cs)) \<noteq> Ok () \<longrightarrow> r = command_end (snd (last cs))) \<and>
     (r = Ok () \<longrightarrow> k = length targets)"
proof -
  have "conv (generate_bazel_events_folder tmp targets command output_dir) (targets_done command (target_output output_dir) targets)"
    unfolding generate_bazel_events_folder_def using assms(1)
    by (auto intro!: conv_seq [OF quiet_mkdir] conv_targets) (auto simp: targets_done_def intro: exI [of _ 0])
  from this assms(2) obtain t where t: "w_trace w' = w_trace w @ t"
    "targets_done command (target_output output_dir) targets r (replies (w_proc w) (w_trace w) t)" by (rule convD)
  from t(2) show ?thesis unfolding targets_done_def using t(1) by (elim exE conjE, intro exI conjI) (assumption | rule refl)+
qed

text \<open>Two targets of which the first build fails: the second is not started.\<close>

definition bep_world :: world where
  "bep_world = nested_project\<lparr>w_proc := (\<lambda>t c. Exited (if ''//b:y'' \<in> set c then 1 else 0) [] [])\<rparr>"

definition tmp0 :: tmp_names where
  "tmp0 k t = (if k = 0 then ''/tmp/c'' else ''/tmp/r'')"

theorem bep_runs_targets_in_order_witness:
  "\<exists>c w'. generate_bazel_events_folder tmp0 [''//b:y'', ''//a:x''] ''build'' (path_of ''out'') bep_world = (Exc (SystemExit 1), w') \<and>
     replies (w_proc bep_world) [] (w_trace w') = [(c, Exited 1 [] [])] \<and>
     bep_command_for ''build'' (target_output (path_of ''out'') ''//b:y'') ''//b:y'' c"
proof -
  let ?m = "generate_bazel_events_folder tmp0 [''//b:y'', ''//a:x''] ''build'' (path_of ''out'')"
  have eval: "map snd (replies (w_proc bep_world) [] (w_trace (snd (?m bep_world)))) = [Exited 1 [] []]" "w_trace bep_world = []"
    by code_simp+
  obtain r w' where run: "?m bep_world = (r, w')" by (rule prod.exhaust)
  from eval(1) obtain c where cs: "replies (w_proc bep_world) [] (w_trace w') = [(c, Exited 1 [] [])]" unfolding run by auto
  from bep_runs_targets_in_order [OF list.distinct(2) run] eval(2) cs obtain k where
    "list_all2 (\<lambda>b c. bep_command_for ''build'' (target_output (path_of ''out'') b) b (fst c)) (take k [''//b:y'', ''//a:x'']) [(c, Exited 1 [] [])]"
    "r = command_end (Exited 1 [] [])" by (auto simp: command_end_def)
  then show ?thesis using run cs by (cases k) (auto simp: command_end_def)
qed

lemma last_split_on_append: "last (split_on c (xs @ c # ys)) = last (split_on c ys)"
proof (induction xs)
  case (Cons x xs)
  have "tl (split_on c (xs @ c # ys)) \<noteq> []" by (induction xs) auto
  with Cons show ?case by (simp add: last_tl)
qed simp

lemma py_replace_char: "py_replace [a] [b] s = map (\<lambda>c. if c = a then b else c) s"
proof (induction s)
  case (Cons x s)
  then show ?case by (auto simp: py_replace.simps [of _ _ "x # s"] py_startswith_iff)
qed (simp add: py_replace.simps)

text \<open>
  Only the part of a label after its last slash names the output file: equally named targets of
  two packages write their events to the same file.
\<close>

lemma bep_output_collision:
  "target_output d (p @ CHR ''/'' # t) = target_output d (q @ CHR ''/'' # t)"
proof -
  have "sanitized_target_name (p @ CHR ''/'' # t) = sanitized_target_name t" for p
    by (simp add: sanitized_target_name_def py_replace_char last_split_on_append)
  then show ?thesis by (simp add: target_output_def)
qed

end
