(* ===== verification/Bootstrap.thy ===== *)
theory Bootstrap
  imports Project_Root
begin

text \<open>
  \<open>.devkit/scripts/bootstrap.py\<close>: instantiates a directory of Jinja2 templates. Jinja2 is a
  parameter: \<open>j_parse\<close> is \<open>Environment.from_string\<close>, \<open>j_render\<close> is \<open>Template.render\<close>, which may
  read included templates from the file tree it is given. The directory walk is taken from the
  tree as it is when copying starts: the output directory lies outside the template.
\<close>

section \<open>Jinja2 as the script sees it\<close>

datatype template_error =
    TemplateSyntaxError int string
  | UndefinedError string
  | TemplateOther string

record jinja =
  j_parse :: "string \<Rightarrow> template_error option"
  j_render :: "fnode \<Rightarrow> path \<Rightarrow> string \<Rightarrow> (string \<times> string) list \<Rightarrow> template_error + string"

section \<open>Copying\<close>

definition source_excerpt :: "string list \<Rightarrow> int \<Rightarrow> string list" where
  "source_excerpt ls lineno =
     map (\<lambda>i. ''    '' @ pad_left 4 (str_int (i + 1)) @ (if i + 1 = lineno then '' >'' else ''  '') @ '' '' @ ls ! nat i)
       [max 0 (lineno - 4)..min (int (length ls)) (lineno + 3) - 1]"

text \<open>The two \<open>except\<close> clauses; any other error of Jinja2 propagates.\<close>

definition template_failed :: "path \<Rightarrow> string \<Rightarrow> template_error \<Rightarrow> bool py" where
  "template_failed src_file_path content e =
     (case e of
        TemplateSyntaxError lineno msg \<Rightarrow>
          py_seq (py_eprint (''Error in template: '' @ path_str src_file_path))
          (py_seq (py_eprint (''  Line '' @ str_int lineno @ '': '' @ msg))
          (py_seq (py_for (source_excerpt (py_splitlines content) lineno) py_eprint)
          (py_ret True)))
      | UndefinedError msg \<Rightarrow>
          py_seq (py_eprint (''Error in template: '' @ path_str src_file_path))
          (py_seq (py_eprint (''  '' @ msg))
          (py_ret True))
      | TemplateOther msg \<Rightarrow> py_raise (RuntimeError msg))"

definition template_file ::
  "jinja \<Rightarrow> path \<Rightarrow> path \<Rightarrow> (string \<times> string) list \<Rightarrow> path \<Rightarrow> string \<Rightarrow> bool py" where
  "template_file J src_dir dest_dir context dirpath filename =
     (if py_endswith filename ''.include'' then py_ret False
      else
        let src_file_path = path_sub dirpath filename in
        py_bind (of_opt (ValueError ''not in the subpath'') (relative_to src_file_path src_dir)) (\<lambda>relative_path.
        let dest_file_path = path_div dest_dir relative_path in
        py_seq (mkdir_p (path_parent dest_file_path))
        (py_bind (read_file src_file_path) (\<lambda>text.
        let content = universal_newlines text in
        case j_parse J content of
          Some e \<Rightarrow> template_failed src_file_path content e
        | None \<Rightarrow>
            py_seq (write_file dest_file_path [])
            (py_bind (py_get (\<lambda>w. j_render J (w_fs w) src_dir content context)) (\<lambda>out.
            case out of
              Inl e \<Rightarrow> template_failed src_file_path content e
            | Inr t \<Rightarrow>
                py_seq (write_file dest_file_path (t @ [CHR 0x0A]))
                (py_seq (emit (CopyMode src_file_path dest_file_path))
                (py_ret False))))))))"

definition copy_and_template :: "jinja \<Rightarrow> path \<Rightarrow> path \<Rightarrow> (string \<times> string) list \<Rightarrow> bool py" where
  "copy_and_template J src_dir dest_dir context =
     py_bind (py_get (\<lambda>w. os_walk_follow (w_fs w) (w_cwd w) src_dir)) (\<lambda>steps.
     py_fold (\<lambda>(dirpath, dirs, filenames) err.
       py_fold (\<lambda>filename err.
         py_bind (template_file J src_dir dest_dir context dirpath filename) (\<lambda>b. py_ret (err \<or> b)))
         filenames err)
       steps False)"

section \<open>The program\<close>

definition bootstrap_parser :: parser where
  "bootstrap_parser = \<lparr>p_opts =
     [help_opt,
      (mk_opt [''--template''] ''template'' NOne)\<lparr>o_required := True\<rparr>,
      mk_opt [''--templates-root''] ''templates_root'' NOne,
      mk_opt [''--output-dir''] ''output_dir'' NOne,
      mk_opt [''--args''] ''args'' NStar,
      mk_opt [''--devkit-log-file''] ''devkit_log_file'' NOne],
     p_positional = None\<rparr>"

text \<open>The loop that builds the templating context.\<close>

definition add_argument :: "string \<Rightarrow> (string \<times> string) list \<Rightarrow> (string \<times> string) list py" where
  "add_argument arg context =
     (if CHR ''='' \<notin> set arg
      then py_seq (py_eprint (''Invalid argument: '' @ arg @ ''. Expected key=value.'')) (sys_exit 1)
      else let (k, v) = split_once (CHR ''='') arg in py_ret (dict_put k v context))"

text \<open>\<open>resolve(strict=True)\<close>\<close>

definition path_resolve_strict :: "path \<Rightarrow> path py" where
  "path_resolve_strict p = (\<lambda>w. case fs_stat (w_fs w) (w_cwd w) p of
      Inl ENOENT \<Rightarrow> (Exc (FileNotFoundError (path_str p)), w)
    | Inl ELOOP \<Rightarrow> (Exc (RuntimeError (''Symlink loop from '' @ path_str p)), w)
    | Inl _ \<Rightarrow> (Exc (OSError (path_str p)), w)
    | Inr _ \<Rightarrow> path_resolve p w)"

definition bootstrap_main :: "jinja \<Rightarrow> string \<Rightarrow> string list \<Rightarrow> unit py" where
  "bootstrap_main J script_file argv =
     py_bind (parse_args bootstrap_parser argv) (\<lambda>args.
     py_seq (basic_config (arg_value args ''devkit_log_file''))
     (let template = arg_default args ''template'' [] in
     py_bind (py_fold add_argument (arg_list args ''args'') []) (\<lambda>context.
     py_bind (py_get (\<lambda>w. path_of (arg_default args ''output_dir'' (path_str (cwd_path w))))) (\<lambda>dest_dir.
     py_bind (case arg_value args ''templates_root'' of
                Some d \<Rightarrow> py_ret (path_of d)
              | None \<Rightarrow> py_bind (path_resolve (path_of script_file)) (\<lambda>p.
                  py_ret (path_sub (path_parent (path_parent p)) ''templates''))) (\<lambda>templates_root_dir.
     py_bind (path_resolve (path_sub templates_root_dir template)) (\<lambda>template_dir0.
     py_bind (py_try (path_resolve_strict template_dir0) is_FileNotFound
                (\<lambda>e. py_seq (py_eprint (''Template '' @ [CHR 0x27] @ template @ [CHR 0x27] @ '' not found at '' @
                         [CHR 0x27] @ path_str template_dir0 @ [CHR 0x27])) (sys_exit 1))) (\<lambda>template_dir.
     py_seq (py_try
        (py_bind (copy_and_template J template_dir dest_dir context) (\<lambda>err.
           py_when err (py_seq (py_eprint ''Errors occurred during templating.'') (sys_exit 1))))
        is_Exception
        (\<lambda>e. py_seq (py_eprint (''An error occurred: '' @ exn_str e)) (sys_exit 1)))
     (py_print (''Project bootstrapped with '' @ [CHR 0x27] @ template @ [CHR 0x27] @ '' template.'')))))))))"

section \<open>Correctness\<close>

text \<open>What went to standard error.\<close>

fun stderr_of :: "event list \<Rightarrow> string list" where
  "stderr_of [] = []"
| "stderr_of (Stderr s # es) = s # stderr_of es"
| "stderr_of (_ # es) = stderr_of es"

lemma stderr_of_append [simp]: "stderr_of (xs @ ys) = stderr_of xs @ stderr_of ys"
  by (induction xs rule: stderr_of.induct) auto

lemma does_quiet:
  assumes "\<And>r w'. m w = (r, w') \<Longrightarrow> w_trace w' = w_trace w \<and> Q r w' []"
  shows "does m w Q"
  using assms [of "fst (m w)" "snd (m w)"] by (auto simp: does_def)

lemma does_fs_quiet:
  assumes "\<And>r w'. Q r w' []"
  shows "does (mkdir_p p) w Q" "does (write_file p t) w Q"
  by (auto intro!: does_quiet assms simp: mkdir_p_def write_file_def split: sum.splits)

lemma does_read_quiet:
  assumes "\<And>r. Q r w []"
  shows "does (read_file p) w Q"
  by (auto intro!: does_quiet assms simp: read_file_def split: sum.splits option.splits fs_error.splits)

text \<open>The flag after a step that ended normally: set before, or something was reported.\<close>

definition flagged :: "bool \<Rightarrow> bool result \<Rightarrow> event list \<Rightarrow> bool" where
  "flagged err r t = (\<forall>b. r = Ok b \<longrightarrow> b = (err \<or> stderr_of t \<noteq> []))"

lemma flagged_simps [simp]:
  "flagged err (Exc e) t" "flagged err (Ok b) t \<longleftrightarrow> b = (err \<or> stderr_of t \<noteq> [])"
  by (auto simp: flagged_def)

lemma flagged_append: "flagged err (Ok e) t \<Longrightarrow> flagged e r u \<Longrightarrow> flagged err r (t @ u)"
  by (cases r) auto

lemma flagged_fold:
  assumes "\<And>x err w. does (f x err) w (\<lambda>r w' t. flagged err r t)"
  shows "does (py_fold f xs err) w (\<lambda>r w' t. flagged err r t)"
proof (induction xs arbitrary: err w)
  case (Cons x xs)
  show ?case unfolding py_fold.simps
  proof (rule does_bind, rule does_mono [OF assms], split result.split, intro conjI allI impI)
    fix r t e and w' :: world assume "flagged err r t" "r = Ok e"
    then show "does (py_fold f xs e) w' (\<lambda>r2 w2 u. flagged err r2 (t @ u))"
      by (intro does_mono [OF Cons.IH] flagged_append) auto
  qed simp
qed simp

lemma template_failed_does:
  "does (template_failed p c e) w (\<lambda>r w' t. flagged False r t)"
proof -
  have lines: "does (py_for ls py_eprint) w (\<lambda>r w' t. r = Ok ())" for ls w
    by (induction ls arbitrary: w) (auto intro!: does_seq elim: does_mono)
  show ?thesis unfolding template_failed_def
    by (cases e) (auto intro!: does_seq does_mono [OF lines] split: result.splits)
qed

lemma template_file_does:
  "does (template_file J src dest ctx d f) w (\<lambda>r w' t. flagged False r t)"
proof -
  define render where "render p q c = py_bind (py_get (\<lambda>w. j_render J (w_fs w) src c ctx)) (\<lambda>out.
      case out of Inl e \<Rightarrow> template_failed p c e
      | Inr t \<Rightarrow> py_seq (write_file q (t @ [CHR 0x0A])) (py_seq (emit (CopyMode p q)) (py_ret False)))" for p q c
  have render: "does (render p q c) w' (\<lambda>r w'' t. flagged False r t)" for p q c w'
    unfolding render_def
    by (rule does_bind) (auto split: sum.split result.split intro!: does_seq does_fs_quiet template_failed_does)
  define go where "go p q c = (case j_parse J c of Some e \<Rightarrow> template_failed p c e
      | None \<Rightarrow> py_seq (write_file q []) (render p q c))" for p q c
  have go: "does (go p q c) w' (\<lambda>r w'' t. flagged False r t)" for p q c w'
    unfolding go_def
    by (auto split: option.split result.split intro!: does_seq does_fs_quiet template_failed_does render)
  show ?thesis
    unfolding template_file_def Let_def render_def [symmetric] go_def [symmetric] of_opt_def
    by (auto split: option.split result.split intro!: does_bind does_seq does_fs_quiet does_read_quiet go)
qed

lemma copy_and_template_does:
  "does (copy_and_template J src_dir dest_dir context) w (\<lambda>r w' t. flagged False r t)"
proof -
  have one: "does (py_bind (template_file J src_dir dest_dir context d f) (\<lambda>b. py_ret (err \<or> b))) w
      (\<lambda>r w' t. flagged err r t)" for d f err w
    by (rule does_bind, rule does_mono [OF template_file_does]) (auto split: result.split)
  show ?thesis
    unfolding copy_and_template_def
    by (rule does_bind) (auto intro!: flagged_fold one)
qed

text \<open>
  When copying ends normally, its result says whether it wrote anything to standard error: a
  template that fails to parse or has an undefined variable is reported and makes the result
  true, and a run in which every template renders reports nothing.
\<close>

lemma copy_and_template_reports:
  assumes "copy_and_template J src_dir dest_dir context w = (Ok b, w')"
  shows "\<exists>t. w_trace w' = w_trace w @ t \<and> b = (stderr_of t \<noteq> [])"
  using doesD [OF copy_and_template_does assms] by (metis flagged_simps(2))

text \<open>A Jinja2 in which a template is literal text, \<open>{%\<close> is a syntax error and \<open>{{\<close> an undefined
  variable, and a template directory with one good and one broken template.\<close>

definition literal_jinja :: jinja where
  "literal_jinja = \<lparr>
     j_parse = (\<lambda>c. if py_contains ''{%'' c then Some (TemplateSyntaxError 1 ''unexpected tag'') else None),
     j_render = (\<lambda>fs d c ctx. if py_contains ''{{'' c then Inl (UndefinedError ''undefined'') else Inr c)\<rparr>"

definition template_world :: world where
  "template_world = world_of
     (FDir [(''t'', FDir [(''a'', FFile ''x''), (''b'', FFile ''{%'')]), (''u'', FDir [(''a'', FFile ''x'')])])
     [] (\<lambda>_ _. Exited 0 [] [])"

text \<open>
  C37. When a template file is copied without an error being reported, the destination file holds
  the rendered template followed by a newline.
\<close>

theorem template_file_output:
  assumes "template_file J src_dir dest_dir context dirpath filename w = (Ok False, w')"
    and "\<not> py_endswith filename ''.include''"
  shows "\<exists>rel src fs t. relative_to (path_sub dirpath filename) src_dir = Some rel \<and>
     fs_mkdir_p (w_fs w) (w_cwd w) (path_parent (path_div dest_dir rel)) = Inr fs \<and>
     fs_read fs (w_cwd w) (path_sub dirpath filename) = Some src \<and>
     (\<exists>fs1. fs_write fs (w_cwd w) (path_div dest_dir rel) [] = Inr fs1 \<and>
        j_render J fs1 src_dir (universal_newlines src) context = Inr t) \<and>
     fs_read (w_fs w') (w_cwd w') (path_div dest_dir rel) = Some (t @ [CHR 0x0A])"
proof -
  have noflag: "template_failed p c e v \<noteq> (Ok False, w')" for p c e v
  proof
    assume "template_failed p c e v = (Ok False, w')"
    then show False
      by (cases e) (auto simp: template_failed_def py_simps split: prod.splits result.splits)
  qed
  from assms obtain rel where rel: "relative_to (path_sub dirpath filename) src_dir = Some rel"
    by (auto simp: template_file_def Let_def py_simps split: option.splits)
  let ?dst = "path_div dest_dir rel"
  from assms rel obtain fs where fs: "fs_mkdir_p (w_fs w) (w_cwd w) (path_parent ?dst) = Inr fs"
    by (auto simp: template_file_def Let_def py_simps mkdir_p_def split: sum.splits)
  from assms rel fs obtain src where src: "fs_read fs (w_cwd w) (path_sub dirpath filename) = Some src"
    by (auto simp: template_file_def Let_def py_simps mkdir_p_def read_file_def
        split: option.splits sum.splits fs_error.splits)
  let ?c = "universal_newlines src"
  from assms rel fs src have parse: "j_parse J ?c = None"
    by (auto simp: template_file_def Let_def py_simps mkdir_p_def read_file_def noflag split: option.splits)
  from assms rel fs src parse obtain fs1 where fs1: "fs_write fs (w_cwd w) ?dst [] = Inr fs1"
    by (auto simp: template_file_def Let_def py_simps mkdir_p_def read_file_def write_file_def split: sum.splits)
  from assms rel fs src parse fs1 obtain t where t: "j_render J fs1 src_dir ?c context = Inr t"
    by (auto simp: template_file_def Let_def py_simps mkdir_p_def read_file_def write_file_def noflag split: sum.splits)
  from assms rel fs src parse fs1 t obtain fs2 where fs2: "fs_write fs1 (w_cwd w) ?dst (t @ [CHR 0x0A]) = Inr fs2"
      "w_fs w' = fs2" "w_cwd w' = w_cwd w"
    by (auto simp: template_file_def Let_def py_simps mkdir_p_def read_file_def write_file_def split: sum.splits)
  from rel fs src fs1 t fs_read_write [OF fs2(1)] fs2(2,3) show ?thesis by auto
qed

theorem template_file_output_witness:
  "\<exists>t. fs_read (w_fs (snd (template_file literal_jinja (path_of ''/t'') (path_of ''/o'') [] (path_of ''/t'') ''a'' template_world)))
     [] (path_of ''/o/a'') = Some (t @ [CHR 0x0A])"
proof -
  let ?m = "template_file literal_jinja (path_of ''/t'') (path_of ''/o'') [] (path_of ''/t'') ''a''"
  have r: "fst (?m template_world) = Ok False" by code_simp
  have cwd: "w_cwd (snd (?m template_world)) = []" by code_simp
  have inc: "\<not> py_endswith ''a'' ''.include''" by code_simp
  have rel: "relative_to (path_sub (path_of ''/t'') ''a'') (path_of ''/t'') = Some (path_of ''a'')"
    "path_div (path_of ''/o'') (path_of ''a'') = path_of ''/o/a''" by code_simp+
  obtain w' where run: "?m template_world = (Ok False, w')" using r by (metis prod.collapse)
  from template_file_output [OF run inc] show ?thesis
    using cwd unfolding run snd_conv rel(1) by (metis option.inject rel(2))
qed

text \<open>Steps that end normally only without a report.\<close>

definition clean :: "'a py \<Rightarrow> bool" where
  "clean m = (\<forall>w. does m w (\<lambda>r w' t. \<forall>x. r = Ok x \<longrightarrow> stderr_of t = []))"

lemma clean_bind: "clean m \<Longrightarrow> (\<And>x. clean (f x)) \<Longrightarrow> clean (py_bind m f)"
  unfolding clean_def
proof (intro allI does_bind)
  fix w assume m: "\<forall>w. does m w (\<lambda>r w' t. \<forall>x. r = Ok x \<longrightarrow> stderr_of t = [])"
    and f: "\<And>x. \<forall>w. does (f x) w (\<lambda>r w' t. \<forall>x. r = Ok x \<longrightarrow> stderr_of t = [])"
  show "does m w (\<lambda>r w1 t. case r of
      Ok x \<Rightarrow> does (f x) w1 (\<lambda>r2 w2 u. \<forall>x. r2 = Ok x \<longrightarrow> stderr_of (t @ u) = [])
    | Exc e \<Rightarrow> \<forall>x. Exc e = Ok x \<longrightarrow> stderr_of t = [])"
    by (rule does_mono [OF m [rule_format]])
      (auto split: result.split intro: does_mono [OF f [rule_format]])
qed

lemma clean_quiet: "(\<And>w. w_trace (snd (m w)) = w_trace w) \<Longrightarrow> clean m"
  by (auto simp: clean_def does_def)

lemma clean_fail: "clean (py_seq (py_eprint s) (sys_exit n))"
  by (auto simp: clean_def intro!: does_seq)

lemma clean_steps:
  "clean (py_ret x)" "clean (py_get f)" "clean (path_resolve p)" "clean (path_resolve_strict p)"
  "clean (basic_config l)" "clean (parse_args P argv)" "clean (py_fold add_argument xs ctx)"
proof -
  show "clean (py_ret x)" "clean (py_get f)" "clean (path_resolve p)" "clean (path_resolve_strict p)"
    by (auto intro!: clean_quiet simp: py_ret_def py_get_def path_resolve_def path_resolve_strict_def
        split: option.splits sum.splits fs_error.splits)
  show "clean (basic_config l)"
    by (auto intro!: clean_quiet simp: basic_config_def write_file_def py_ret_def split: option.splits sum.splits)
  show "clean (parse_args P argv)"
    unfolding parse_args_def parse_known_args_def
    by (intro clean_bind) (auto simp: clean_def intro!: does_seq split: parse_outcome.splits)
  have "clean (add_argument a ctx)" for a ctx
    by (auto simp: add_argument_def clean_def Let_def intro!: does_seq split: prod.splits)
  then show "clean (py_fold add_argument xs ctx)"
    by (induction xs arbitrary: ctx) (auto intro!: clean_bind, simp add: clean_def)
qed

lemma clean_try:
  assumes "clean m" "\<And>e. clean (h e)" "\<And>e w. does (h e) w (\<lambda>r w' t. \<forall>x. r \<noteq> Ok x)"
  shows "clean (py_try m c h)"
  unfolding clean_def
proof (intro allI does_try)
  fix w
  have "does m w (\<lambda>r w' t. \<forall>x. r = Ok x \<longrightarrow> stderr_of t = [])" using assms(1) by (simp add: clean_def)
  then show "does m w (\<lambda>r w1 t. case r of Ok x \<Rightarrow> \<forall>y. Ok x = Ok y \<longrightarrow> stderr_of t = []
      | Exc e \<Rightarrow> if c e then does (h e) w1 (\<lambda>r2 w2 u. \<forall>x. r2 = Ok x \<longrightarrow> stderr_of (t @ u) = [])
                 else \<forall>x. Exc e = Ok x \<longrightarrow> stderr_of t = [])"
    by (rule does_mono) (auto split: result.split intro: does_mono [OF assms(3)])
qed

lemma clean_copy:
  "clean (py_bind (copy_and_template J s d ctx) (\<lambda>err.
     py_when err (py_seq (py_eprint e) (sys_exit n))))"
  unfolding clean_def
  by (intro allI does_bind does_mono [OF copy_and_template_does])
    (auto split: result.split simp: py_when_def intro!: does_seq)

definition prints_last :: "(string \<Rightarrow> bool) \<Rightarrow> 'a py \<Rightarrow> bool" where
  "prints_last P m = (\<forall>w. does m w (\<lambda>r w' t. \<forall>x. r = Ok x \<longrightarrow>
     (\<exists>t' s. t = t' @ [Stdout s] \<and> P s \<and> stderr_of t' = [])))"

lemma prints_last_print: "P (s @ [CHR 0x0A]) \<Longrightarrow> prints_last P (py_print s)"
  by (auto simp: prints_last_def)

lemma prints_last_bind:
  assumes "clean m" "\<And>x. prints_last P (f x)"
  shows "prints_last P (py_bind m f)"
  unfolding prints_last_def
proof (intro allI does_bind)
  fix w
  have "does m w (\<lambda>r w' t. \<forall>x. r = Ok x \<longrightarrow> stderr_of t = [])" using assms(1) by (simp add: clean_def)
  then show "does m w (\<lambda>r w1 t. case r of
      Ok x \<Rightarrow> does (f x) w1 (\<lambda>r2 w2 u. \<forall>x. r2 = Ok x \<longrightarrow>
                (\<exists>t' s. t @ u = t' @ [Stdout s] \<and> P s \<and> stderr_of t' = []))
    | Exc e \<Rightarrow> \<forall>x. Exc e = Ok x \<longrightarrow> (\<exists>t' s. t = t' @ [Stdout s] \<and> P s \<and> stderr_of t' = []))"
  proof (rule does_mono, split result.split, intro conjI allI impI)
    fix r :: "'a result" and t x and w1 :: world assume t: "\<forall>x. r = Ok x \<longrightarrow> stderr_of t = []" "r = Ok x"
    have "does (f x) w1 (\<lambda>r w' u. \<forall>x. r = Ok x \<longrightarrow> (\<exists>t' s. u = t' @ [Stdout s] \<and> P s \<and> stderr_of t' = []))"
      using assms(2) by (simp add: prints_last_def)
    then show "does (f x) w1 (\<lambda>r2 w2 u. \<forall>x. r2 = Ok x \<longrightarrow>
                (\<exists>t' s. t @ u = t' @ [Stdout s] \<and> P s \<and> stderr_of t' = []))"
      by (rule does_mono) (use t in \<open>auto intro: exI [of _ "t @ _"]\<close>)
  qed simp
qed

lemma prints_last_seq: "clean m \<Longrightarrow> prints_last P k \<Longrightarrow> prints_last P (py_seq m k)"
  unfolding py_seq_def by (rule prints_last_bind)

text \<open>
  C36. The program ends normally only when nothing was reported on standard error, and the last
  thing it did was to print that the project is bootstrapped.
\<close>

theorem bootstrap_main_success:
  assumes "bootstrap_main J script_file argv w = (Ok (), w')"
  shows "\<exists>t template. w_trace w' = w_trace w @ t @
     [Stdout (''Project bootstrapped with '' @ [CHR 0x27] @ template @ [CHR 0x27] @ '' template.'' @ [CHR 0x0A])] \<and>
     stderr_of t = []"
proof -
  define P where "P s = (\<exists>template. s = ''Project bootstrapped with '' @ [CHR 0x27] @ template @ [CHR 0x27] @
      '' template.'' @ [CHR 0x0A])" for s
  have fail: "does (py_seq (py_eprint s) (sys_exit n)) w (\<lambda>r w' t. \<forall>x. r \<noteq> Ok x)" for s n w
    by (auto intro!: does_seq)
  have root: "clean (case d of Some d \<Rightarrow> py_ret (path_of d)
      | None \<Rightarrow> py_bind (path_resolve p) (\<lambda>p. py_ret (g p)))" for d p and g :: "path \<Rightarrow> path"
    by (cases d) (auto intro: clean_steps clean_bind)
  have msg: "P ((''Project bootstrapped with '' @ [CHR 0x27] @ template @ [CHR 0x27] @ '' template.'') @ [CHR 0x0A])"
    for template unfolding P_def by (rule exI [of _ template]) simp
  have "prints_last P (bootstrap_main J script_file argv)"
    unfolding bootstrap_main_def Let_def
    by (intro prints_last_bind prints_last_seq clean_steps, rule root)
      (rule clean_try prints_last_print, rule clean_steps clean_copy msg, (rule clean_fail, rule fail)?)+
  then have D: "does (bootstrap_main J script_file argv) w (\<lambda>r w' t. \<forall>x. r = Ok x \<longrightarrow>
      (\<exists>t' s. t = t' @ [Stdout s] \<and> P s \<and> stderr_of t' = []))"
    unfolding prints_last_def by (rule spec)
  obtain t where t0: "w_trace w' = w_trace w @ t"
    and all: "\<forall>x. Ok () = Ok x \<longrightarrow> (\<exists>t' s. t = t' @ [Stdout s] \<and> P s \<and> stderr_of t' = [])"
    by (rule doesD [OF D assms])
  from all [rule_format, OF refl] obtain t' s where t: "t = t' @ [Stdout s]" "stderr_of t' = []" and s: "P s"
    by (elim exE conjE)
  from s [unfolded P_def] obtain template where s: "s = ''Project bootstrapped with '' @ [CHR 0x27] @ template @
      [CHR 0x27] @ '' template.'' @ [CHR 0x0A]" by (rule exE)
  show ?thesis by (intro exI [of _ t'] exI [of _ template] conjI) (simp_all only: t0 t s append_assoc)
qed

theorem bootstrap_main_success_witness:
  "\<exists>t template. w_trace (snd (bootstrap_main literal_jinja ''/s/bootstrap.py''
       [''--template'', ''u'', ''--templates-root'', ''/'', ''--output-dir'', ''/o''] template_world)) =
     t @ [Stdout (''Project bootstrapped with '' @ [CHR 0x27] @ template @ [CHR 0x27] @ '' template.'' @ [CHR 0x0A])] \<and>
     stderr_of t = []"
proof -
  let ?m = "bootstrap_main literal_jinja ''/s/bootstrap.py''
       [''--template'', ''u'', ''--templates-root'', ''/'', ''--output-dir'', ''/o'']"
  have r: "fst (?m template_world) = Ok ()" by code_simp
  have w: "w_trace template_world = []" by code_simp
  obtain w' where run: "?m template_world = (Ok (), w')" using r by (metis prod.collapse)
  from bootstrap_main_success [OF run] show ?thesis unfolding run snd_conv w append_Nil .
qed

end
