(* ===== verification/Docker_Config.thy ===== *)
theory Docker_Config
  imports Project_Root "HOL-Library.List_Lexorder" "HOL-Library.Char_ord"
begin

text \<open>
  The configuration part of \<open>.devkit/scripts/docker/build.py\<close>: the schema of \<open>devkit.json\<close>, its
  validation, and reading the registry settings. Parsed JSON is used without static types, so
  the operations Python applies to it are modelled with the exceptions they raise. The
  parameter \<open>rep\<close> is \<open>str()\<close> on values other than strings, whose text no statement depends on.
\<close>

section \<open>Dynamic operations on parsed JSON\<close>

definition py_typename :: "json \<Rightarrow> string" where
  "py_typename v = (case v of JNull \<Rightarrow> ''NoneType'' | JBool _ \<Rightarrow> ''bool'' | JInt _ \<Rightarrow> ''int''
     | JFloat _ \<Rightarrow> ''float'' | JStr _ \<Rightarrow> ''str'' | JList _ \<Rightarrow> ''list'' | JObj _ \<Rightarrow> ''dict'')"

text \<open>\<open>k in v\<close>\<close>

definition py_in :: "string \<Rightarrow> json \<Rightarrow> bool result" where
  "py_in k v = (case v of
      JObj d \<Rightarrow> Ok (map_of d k \<noteq> None)
    | JList xs \<Rightarrow> Ok (JStr k \<in> set xs)
    | JStr s \<Rightarrow> Ok (py_contains k s)
    | _ \<Rightarrow> Exc TypeError)"

text \<open>\<open>v[k]\<close>\<close>

definition py_getitem :: "json \<Rightarrow> string \<Rightarrow> json result" where
  "py_getitem v k = (case v of
      JObj d \<Rightarrow> (case map_of d k of Some x \<Rightarrow> Ok x | None \<Rightarrow> Exc (KeyError k))
    | _ \<Rightarrow> Exc TypeError)"

text \<open>\<open>v.items()\<close> and \<open>v.values()\<close>\<close>

definition py_items :: "json \<Rightarrow> (string \<times> json) list result" where
  "py_items v = (case v of JObj d \<Rightarrow> Ok d | _ \<Rightarrow> Exc AttributeError)"

definition py_format :: "(json \<Rightarrow> string) \<Rightarrow> json \<Rightarrow> string" where
  "py_format rep v = (case v of JStr s \<Rightarrow> s | _ \<Rightarrow> rep v)"

section \<open>The schema\<close>

datatype pytype = TDict | TStr | TList

datatype schema =
  Schema (sc_type: pytype) (sc_properties: "(string \<times> schema) list") (sc_additional: additional)
and additional = AnyMore | NoMore | MoreOf schema

abbreviation str_schema :: schema where
  "str_schema \<equiv> Schema TStr [] AnyMore"

definition str_map_schema :: schema where
  "str_map_schema = Schema TDict [] (MoreOf str_schema)"

definition image_schema :: schema where
  "image_schema = Schema TDict
     [(''packages'', str_map_schema), (''keys'', str_map_schema), (''repositories'', str_map_schema)] NoMore"

definition registry_schema :: schema where
  "registry_schema = Schema TDict
     [(''host'', str_schema), (''project'', str_schema), (''repository'', str_schema), (''namespace'', str_schema)]
     NoMore"

definition CONFIG_SCHEMA :: schema where
  "CONFIG_SCHEMA = Schema TDict
     [(''docker'', Schema TDict
        [(''registry'', registry_schema),
         (''run'', Schema TList [] AnyMore),
         (''images'', Schema TDict [] (MoreOf image_schema))] NoMore)] NoMore"

definition isinstance :: "json \<Rightarrow> pytype \<Rightarrow> bool" where
  "isinstance v t = (case t of
      TDict \<Rightarrow> (\<exists>d. v = JObj d) | TStr \<Rightarrow> (\<exists>s. v = JStr s) | TList \<Rightarrow> (\<exists>xs. v = JList xs))"

lemma isinstance_code [code]:
  "isinstance v t = (case t of
      TDict \<Rightarrow> (case v of JObj _ \<Rightarrow> True | _ \<Rightarrow> False)
    | TStr \<Rightarrow> (case v of JStr _ \<Rightarrow> True | _ \<Rightarrow> False)
    | TList \<Rightarrow> (case v of JList _ \<Rightarrow> True | _ \<Rightarrow> False))"
  by (auto simp: isinstance_def split: pytype.splits json.splits)

definition type_name :: "pytype \<Rightarrow> string" where
  "type_name t = (case t of TDict \<Rightarrow> ''dict'' | TStr \<Rightarrow> ''str'' | TList \<Rightarrow> ''list'')"

definition sub_path :: "string \<Rightarrow> string \<Rightarrow> string" where
  "sub_path path key = (if path \<noteq> [] then path @ ''.'' @ key else key)"

section \<open>Validation\<close>

text \<open>The first exception of a sequence of calls.\<close>

fun first_exc :: "unit result list \<Rightarrow> unit result" where
  "first_exc [] = Ok ()"
| "first_exc (Ok _ # rs) = first_exc rs"
| "first_exc (Exc e # rs) = Exc e"

definition quoted :: "string \<Rightarrow> string" where
  "quoted s = [CHR 0x27] @ s @ [CHR 0x27]"

lemma size_property: "(k, s) \<in> set ps \<Longrightarrow> size s \<le> size_list (size_prod (\<lambda>x. 0) size) ps"
  by (induction ps) auto

function validate_config :: "json \<Rightarrow> schema \<Rightarrow> string \<Rightarrow> unit result" where
  "validate_config data (Schema t properties additional) path =
     (if \<not> isinstance data t then
        Exc (ValueError (''Invalid type at '' @ quoted path @ ''. Expected '' @ type_name t @ '', got '' @
              py_typename data @ ''.''))
      else case data of
        JObj d \<Rightarrow>
          (let extra_keys = remdups (filter (\<lambda>k. k \<notin> set (map fst properties)) (map fst d)) in
           if additional = NoMore \<and> extra_keys \<noteq> [] then
             Exc (ValueError (''Unexpected fields at '' @ quoted path @ '': '' @ py_join '', '' (sort extra_keys)))
           else first_exc
             (map (\<lambda>p. case map_of d (fst p) of
                         None \<Rightarrow> Ok ()
                       | Some v \<Rightarrow> validate_config v (snd p) (sub_path path (fst p))) properties @
              (case additional of
                 MoreOf s \<Rightarrow>
                   map (\<lambda>e. if fst e \<in> set (map fst properties) then Ok ()
                             else validate_config (snd e) s (sub_path path (fst e))) d
               | _ \<Rightarrow> [])))
      | _ \<Rightarrow> Ok ())"
  by pat_completeness auto
termination
  by (relation "measure (\<lambda>(v, s, p). size s)") (auto simp: less_Suc_eq_le trans_le_add1 dest: size_property)

declare validate_config.simps [simp del]

section \<open>The registry settings\<close>

definition registry_repo :: "(json \<Rightarrow> string) \<Rightarrow> json \<Rightarrow> string result" where
  "registry_repo rep registry =
     r_bind (py_in ''host'' registry) (\<lambda>h.
     r_bind (if h then py_in ''project'' registry else Ok False) (\<lambda>hp.
     r_bind (if hp then py_in ''repository'' registry else Ok False) (\<lambda>hpr.
     if hpr then
       r_bind (py_getitem registry ''host'') (\<lambda>host.
       r_bind (py_getitem registry ''project'') (\<lambda>project.
       r_bind (py_getitem registry ''repository'') (\<lambda>repository.
       Ok (if py_truth host \<and> py_truth project \<and> py_truth repository
           then py_format rep host @ ''/'' @ py_format rep project @ ''/'' @ py_format rep repository
           else []))))
     else Ok [])))"

definition parse_registry :: "(json \<Rightarrow> string) \<Rightarrow> json \<Rightarrow> (string \<times> string) result" where
  "parse_registry rep registry =
     r_bind (registry_repo rep registry) (\<lambda>repo.
     r_bind (py_in ''namespace'' registry) (\<lambda>n.
     if n then r_bind (py_getitem registry ''namespace'') (\<lambda>ns.
       Ok (repo, if py_truth ns then ''devkit/'' @ py_format rep ns else ''devkit''))
     else Ok (repo, ''devkit'')))"

definition parse_registry_config :: "(json \<Rightarrow> string) \<Rightarrow> json \<Rightarrow> (string \<times> string) result" where
  "parse_registry_config rep config =
     r_bind (py_in ''docker'' config) (\<lambda>d.
     if \<not> d then Ok ([], ''devkit'')
     else r_bind (py_getitem config ''docker'') (\<lambda>docker_config.
          r_bind (py_in ''registry'' docker_config) (\<lambda>g.
          if \<not> g then Ok ([], ''devkit'')
          else r_bind (py_getitem docker_config ''registry'') (\<lambda>registry. parse_registry rep registry))))"

definition get_image_prefix :: "(json \<Rightarrow> string) \<Rightarrow> path \<Rightarrow> string py" where
  "get_image_prefix rep config_path =
     py_bind (path_exists config_path) (\<lambda>e.
     if e then
       py_try
         (py_bind (json_load config_path) (\<lambda>config.
          py_bind (of_result (parse_registry_config rep config)) (\<lambda>(repo, namespace).
          py_ret (if repo \<noteq> [] then repo @ ''/'' @ namespace else namespace))))
         (\<lambda>e. is_ValueError e \<or> is_KeyError e)
         (\<lambda>e. py_ret ''devkit'')
     else py_ret ''devkit'')"

section \<open>The per-image settings\<close>

record image_settings =
  extra_packages :: "(string \<times> string list) list"
  extra_keys :: "(string \<times> string list) list"
  extra_repositories :: "(string \<times> string list) list"

text \<open>\<open>f"{k}={v}"\<close> over the items of a setting.\<close>

definition setting_pairs :: "(json \<Rightarrow> string) \<Rightarrow> (string \<times> json) list \<Rightarrow> string list" where
  "setting_pairs rep kvs = map (\<lambda>(k, v). k @ ''='' @ py_format rep v) kvs"

definition load_packages :: "(json \<Rightarrow> string) \<Rightarrow> string \<Rightarrow> (string \<times> json) list \<Rightarrow> string list py" where
  "load_packages rep img kvs =
     py_fold (\<lambda>(k, v) packages.
       if \<not> py_truth v then
         py_seq (log_error (''Package %s in image %s has an empty version. Please specify a version or use '' @ quoted ''*'' @ ''.'') [k, img])
           (sys_exit 1)
       else py_ret (packages @ [k @ ''='' @ py_format rep v])) kvs []"

definition load_image_settings ::
  "(json \<Rightarrow> string) \<Rightarrow> string \<times> json \<Rightarrow> image_settings \<Rightarrow> image_settings py" where
  "load_image_settings rep entry st =
     (case entry of (img, settings) \<Rightarrow>
      py_bind (of_result (py_in ''packages'' settings)) (\<lambda>p.
      py_bind (if p then
                 py_bind (of_result (r_bind (py_getitem settings ''packages'') py_items)) (\<lambda>kvs.
                 py_bind (load_packages rep img kvs) (\<lambda>packages.
                 py_ret (st\<lparr>extra_packages := dict_put img packages (extra_packages st)\<rparr>)))
               else py_ret st) (\<lambda>st.
      py_bind (of_result (py_in ''keys'' settings)) (\<lambda>k.
      py_bind (if k then
                 py_bind (of_result (r_bind (py_getitem settings ''keys'') py_items)) (\<lambda>kvs.
                 py_ret (st\<lparr>extra_keys := dict_put img (setting_pairs rep kvs) (extra_keys st)\<rparr>))
               else py_ret st) (\<lambda>st.
      py_bind (of_result (py_in ''repositories'' settings)) (\<lambda>r.
      if r then
        py_bind (of_result (r_bind (py_getitem settings ''repositories'') py_items)) (\<lambda>kvs.
        py_ret (st\<lparr>extra_repositories := dict_put img (setting_pairs rep kvs) (extra_repositories st)\<rparr>))
      else py_ret st))))))"

definition load_images_config :: "(json \<Rightarrow> string) \<Rightarrow> json \<Rightarrow> image_settings py" where
  "load_images_config rep config =
     py_bind (of_result (py_getitem config ''docker'')) (\<lambda>docker.
     py_bind (of_result (py_in ''images'' docker)) (\<lambda>i.
     let none = \<lparr>extra_packages = [], extra_keys = [], extra_repositories = []\<rparr> in
     if i then
       py_bind (of_result (r_bind (py_getitem docker ''images'') py_items)) (\<lambda>images.
       py_fold (load_image_settings rep) images none)
     else py_ret none))"

section \<open>What the schema accepts\<close>

text \<open>The schema spelled out.\<close>

definition str_map_ok :: "json \<Rightarrow> bool" where
  "str_map_ok v = (\<exists>d. v = JObj d \<and> (\<forall>e \<in> set d. \<exists>s. snd e = JStr s))"

definition settings_ok :: "json \<Rightarrow> bool" where
  "settings_ok v = (\<exists>d. v = JObj d \<and> fst ` set d \<subseteq> {''packages'', ''keys'', ''repositories''} \<and>
     (\<forall>k x. map_of d k = Some x \<longrightarrow> str_map_ok x))"

definition registry_ok :: "json \<Rightarrow> bool" where
  "registry_ok v = (\<exists>d. v = JObj d \<and> fst ` set d \<subseteq> {''host'', ''project'', ''repository'', ''namespace''} \<and>
     (\<forall>k x. map_of d k = Some x \<longrightarrow> (\<exists>s. x = JStr s)))"

definition docker_ok :: "json \<Rightarrow> bool" where
  "docker_ok v = (\<exists>d. v = JObj d \<and> fst ` set d \<subseteq> {''registry'', ''run'', ''images''} \<and>
     (\<forall>x. map_of d ''registry'' = Some x \<longrightarrow> registry_ok x) \<and>
     (\<forall>x. map_of d ''run'' = Some x \<longrightarrow> (\<exists>xs. x = JList xs)) \<and>
     (\<forall>x. map_of d ''images'' = Some x \<longrightarrow> (\<exists>e. x = JObj e \<and> (\<forall>y \<in> set e. settings_ok (snd y)))))"

definition config_ok :: "json \<Rightarrow> bool" where
  "config_ok v = (\<exists>d. v = JObj d \<and> fst ` set d \<subseteq> {''docker''} \<and>
     (\<forall>x. map_of d ''docker'' = Some x \<longrightarrow> docker_ok x))"

lemma first_exc_Ok: "first_exc rs = Ok () \<longleftrightarrow> (\<forall>r \<in> set rs. r = Ok ())"
  by (induction rs rule: first_exc.induct) auto

lemma validate_str: "validate_config v str_schema path = Ok () \<longleftrightarrow> (\<exists>s. v = JStr s)"
  by (cases v) (auto simp: validate_config.simps isinstance_def)

lemma validate_list: "validate_config v (Schema TList [] AnyMore) path = Ok () \<longleftrightarrow> (\<exists>xs. v = JList xs)"
  by (cases v) (auto simp: validate_config.simps isinstance_def)

lemma validate_map_of:
  "validate_config v (Schema TDict [] (MoreOf s)) path = Ok () \<longleftrightarrow>
   (\<exists>d. v = JObj d \<and> (\<forall>e \<in> set d. validate_config (snd e) s (sub_path path (fst e)) = Ok ()))"
  by (cases v) (auto simp: validate_config.simps isinstance_def first_exc_Ok)

text \<open>An object with a fixed list of fields.\<close>

lemma validate_fields:
  "validate_config v (Schema TDict ps NoMore) path = Ok () \<longleftrightarrow>
   (\<exists>d. v = JObj d \<and> fst ` set d \<subseteq> fst ` set ps \<and>
     (\<forall>p \<in> set ps. \<forall>x. map_of d (fst p) = Some x \<longrightarrow>
        validate_config x (snd p) (sub_path path (fst p)) = Ok ()))"
proof (cases v)
  case (JObj d)
  have "filter (\<lambda>k. k \<notin> set (map fst ps)) (map fst d) = [] \<longleftrightarrow> fst ` set d \<subseteq> fst ` set ps"
    by (auto simp: filter_empty_conv)
  then show ?thesis unfolding JObj
    by (auto simp: validate_config.simps isinstance_def first_exc_Ok Let_def split: option.splits)
qed (auto simp: validate_config.simps isinstance_def)

lemma fields_all:
  assumes "fst ` set d \<subseteq> set ks"
  shows "(\<forall>k \<in> set ks. \<forall>x. map_of d k = Some x \<longrightarrow> P x) \<longleftrightarrow> (\<forall>k x. map_of d k = Some x \<longrightarrow> P x)"
proof (intro iffI allI impI ballI)
  fix k x assume all: "\<forall>k \<in> set ks. \<forall>x. map_of d k = Some x \<longrightarrow> P x" and k: "map_of d k = Some x"
  from k have "k \<in> fst ` set d" by (force dest: map_of_SomeD)
  with assms all k show "P x" by blast
qed blast

lemma validate_uniform:
  "(\<And>x path. validate_config x s path = Ok () \<longleftrightarrow> P x) \<Longrightarrow>
   validate_config v (Schema TDict (map (\<lambda>k. (k, s)) ks) NoMore) path = Ok () \<longleftrightarrow>
   (\<exists>d. v = JObj d \<and> fst ` set d \<subseteq> set ks \<and> (\<forall>k x. map_of d k = Some x \<longrightarrow> P x))"
proof -
  assume s: "\<And>x path. validate_config x s path = Ok () \<longleftrightarrow> P x"
  have keys: "fst ` set (map (\<lambda>k. (k, s)) ks) = set ks" by (simp add: image_image)
  have ball: "(\<forall>p \<in> set (map (\<lambda>k. (k, s)) ks). \<forall>x. map_of d (fst p) = Some x \<longrightarrow>
      validate_config x (snd p) (sub_path path (fst p)) = Ok ()) \<longleftrightarrow>
      (\<forall>k \<in> set ks. \<forall>x. map_of d k = Some x \<longrightarrow> P x)" for d
    by (simp add: s)
  show ?thesis unfolding validate_fields keys ball
    by (rule ex_cong1, rule conj_cong [OF refl], rule conj_cong [OF refl], rule fields_all)
qed

lemma validate_str_map: "validate_config v str_map_schema path = Ok () \<longleftrightarrow> str_map_ok v"
  by (auto simp: str_map_schema_def validate_map_of validate_str str_map_ok_def)

lemma validate_image: "validate_config v image_schema path = Ok () \<longleftrightarrow> settings_ok v"
  using validate_uniform [of str_map_schema str_map_ok v "[''packages'', ''keys'', ''repositories'']" path,
      OF validate_str_map]
  by (simp only: image_schema_def settings_ok_def list.map list.set)

lemma validate_registry: "validate_config v registry_schema path = Ok () \<longleftrightarrow> registry_ok v"
  using validate_uniform [of str_schema "\<lambda>x. \<exists>s. x = JStr s" v
      "[''host'', ''project'', ''repository'', ''namespace'']" path, OF validate_str]
  by (simp only: registry_schema_def registry_ok_def list.map list.set)

lemma validate_docker:
  "validate_config v (Schema TDict [(''registry'', registry_schema), (''run'', Schema TList [] AnyMore),
     (''images'', Schema TDict [] (MoreOf image_schema))] NoMore) path = Ok () \<longleftrightarrow> docker_ok v"
proof -
  show ?thesis
    unfolding validate_fields docker_ok_def
    by (simp only: list.set ball_simps image_insert image_empty fst_conv snd_conv validate_registry validate_list
        validate_map_of validate_image simp_thms)
qed

text \<open>
  C12. Validation accepts a parsed file exactly when it has the shape the schema describes: only
  the known fields, strings for the registry settings, a list for \<open>run\<close>, and for every image
  objects from strings to strings.
\<close>

theorem validate_config_iff:
  "validate_config v CONFIG_SCHEMA [] = Ok () \<longleftrightarrow> config_ok v"
  unfolding CONFIG_SCHEMA_def validate_fields config_ok_def
  by (simp only: list.set ball_simps image_insert image_empty fst_conv snd_conv validate_docker simp_thms)

lemma validate_config_error:
  "validate_config v s path = Exc e \<Longrightarrow> \<exists>m. e = ValueError m"
proof (induction v s path rule: validate_config.induct)
  case (1 data t properties additional path)
  have first: "first_exc rs = Exc e \<Longrightarrow> Exc e \<in> set rs" for rs :: "unit result list"
    by (induction rs rule: first_exc.induct) auto
  show ?case
  proof (cases "isinstance data t")
    case False
    with "1.prems" show ?thesis by (auto simp: validate_config.simps)
  next
    case True
    show ?thesis
    proof (cases data)
      case (JObj d)
      let ?extra = "remdups (filter (\<lambda>k. k \<notin> set (map fst properties)) (map fst d))"
      show ?thesis
      proof (cases "additional = NoMore \<and> ?extra \<noteq> []")
        case True
        with "1.prems" JObj \<open>isinstance data t\<close> show ?thesis by (auto simp: validate_config.simps Let_def)
      next
        case False
        from "1.prems" have "first_exc
             (map (\<lambda>p. case map_of d (fst p) of None \<Rightarrow> Ok ()
                       | Some v \<Rightarrow> validate_config v (snd p) (sub_path path (fst p))) properties @
              (case additional of MoreOf s \<Rightarrow>
                   map (\<lambda>e. if fst e \<in> set (map fst properties) then Ok ()
                             else validate_config (snd e) s (sub_path path (fst e))) d
               | _ \<Rightarrow> [])) = Exc e"
          using True [unfolded JObj] unfolding validate_config.simps JObj Let_def
          by (simp only: json.case if_not_P [OF False] not_True_eq_False if_False)
        from first [OF this] consider
          p v where "p \<in> set properties" "map_of d (fst p) = Some v"
            "validate_config v (snd p) (sub_path path (fst p)) = Exc e"
          | s x where "additional = MoreOf s" "x \<in> set d" "fst x \<notin> set (map fst properties)"
            "validate_config (snd x) s (sub_path path (fst x)) = Exc e"
          by (auto split: option.splits additional.splits if_splits)
        then show ?thesis
        proof cases
          case 1
          with "1.IH"(1) [OF _ JObj refl False] True show ?thesis by auto
        next
          case 2
          with "1.IH"(2) [OF _ JObj refl False] True show ?thesis by auto
        qed
      qed
    qed (use "1.prems" True in \<open>auto simp: validate_config.simps\<close>)
  qed
qed

section \<open>After validation nothing goes wrong\<close>

lemma parse_registry_ok:
  assumes "registry_ok v"
  shows "\<exists>repo ns. parse_registry rep v = Ok (repo, ns) \<and> (ns = ''devkit'' \<or> (\<exists>s. s \<noteq> [] \<and> ns = ''devkit/'' @ s))"
proof -
  from assms obtain d where d: "v = JObj d" "\<forall>k x. map_of d k = Some x \<longrightarrow> (\<exists>s. x = JStr s)"
    unfolding registry_ok_def by blast
  have field: "py_in k v = Ok (map_of d k \<noteq> None)" "map_of d k = Some x \<Longrightarrow> py_getitem v k = Ok x" for k x
    by (auto simp: py_in_def py_getitem_def d(1))
  obtain repo where repo: "registry_repo rep v = Ok repo"
    by (cases "map_of d ''host''"; cases "map_of d ''project''"; cases "map_of d ''repository''")
      (auto simp: registry_repo_def field)
  show ?thesis
  proof (cases "map_of d ''namespace''")
    case None
    then show ?thesis unfolding parse_registry_def repo field by simp
  next
    case (Some x)
    with d(2) obtain s where "x = JStr s" by blast
    with Some show ?thesis unfolding parse_registry_def repo field
      by (cases "s = []") (simp_all add: field py_truth_def py_format_def)
  qed
qed

lemma config_ok_docker:
  assumes "config_ok v" "py_in ''docker'' v = Ok True"
  obtains x where "py_getitem v ''docker'' = Ok x" "docker_ok x"
  using assms by (auto simp: config_ok_def py_in_def py_getitem_def)

lemma docker_ok_registry:
  "docker_ok x \<Longrightarrow> py_in ''registry'' x = Ok False \<or>
     (py_in ''registry'' x = Ok True \<and> (\<exists>y. py_getitem x ''registry'' = Ok y \<and> registry_ok y))"
  by (auto simp: docker_ok_def py_in_def py_getitem_def)

lemma parse_registry_config_ok:
  assumes "config_ok v"
  shows "\<exists>repo ns. parse_registry_config rep v = Ok (repo, ns) \<and> (ns = ''devkit'' \<or> (\<exists>s. s \<noteq> [] \<and> ns = ''devkit/'' @ s))"
proof -
  have "py_in ''docker'' v = Ok False \<or> py_in ''docker'' v = Ok True"
    using assms by (auto simp: config_ok_def py_in_def)
  then consider "py_in ''docker'' v = Ok False" | x where "py_in ''docker'' v = Ok True"
      "py_getitem v ''docker'' = Ok x" "docker_ok x"
    by (elim disjE) (rule that(1), assumption, rule config_ok_docker [OF assms], assumption, rule that(2))
  then show ?thesis
  proof cases
    case 2
    from docker_ok_registry [OF 2(3)] show ?thesis
    proof (elim disjE conjE exE)
      fix y assume y: "py_in ''registry'' x = Ok True" "py_getitem x ''registry'' = Ok y" "registry_ok y"
      from parse_registry_ok [OF y(3)] show ?thesis
        by (simp only: parse_registry_config_def 2 y r_bind_simps not_True_eq_False if_False)
    qed (simp add: parse_registry_config_def 2)
  qed (simp add: parse_registry_config_def)
qed

text \<open>Loading the settings of the images: the only exception left is the exit for an empty version.\<close>

definition only_exits :: "'a py \<Rightarrow> bool" where
  "only_exits m = (\<forall>w e. fst (m w) = Exc e \<longrightarrow> e = SystemExit 1)"

lemma only_exits_bind: "only_exits m \<Longrightarrow> (\<And>x. only_exits (f x)) \<Longrightarrow> only_exits (py_bind m f)"
  by (auto simp: only_exits_def py_bind_def split: prod.splits result.splits) (metis fst_conv)+

lemma only_exits_ret [simp]: "only_exits (py_ret x)" "only_exits (of_result (Ok x))" "only_exits (sys_exit 1)"
  "only_exits (log_error s xs)" "only_exits (log_info s xs)" "only_exits (log_warning s xs)" "only_exits (py_eprint s)"
  by (auto simp: only_exits_def of_result_def py_simps)

lemma only_exits_seq: "only_exits m \<Longrightarrow> only_exits k \<Longrightarrow> only_exits (py_seq m k)"
  unfolding py_seq_def by (rule only_exits_bind)

lemma only_exits_fold: "(\<And>x s. x \<in> set xs \<Longrightarrow> only_exits (f x s)) \<Longrightarrow> only_exits (py_fold f xs s)"
  by (induction xs arbitrary: s) (auto intro: only_exits_bind)

lemma settings_ok_field:
  assumes "settings_ok v"
  shows "py_in k v = Ok False \<or> (py_in k v = Ok True \<and> (\<exists>kvs. r_bind (py_getitem v k) py_items = Ok kvs))"
proof -
  from assms obtain d where d: "v = JObj d" "\<forall>k x. map_of d k = Some x \<longrightarrow> str_map_ok x"
    unfolding settings_ok_def by blast
  show ?thesis
  proof (cases "map_of d k")
    case (Some x)
    with d(2) obtain e where "x = JObj e" unfolding str_map_ok_def by blast
    with Some d(1) show ?thesis by (simp add: py_in_def py_getitem_def py_items_def)
  qed (simp add: d(1) py_in_def)
qed

lemma only_exits_load_packages: "only_exits (load_packages rep img kvs)"
  unfolding load_packages_def split_def
  by (rule only_exits_fold, split if_split, intro conjI impI only_exits_seq only_exits_ret)

lemma bind_of_result [simp]:
  "py_bind (of_result (Ok x)) f = f x" "py_bind (of_result (Exc e)) f = py_raise e"
  by (simp_all add: of_result_def py_bind_def py_raise_def)

text \<open>One optional field of an image's settings.\<close>

lemma only_exits_field:
  assumes "settings_ok v" "\<And>kvs. only_exits (f kvs)" "\<And>st. only_exits (h st)"
  shows "only_exits (py_bind (of_result (py_in k v)) (\<lambda>b.
     py_bind (if b then py_bind (of_result (r_bind (py_getitem v k) py_items)) f else py_ret st) h))"
  using settings_ok_field [OF assms(1), of k]
  by (elim disjE conjE exE) (simp_all add: assms only_exits_bind)

lemma only_exits_last_field:
  assumes "settings_ok v" "\<And>kvs. only_exits (f kvs)"
  shows "only_exits (py_bind (of_result (py_in k v)) (\<lambda>b.
     if b then py_bind (of_result (r_bind (py_getitem v k) py_items)) f else py_ret st))"
  using settings_ok_field [OF assms(1), of k] assms(2) by auto

lemma only_exits_load_image_settings: "settings_ok (snd e) \<Longrightarrow> only_exits (load_image_settings rep e st)"
  unfolding load_image_settings_def split_def
  by (intro only_exits_field only_exits_last_field only_exits_bind only_exits_ret only_exits_load_packages)

lemma docker_ok_images:
  "docker_ok x \<Longrightarrow> py_in ''images'' x = Ok False \<or>
     (py_in ''images'' x = Ok True \<and> (\<exists>e. r_bind (py_getitem x ''images'') py_items = Ok e \<and> (\<forall>y \<in> set e. settings_ok (snd y))))"
  by (auto simp: docker_ok_def py_in_def py_getitem_def py_items_def)

text \<open>
  C27. Once a configuration with a \<open>docker\<close> section has passed validation, reading the registry
  settings and the settings of the images raises nothing but the deliberate exit with status 1
  for a package without a version; and the namespace is \<open>devkit\<close> or lies below \<open>devkit/\<close>.
\<close>

theorem validated_config_loads:
  assumes "validate_config config CONFIG_SCHEMA [] = Ok ()" "py_in ''docker'' config = Ok True"
  shows "(\<exists>repo ns. parse_registry_config rep config = Ok (repo, ns) \<and>
      (ns = ''devkit'' \<or> (\<exists>s. s \<noteq> [] \<and> ns = ''devkit/'' @ s))) \<and>
    (\<forall>w e. fst (load_images_config rep config w) = Exc e \<longrightarrow> e = SystemExit 1)"
proof
  from assms(1) have ok: "config_ok config"
    unfolding CONFIG_SCHEMA_def validate_fields config_ok_def
    by (simp only: list.set ball_simps image_insert image_empty fst_conv snd_conv validate_docker simp_thms)
  then show "\<exists>repo ns. parse_registry_config rep config = Ok (repo, ns) \<and>
      (ns = ''devkit'' \<or> (\<exists>s. s \<noteq> [] \<and> ns = ''devkit/'' @ s))" by (rule parse_registry_config_ok)
  from config_ok_docker [OF ok assms(2)] obtain x where x: "py_getitem config ''docker'' = Ok x" "docker_ok x" .
  have "only_exits (load_images_config rep config)"
    using docker_ok_images [OF x(2)]
  proof (elim disjE conjE exE)
    fix e assume "py_in ''images'' x = Ok True" "r_bind (py_getitem x ''images'') py_items = Ok e" "\<forall>y \<in> set e. settings_ok (snd y)"
    then show ?thesis
      by (auto simp: load_images_config_def x(1) Let_def intro!: only_exits_fold only_exits_load_image_settings)
  qed (simp add: load_images_config_def x(1) Let_def)
  then show "\<forall>w e. fst (load_images_config rep config w) = Exc e \<longrightarrow> e = SystemExit 1"
    by (simp add: only_exits_def)
qed

definition sample_config :: json where
  "sample_config = JObj [(''docker'', JObj
     [(''registry'', JObj [(''host'', JStr ''h''), (''project'', JStr ''p''), (''repository'', JStr ''r''), (''namespace'', JStr ''n'')]),
      (''images'', JObj [(''a'', JObj [(''packages'', JObj [(''x'', JStr ''1'')])])])])]"

theorem validated_config_loads_witness:
  "\<exists>repo ns. parse_registry_config (\<lambda>_. []) sample_config = Ok (repo, ns) \<and>
     (ns = ''devkit'' \<or> (\<exists>s. s \<noteq> [] \<and> ns = ''devkit/'' @ s))"
proof -
  have "validate_config sample_config CONFIG_SCHEMA [] = Ok ()" "py_in ''docker'' sample_config = Ok True"
    by code_simp+
  from validated_config_loads [OF this] show ?thesis by (rule conjunct1)
qed

text \<open>
  The image prefix is read without validation: when \<open>devkit.json\<close> exists and holds a number, a
  truth value or \<open>null\<close>, \<open>get_image_prefix\<close> raises \<open>TypeError\<close> instead of falling back to \<open>devkit\<close>.
\<close>

lemma get_image_prefix_type_error:
  assumes "fs_exists (w_fs w) (w_cwd w) p = Inr True" "fs_read (w_fs w) (w_cwd w) p = Some src"
    and "json_loads src = Some v" "\<exists>i b. v = JInt i \<or> v = JBool b \<or> v = JNull"
  shows "get_image_prefix rep p w = (Exc TypeError, w)"
proof -
  have "parse_registry_config rep v = Exc TypeError"
    using assms(4) by (auto simp: parse_registry_config_def py_in_def)
  with assms(1-3) show ?thesis
    by (simp add: get_image_prefix_def path_exists_def lift_probe_def json_load_def read_file_def of_result_def
        is_ValueError_def is_KeyError_def py_simps)
qed

end
