(* ===== verification/Py_Graphlib.thy ===== *)
theory Py_Graphlib
  imports Devkit_Prelude
begin

text \<open>
  \<open>graphlib.TopologicalSorter(graph).static_order()\<close>. A graph is a dict from nodes to the sets of
  their predecessors, each set listed in the order Python iterates over it. Nodes are yielded in
  the order in which their last predecessor was: the sorter's ready list is a queue.
\<close>

type_synonym graph = "(string \<times> string list) list"

section \<open>The sorter\<close>

definition preds :: "graph \<Rightarrow> string \<Rightarrow> string list" where
  "preds g n = (case map_of g n of Some ps \<Rightarrow> ps | None \<Rightarrow> [])"

definition succs :: "graph \<Rightarrow> string \<Rightarrow> string list" where
  "succs g n = map fst (filter (\<lambda>e. n \<in> set (snd e)) g)"

text \<open>First occurrences, in order.\<close>

definition dedup :: "'a list \<Rightarrow> 'a list" where
  "dedup xs = rev (remdups (rev xs))"

lemma dedup_simps [simp]: "set (dedup xs) = set xs" "distinct (dedup xs)"
  by (simp_all add: dedup_def)

text \<open>The nodes in the order the sorter learns of them.\<close>

definition graph_nodes :: "graph \<Rightarrow> string list" where
  "graph_nodes g = dedup (concat (map (\<lambda>e. fst e # snd e) g))"

fun kahn :: "graph \<Rightarrow> nat \<Rightarrow> string list \<Rightarrow> string list \<Rightarrow> string list" where
  "kahn g 0 passed ready = rev passed"
| "kahn g (Suc k) passed [] = rev passed"
| "kahn g (Suc k) passed (n # ready) =
     kahn g k (n # passed) (ready @ filter (\<lambda>s. set (preds g s) \<subseteq> set (n # passed)) (succs g n))"

text \<open>\<^const>\<open>None\<close> is \<open>CycleError\<close>: some node never became ready.\<close>

definition static_order :: "graph \<Rightarrow> string list option" where
  "static_order g =
     (let nodes = graph_nodes g;
          out = kahn g (length nodes) [] (filter (\<lambda>n. preds g n = []) nodes)
      in if length out = length nodes then Some out else None)"

section \<open>Correctness\<close>

definition graph_wf :: "graph \<Rightarrow> bool" where
  "graph_wf g = distinct (map fst g)"

definition edges :: "graph \<Rightarrow> (string \<times> string) set" where
  "edges g = {(p, n). p \<in> set (preds g n)}"

lemma preds_nodes: "p \<in> set (preds g n) \<Longrightarrow> p \<in> set (graph_nodes g) \<and> n \<in> set (graph_nodes g)"
proof -
  assume "p \<in> set (preds g n)"
  then obtain ps where "map_of g n = Some ps" "p \<in> set ps" by (cases "map_of g n") (auto simp: preds_def)
  then have "(n, ps) \<in> set g" "p \<in> set ps" by (auto dest: map_of_SomeD)
  then show ?thesis unfolding graph_nodes_def dedup_simps set_concat set_map by force
qed

lemma succs_iff: "graph_wf g \<Longrightarrow> s \<in> set (succs g n) \<longleftrightarrow> n \<in> set (preds g s)"
proof -
  assume wf: "graph_wf g"
  have "s \<in> set (succs g n) \<longleftrightarrow> (\<exists>ps. (s, ps) \<in> set g \<and> n \<in> set ps)" by (force simp: succs_def)
  also have "\<dots> \<longleftrightarrow> (\<exists>ps. map_of g s = Some ps \<and> n \<in> set ps)"
    using map_of_eq_Some_iff [of g s] wf by (simp add: graph_wf_def)
  finally show ?thesis by (auto simp: preds_def split: option.splits)
qed

lemma distinct_succs: "graph_wf g \<Longrightarrow> distinct (succs g n)"
  by (simp add: succs_def graph_wf_def distinct_map_filter)

text \<open>The passed nodes are in a valid order, and the queue holds exactly the nodes that are ready.\<close>

definition kahn_inv :: "graph \<Rightarrow> string list \<Rightarrow> string list \<Rightarrow> bool" where
  "kahn_inv g passed ready = (distinct (rev passed @ ready) \<and> set passed \<subseteq> set (graph_nodes g) \<and>
     set ready = {n \<in> set (graph_nodes g). set (preds g n) \<subseteq> set passed \<and> n \<notin> set passed} \<and>
     (\<forall>us n vs. rev passed = us @ n # vs \<longrightarrow> set (preds g n) \<subseteq> set us))"

lemma kahn_inv_step:
  assumes "graph_wf g" "kahn_inv g passed (n # ready)"
  shows "kahn_inv g (n # passed) (ready @ filter (\<lambda>s. set (preds g s) \<subseteq> set (n # passed)) (succs g n))"
proof -
  let ?new = "filter (\<lambda>s. set (preds g s) \<subseteq> set (n # passed)) (succs g n)"
  from assms(2) have I: "distinct (rev passed @ n # ready)" "set passed \<subseteq> set (graph_nodes g)"
    "set (n # ready) = {n \<in> set (graph_nodes g). set (preds g n) \<subseteq> set passed \<and> n \<notin> set passed}"
    "\<And>us m vs. rev passed = us @ m # vs \<Longrightarrow> set (preds g m) \<subseteq> set us"
    by (auto simp: kahn_inv_def)
  have n: "n \<in> set (graph_nodes g)" "set (preds g n) \<subseteq> set passed" "n \<notin> set passed" using I(3) by auto
  have new: "set ?new = {s. n \<in> set (preds g s) \<and> set (preds g s) \<subseteq> insert n (set passed)}"
    using succs_iff [OF assms(1)] by auto
  have ready: "set ready = {m \<in> set (graph_nodes g). set (preds g m) \<subseteq> set passed \<and> m \<notin> set passed} - {n}"
    using I(1,3) by auto
  have old: "set (preds g m) \<subseteq> set passed" if "m \<in> set passed" for m
  proof -
    from that obtain us vs where "rev passed = us @ m # vs" using split_list [of m "rev passed"] by auto
    moreover from this have "set us \<subseteq> set passed" by (metis Un_upper1 set_append set_rev)
    ultimately show ?thesis using I(4) by blast
  qed
  have disj: "set ?new \<inter> (set ready \<union> set (n # passed)) = {}"
    unfolding new ready using n old by auto
  have "distinct (rev (n # passed) @ ready @ ?new)"
    using I(1) disj distinct_succs [OF assms(1)] by auto
  moreover have "set (ready @ ?new) =
      {m \<in> set (graph_nodes g). set (preds g m) \<subseteq> set (n # passed) \<and> m \<notin> set (n # passed)}"
    unfolding set_append new ready using n old preds_nodes by auto
  moreover have "set (preds g m) \<subseteq> set us" if "rev (n # passed) = us @ m # vs" for us m vs
  proof (cases vs rule: rev_cases)
    case Nil
    with that n show ?thesis by auto
  next
    case (snoc vs' x)
    with that have "rev passed = us @ m # vs'" by auto
    with I(4) show ?thesis by blast
  qed
  ultimately show ?thesis using I(2) n(1) by (auto simp: kahn_inv_def)
qed

text \<open>When the queue is empty the loop has stopped for good, and the bound suffices.\<close>

lemma kahn_result:
  assumes "graph_wf g" "kahn_inv g passed ready" "length passed + k = length (graph_nodes g)"
  shows "\<exists>out. kahn g k passed ready = rev out \<and> kahn_inv g out []"
  using assms
proof (induction g k passed ready rule: kahn.induct)
  case (1 g passed ready)
  have "ready = []"
  proof (rule ccontr)
    assume "ready \<noteq> []"
    then obtain m where m: "m \<in> set ready" by (cases ready) auto
    with 1 have "m \<in> set (graph_nodes g) - set passed" by (auto simp: kahn_inv_def)
    moreover have "card (set passed) = length passed" using 1 by (auto simp: kahn_inv_def distinct_card)
    moreover have "card (set (graph_nodes g)) = length (graph_nodes g)"
      by (rule distinct_card) (simp add: graph_nodes_def)
    ultimately show False using 1 by (simp add: kahn_inv_def) (metis DiffE List.finite_set card_subset_eq)
  qed
  with 1 show ?case by auto
next
  case (3 g k passed n ready)
  from "3.IH" [OF "3.prems"(1) kahn_inv_step [OF "3.prems"(1,2)]] "3.prems"(3) show ?case by simp
qed auto

lemma kahn_inv_start: "kahn_inv g [] (filter (\<lambda>n. preds g n = []) (graph_nodes g))"
  by (auto simp: kahn_inv_def graph_nodes_def)

lemma static_order_out:
  assumes "graph_wf g"
  obtains out where "kahn_inv g out []"
    "static_order g = (if length out = length (graph_nodes g) then Some (rev out) else None)"
proof -
  from kahn_result [OF assms kahn_inv_start, of "length (graph_nodes g)"] obtain out where
    "kahn g (length (graph_nodes g)) [] (filter (\<lambda>n. preds g n = []) (graph_nodes g)) = rev out" "kahn_inv g out []"
    by auto
  then show ?thesis by (intro that [of out]) (simp_all add: static_order_def Let_def)
qed

lemma takeWhile_neq: "n \<notin> set us \<Longrightarrow> takeWhile (\<lambda>x. x \<noteq> n) (us @ n # vs) = us"
  by (induction us) auto

text \<open>What the clients of the sorter rely on.\<close>

locale topo_sorter =
  fixes order :: "graph \<Rightarrow> string list option"
  assumes order_distinct: "graph_wf g \<Longrightarrow> order g = Some ns \<Longrightarrow> distinct ns"
    and order_nodes: "graph_wf g \<Longrightarrow> order g = Some ns \<Longrightarrow> set ns = set (graph_nodes g)"
    and order_preds: "graph_wf g \<Longrightarrow> order g = Some (us @ n # vs) \<Longrightarrow> set (preds g n) \<subseteq> set us"
    and order_exists: "graph_wf g \<Longrightarrow> acyclic (edges g) \<Longrightarrow> \<exists>ns. order g = Some ns"
begin

text \<open>Induction along the order: each node comes after its predecessors.\<close>

lemma order_induct [consumes 2, case_names start step]:
  assumes "graph_wf g" "order g = Some ns" and "P []"
    and "\<And>us n vs. ns = us @ n # vs \<Longrightarrow> set (preds g n) \<subseteq> set us \<Longrightarrow> n \<notin> set us \<Longrightarrow> P us \<Longrightarrow> P (us @ [n])"
  shows "P ns"
proof -
  have "P us" if "ns = us @ vs" for us vs
    using that
  proof (induction us arbitrary: vs rule: rev_induct)
    case (snoc n us)
    then have ns: "ns = us @ n # vs" by simp
    with order_distinct [OF assms(1,2)] have "n \<notin> set us" by auto
    with assms(4) [OF ns] snoc.IH [of "n # vs"] order_preds [OF assms(1)] assms(2) ns show ?case by auto
  qed (rule assms(3))
  from this [of ns "[]"] show ?thesis by simp
qed

lemma order_acyclic: "graph_wf g \<Longrightarrow> order g = Some ns \<Longrightarrow> acyclic (edges g)"
proof -
  assume g: "graph_wf g" "order g = Some ns"
  define pos where "pos n = length (takeWhile (\<lambda>x. x \<noteq> n) ns)" for n
  have less: "pos p < pos n" if "(p, n) \<in> edges g" for p n
  proof -
    from that have p: "p \<in> set (preds g n)" by (simp add: edges_def)
    then have "n \<in> set ns" using preds_nodes order_nodes [OF g] by auto
    then obtain us vs where ns: "ns = us @ n # vs" "n \<notin> set us" by (meson split_list_first)
    with g order_preds [OF g(1)] p have "p \<in> set us" by auto
    then obtain xs ys where us: "us = xs @ p # ys" "p \<notin> set xs" by (meson split_list_first)
    have "pos n = length us" unfolding pos_def ns(1) by (simp add: takeWhile_neq ns(2))
    moreover have "pos p = length xs" unfolding pos_def ns(1) us(1) by (simp add: takeWhile_neq us(2))
    ultimately show ?thesis using us by simp
  qed
  have "(p, n) \<in> (edges g)\<^sup>+ \<Longrightarrow> pos p < pos n" for p n
    by (induction rule: trancl_induct) (auto dest: less less_trans)
  then show ?thesis unfolding acyclic_def by blast
qed

lemma order_iff_acyclic: "graph_wf g \<Longrightarrow> (\<exists>ns. order g = Some ns) \<longleftrightarrow> acyclic (edges g)"
  using order_exists order_acyclic by blast

end

text \<open>An acyclic finite graph that is not exhausted has a node that is ready.\<close>

lemma ready_exists:
  assumes "acyclic (edges g)" "set passed \<subset> set (graph_nodes g)"
  shows "\<exists>n \<in> set (graph_nodes g) - set passed. set (preds g n) \<subseteq> set passed"
proof -
  have "edges g \<subseteq> set (graph_nodes g) \<times> set (graph_nodes g)" using preds_nodes by (auto simp: edges_def)
  then have "finite (edges g)" by (rule finite_subset) simp
  then have "wf (edges g)" using assms(1) by (simp add: finite_acyclic_wf)
  moreover obtain m where "m \<in> set (graph_nodes g) - set passed" using assms(2) by blast
  ultimately obtain n where n: "n \<in> set (graph_nodes g) - set passed"
    "\<And>p. (p, n) \<in> edges g \<Longrightarrow> p \<notin> set (graph_nodes g) - set passed" by (rule wfE_min) blast
  then have "set (preds g n) \<subseteq> set passed" using preds_nodes by (auto simp: edges_def)
  with n show ?thesis by blast
qed

interpretation ts: topo_sorter static_order
proof unfold_locales
  fix g ns assume g: "graph_wf g" and ns: "static_order g = Some ns"
  from static_order_out [OF g] ns obtain out where o: "kahn_inv g out []" "ns = rev out"
    "length out = length (graph_nodes g)" by (metis option.distinct(1) option.inject)
  show d: "distinct ns" using o by (simp add: kahn_inv_def)
  have "card (set out) = card (set (graph_nodes g))"
    using o distinct_card [of "graph_nodes g"] distinct_card [of out] by (simp add: kahn_inv_def graph_nodes_def)
  then show "set ns = set (graph_nodes g)" using o by (simp add: kahn_inv_def card_subset_eq)
next
  fix g us n vs assume g: "graph_wf g" and ns: "static_order g = Some (us @ n # vs)"
  from static_order_out [OF g] ns obtain out where o: "kahn_inv g out []" "us @ n # vs = rev out"
    by (metis option.distinct(1) option.inject)
  then show "set (preds g n) \<subseteq> set us" unfolding kahn_inv_def by metis
next
  fix g assume g: "graph_wf g" "acyclic (edges g)"
  obtain out where o: "kahn_inv g out []"
    "static_order g = (if length out = length (graph_nodes g) then Some (rev out) else None)"
    using static_order_out [OF g(1)] .
  have "set out = set (graph_nodes g)"
    using ready_exists [OF g(2), of out] o(1) unfolding kahn_inv_def by auto
  then have "length out = length (graph_nodes g)"
    using o(1) distinct_card [of out] distinct_card [of "graph_nodes g"] by (simp add: kahn_inv_def graph_nodes_def)
  with o(2) show "\<exists>ns. static_order g = Some ns" by simp
qed

end
