(* ===== verification/Docker_Build.thy ===== *)
theory Docker_Build
  imports Docker_Config Py_Graphlib Py_Hashlib
begin

text \<open>
  \<open>.devkit/scripts/docker/build.py\<close>: content-addressed tags for the images of a project and the
  docker commands that provide them. The record \<open>runtime\<close> holds what the Python runtime decides:
  \<open>hashlib.sha256(..).hexdigest()\<close> of the bytes given, the order in which a set of strings is
  iterated, and \<open>str()\<close> of values that are not strings. Dependency names are strings, as the
  type \<open>ImageConfig\<close> says; any other value is reported as a \<open>TypeError\<close> when the graph is built.
\<close>

record runtime =
  rt_digest :: "string \<Rightarrow> string"
  rt_set_order :: "string list \<Rightarrow> string list"
  rt_repr :: "json \<Rightarrow> string"

section \<open>Environment checks\<close>

definition ensure_cloudsdk_python_is_set :: "unit py" where
  "ensure_cloudsdk_python_is_set =
     py_bind (getenv ''CLOUDSDK_PYTHON'') (\<lambda>v.
     case v of
       Some _ \<Rightarrow> py_ret ()
     | None \<Rightarrow>
         py_bind (os_path_exists (path_of ''/usr/bin/python3'')) (\<lambda>b3.
         if b3 then setenv ''CLOUDSDK_PYTHON'' ''/usr/bin/python3''
         else py_bind (os_path_exists (path_of ''/usr/bin/python'')) (\<lambda>b.
              py_when b (setenv ''CLOUDSDK_PYTHON'' ''/usr/bin/python''))))"

definition check_tool :: "string list \<Rightarrow> string \<Rightarrow> string \<Rightarrow> string option \<Rightarrow> unit py" where
  "check_tool cmd ok_msg error_msg log_file =
     py_try
       (py_bind (run_checked True cmd) (\<lambda>_. log_info ok_msg []))
       (\<lambda>e. is_CalledProcess e \<or> is_FileNotFound e)
       (\<lambda>e. py_seq (log_error error_msg [])
            (py_seq (py_when (log_file \<noteq> None) (py_eprint (''ERROR: '' @ error_msg)))
            (sys_exit 1)))"

definition check_docker_installed :: "string option \<Rightarrow> unit py" where
  "check_docker_installed log_file = check_tool [''docker'', ''--version''] ''Docker is installed.''
     ''Docker is not installed or not in PATH. Please install Docker.'' log_file"

definition check_docker_buildx_installed :: "string option \<Rightarrow> unit py" where
  "check_docker_buildx_installed log_file = check_tool [''docker'', ''buildx'', ''version'']
     ''Docker Buildx is installed.''
     ''Docker Buildx is not installed or not enabled. Please install/enable Docker Buildx.'' log_file"

section \<open>Image configurations\<close>

text \<open>\<open>ImageConfigsMap\<close>: the configuration of an image is kept as parsed, the fields \<open>deps\<close> and \<open>local\<close> are read when they are used.\<close>

type_synonym image_configs = "(string \<times> json) list"

definition load_image_configs :: "path list \<Rightarrow> image_configs py" where
  "load_image_configs search_paths =
     py_fold (\<lambda>path all_configs.
       let deps_file = path_sub path ''deps.json'' in
       py_bind (path_exists deps_file) (\<lambda>e.
       if e then
         py_seq (log_info ''Loading image configs from %s'' [path_str deps_file])
         (py_try
           (py_bind (json_load deps_file) (\<lambda>configs.
              case configs of
                JObj d \<Rightarrow> py_ret (dict_update all_configs d)
              | _ \<Rightarrow> py_seq (log_warning ''%s does not contain a dict of configs.'' [path_str deps_file])
                      (py_ret all_configs)))
           (\<lambda>e. e = JSONDecodeError)
           (\<lambda>e. py_seq (log_error ''Could not decode %s: %s'' [path_str deps_file, exn_str e]) (sys_exit 1)))
       else py_ret all_configs))
     search_paths []"

text \<open>\<open>conf["deps"].items()\<close>. A value that is not a string names no image: Python fails on it with a
  \<open>TypeError\<close> in \<open>set\<close> or in sorting, or with a \<open>KeyError\<close> when the image is looked up; here it is a
  \<open>TypeError\<close> in every case.\<close>

fun string_values :: "(string \<times> json) list \<Rightarrow> (string \<times> string) list result" where
  "string_values [] = Ok []"
| "string_values ((k, v) # kvs) =
     (case v of
        JStr s \<Rightarrow> r_bind (string_values kvs) (\<lambda>r. Ok ((k, s) # r))
      | _ \<Rightarrow> Exc TypeError)"

definition image_deps :: "json \<Rightarrow> (string \<times> string) list result" where
  "image_deps conf = r_bind (r_bind (py_getitem conf ''deps'') py_items) string_values"

fun full_graph :: "(string \<times> json) list \<Rightarrow> graph result" where
  "full_graph [] = Ok []"
| "full_graph ((name, conf) # cs) =
     r_bind (image_deps conf) (\<lambda>deps.
     r_bind (full_graph cs) (\<lambda>g. Ok ((name, dedup (map snd deps)) # g)))"

definition calculate_sha256 :: "runtime \<Rightarrow> path \<Rightarrow> string list \<Rightarrow> string py" where
  "calculate_sha256 R dockerfile_path sorted_build_args =
     py_bind (read_file dockerfile_path) (\<lambda>content.
     py_ret (rt_digest R (content @ concat sorted_build_args)))"

section \<open>The dependency graph\<close>

text \<open>The sorter sees each set of predecessors in Python's order.\<close>

definition sorted_graph :: "runtime \<Rightarrow> graph \<Rightarrow> string list option" where
  "sorted_graph R g = static_order (map (\<lambda>(n, ps). (n, rt_set_order R ps)) g)"

text \<open>The loop over \<open>nodes_to_visit\<close>; which element \<open>pop\<close> takes does not matter for the result.\<close>

function reach :: "graph \<Rightarrow> string list \<Rightarrow> string list \<Rightarrow> string list" where
  "reach g visited [] = visited"
| "reach g visited (n # ns) =
     (if n \<in> set visited then reach g visited ns
      else reach g (visited @ [n]) (case map_of g n of Some ps \<Rightarrow> ns @ ps | None \<Rightarrow> ns))"
  by pat_completeness auto
termination
proof (relation "inv_image (less_than <*lex*> less_than)
    (\<lambda>(g, visited, ns). (card (fst ` set g - set visited), length ns))", goal_cases)
  case (3 g visited n ns)
  show ?case
  proof (cases "map_of g n")
    case None
    then have "fst ` set g - set (visited @ [n]) = fst ` set g - set visited"
      by (auto simp: map_of_eq_None_iff)
    with None show ?thesis by (simp add: Un_commute)
  next
    case (Some ps)
    then have "n \<in> fst ` set g - set visited" using 3 by (force dest: map_of_SomeD)
    then have "card (fst ` set g - set (visited @ [n])) < card (fst ` set g - set visited)"
      by (intro psubset_card_mono) auto
    then show ?thesis by simp
  qed
qed auto

declare reach.simps [simp del]

definition get_dependency_subgraph :: "runtime \<Rightarrow> string list \<Rightarrow> (string \<times> json) list \<Rightarrow> string list py" where
  "get_dependency_subgraph R target_image_names image_configs_map =
     py_bind (of_result (full_graph image_configs_map)) (\<lambda>g.
     let visited_nodes = rt_set_order R (reach g [] (dedup target_image_names));
         subgraph = map (\<lambda>n. (n, preds g n)) (filter (\<lambda>n. map_of g n \<noteq> None) visited_nodes)
     in case sorted_graph R subgraph of
          Some ns \<Rightarrow> py_ret ns
        | None \<Rightarrow> py_seq (log_error ''Cycle detected in dependencies: %s'' [exn_str CycleError]) (sys_exit 1))"

section \<open>\<open>DockerBuilder\<close>\<close>

record builder =
  b_config_path :: path
  b_search_paths :: "path list"
  b_repo :: string
  b_namespace :: string
  b_arch :: string
  b_settings :: image_settings
  b_configs :: image_configs
  b_tags :: "(string \<times> string) list"

definition new_builder :: "path \<Rightarrow> path list \<Rightarrow> builder" where
  "new_builder config_path search_paths = \<lparr>b_config_path = config_path, b_search_paths = search_paths,
     b_repo = [], b_namespace = ''devkit'', b_arch = ''amd64'',
     b_settings = \<lparr>extra_packages = [], extra_keys = [], extra_repositories = []\<rparr>,
     b_configs = [], b_tags = []\<rparr>"

definition load_config :: "runtime \<Rightarrow> builder \<Rightarrow> builder py" where
  "load_config R b =
     py_bind (path_exists (b_config_path b)) (\<lambda>e.
     if \<not> e then
       py_seq (log_info ''devkit.json config file not found: %s'' [path_str (b_config_path b)]) (py_ret b)
     else
       py_try
         (py_bind (json_load (b_config_path b)) (\<lambda>config.
          py_bind (of_result (validate_config config CONFIG_SCHEMA [])) (\<lambda>_.
          py_bind (of_result (py_in ''docker'' config)) (\<lambda>d.
          if d then
            py_bind (of_result (parse_registry_config (rt_repr R) config)) (\<lambda>(repo, namespace).
            py_bind (load_images_config (rt_repr R) config) (\<lambda>settings.
            py_ret (b\<lparr>b_repo := repo, b_namespace := namespace, b_settings := settings\<rparr>)))
          else py_ret b))))
         is_ValueError
         (\<lambda>e. py_seq (log_error ''Could not load %s: %s'' [path_str (b_config_path b), exn_str e]) (sys_exit 1)))"

definition DockerBuilder :: "runtime \<Rightarrow> path \<Rightarrow> path list \<Rightarrow> builder py" where
  "DockerBuilder R config_path search_paths =
     py_bind (load_config R (new_builder config_path search_paths)) (\<lambda>b.
     py_bind (load_image_configs search_paths) (\<lambda>configs.
     py_ret (b\<lparr>b_configs := configs\<rparr>)))"

definition get_image_tag :: "builder \<Rightarrow> string \<Rightarrow> string \<Rightarrow> string" where
  "get_image_tag b image_name sha =
     (let image_path = b_namespace b @ ''/'' @ image_name;
          tag_suffix = b_arch b @ ''-'' @ sha
      in if b_repo b \<noteq> [] then b_repo b @ ''/'' @ image_path @ '':'' @ tag_suffix
         else image_path @ '':'' @ tag_suffix)"

text \<open>The method of the same name.\<close>

definition builder_dependency_subgraph :: "runtime \<Rightarrow> builder \<Rightarrow> string list \<Rightarrow> string list py" where
  "builder_dependency_subgraph R b target_image_names = get_dependency_subgraph R target_image_names (b_configs b)"

definition get_build_order :: "runtime \<Rightarrow> builder \<Rightarrow> string list \<Rightarrow> string list py" where
  "get_build_order R b target_images =
     (if target_images \<noteq> [] then
        py_bind (builder_dependency_subgraph R b target_images) (\<lambda>images_to_process.
        py_seq (log_info ''Processing Docker images %s and their dependencies: %s...''
                  [py_join '', '' target_images, py_join '', '' images_to_process])
        (py_ret images_to_process))
      else
        py_bind (of_result (full_graph (b_configs b))) (\<lambda>g.
        case sorted_graph R g of
          Some ns \<Rightarrow> py_seq (log_info ''Processing all Docker images...'' []) (py_ret ns)
        | None \<Rightarrow> py_seq (log_error ''Cycle detected in image dependencies: %s'' [exn_str CycleError]) (sys_exit 1)))"

fun find_dockerfile :: "path list \<Rightarrow> string \<Rightarrow> path option py" where
  "find_dockerfile [] dockerfile_name = py_ret None"
| "find_dockerfile (path # paths) dockerfile_name =
     py_bind (os_path_exists (path_sub path dockerfile_name)) (\<lambda>e.
     if e then py_ret (Some (path_sub path dockerfile_name)) else find_dockerfile paths dockerfile_name)"

definition os_realpath :: "path \<Rightarrow> path py" where
  "os_realpath p = py_get (\<lambda>w. Path ''/'' (realpath (w_fs w) (w_cwd w) p))"

text \<open>The three settings of an image that become build arguments, when they are not empty.\<close>

definition extra_args :: "builder \<Rightarrow> string \<Rightarrow> (string \<times> string) list" where
  "extra_args b image_name =
     concat (map (\<lambda>(m, arg_name). case map_of m image_name of
                    Some (v # vs) \<Rightarrow> [(arg_name, py_join '' '' (v # vs))]
                  | _ \<Rightarrow> [])
       [(extra_packages (b_settings b), ''EXTRA_PACKAGES''), (extra_keys (b_settings b), ''EXTRA_KEYS''),
        (extra_repositories (b_settings b), ''EXTRA_REPOSITORIES'')])"

definition recursion_limit :: nat where
  "recursion_limit = 1000"

text \<open>\<open>calculate_tag_for_image\<close>, with Python's bound on the depth of the recursion.\<close>

fun calculate_tag_for_image :: "runtime \<Rightarrow> nat \<Rightarrow> string \<Rightarrow> builder \<Rightarrow> (string \<times> builder) py" where
  "calculate_tag_for_image R 0 image_name b = py_raise RecursionError"
| "calculate_tag_for_image R (Suc k) image_name b =
     (case map_of (b_tags b) image_name of
        Some tag \<Rightarrow> py_ret (tag, b)
      | None \<Rightarrow>
          py_seq (log_info ''=== Calculating tag for: %s ==='' [image_name])
          (py_bind (of_opt (KeyError image_name) (map_of (b_configs b) image_name)) (\<lambda>image_conf.
           py_bind (of_result (image_deps image_conf)) (\<lambda>dependencies.
           let dockerfile_name = image_name @ ''.Dockerfile'' in
           py_bind (find_dockerfile (b_search_paths b) dockerfile_name) (\<lambda>found.
           case found of
             None \<Rightarrow>
               py_seq (log_error (''Dockerfile %s not found for image '' @ quoted ''%s'' @ '' in any of the search paths: %s.'')
                         [dockerfile_name, image_name, py_join '', '' (map path_str (b_search_paths b))])
               (sys_exit 1)
           | Some dockerfile_path \<Rightarrow>
               py_bind (os_realpath dockerfile_path) (\<lambda>dockerfile_path.
               py_bind (py_fold (\<lambda>(arg_name, dep_image_name) (args, b).
                          py_bind (calculate_tag_for_image R k dep_image_name b) (\<lambda>(dep_tag, b).
                          py_ret (args @ [arg_name @ ''='' @ dep_tag], b)))
                        dependencies ([], b)) (\<lambda>(args, b).
               py_bind (calculate_sha256 R dockerfile_path
                          (sort (args @ map (\<lambda>(a, v). a @ ''='' @ v) (extra_args b image_name)))) (\<lambda>sha.
               let tag = get_image_tag b image_name sha in
               py_seq (log_info ''Tag for %s: %s'' [image_name, tag])
               (py_ret (tag, b\<lparr>b_tags := dict_put image_name tag (b_tags b)\<rparr>))))))))))"

definition calculate_tags :: "runtime \<Rightarrow> builder \<Rightarrow> string list \<Rightarrow> string list py" where
  "calculate_tags R b target_images =
     py_bind (get_build_order R b target_images) (\<lambda>images_to_process.
     py_bind (py_fold (\<lambda>image_name b.
                py_bind (calculate_tag_for_image R recursion_limit image_name b) (\<lambda>(_, b). py_ret b))
              images_to_process b) (\<lambda>b.
     py_fold (\<lambda>name tags. py_bind (of_opt (KeyError name) (map_of (b_tags b) name)) (\<lambda>t. py_ret (tags @ [t])))
       images_to_process []))"

definition get_all_docker_image_tags :: "runtime \<Rightarrow> path \<Rightarrow> path list \<Rightarrow> string list \<Rightarrow> string list py" where
  "get_all_docker_image_tags R config_path search_paths target_images =
     py_bind (DockerBuilder R config_path search_paths) (\<lambda>b. calculate_tags R b target_images)"

section \<open>Docker operations\<close>

text \<open>\<open>print(s, file=sys.stderr, end="")\<close>\<close>

definition progress :: "string \<Rightarrow> unit py" where
  "progress s = emit (Stderr s)"

definition check_if_image_exists_locally :: "string \<Rightarrow> bool py" where
  "check_if_image_exists_locally tag =
     py_seq (log_info ''Checking for local image: %s'' [tag])
     (py_bind (run_proc [''docker'', ''image'', ''inspect'', tag]) (\<lambda>(n, out, err).
      if n = 0 then py_seq (log_info ''Image %s already exists locally.'' [tag]) (py_ret True)
      else py_seq (log_info ''Image %s not found locally.'' [tag]) (py_ret False)))"

text \<open>The loop over \<open>build_args_list\<close>; a name without a value is an \<open>IndexError\<close>.\<close>

fun build_arg_flags :: "string list \<Rightarrow> string list option" where
  "build_arg_flags [] = Some []"
| "build_arg_flags [a] = None"
| "build_arg_flags (a # v # rest) =
     map_option (\<lambda>fs. ''--build-arg'' # (a @ ''='' @ v) # fs) (build_arg_flags rest)"

definition log_output :: "string \<Rightarrow> string \<Rightarrow> unit py" where
  "log_output out err =
     py_seq (py_when (out \<noteq> []) (log_info (py_strip out) []))
       (py_when (err \<noteq> []) (log_warning (py_strip err) []))"

definition build_image :: "string \<Rightarrow> path \<Rightarrow> string list \<Rightarrow> path \<Rightarrow> bool \<Rightarrow> unit py" where
  "build_image tag dockerfile_path build_args_list context_path no_cache =
     py_seq (progress (''Building image: '' @ tag @ ''...''))
     (py_bind (of_opt IndexError (build_arg_flags build_args_list)) (\<lambda>flags.
      let docker_build_cmd = [''docker'', ''buildx'', ''build'', ''--tag'', tag, ''--file'', path_str dockerfile_path] @
            (if no_cache then [''--no-cache''] else []) @ flags @ [path_str context_path] in
      py_seq (log_info ''Executing build: %s'' [py_join '' '' docker_build_cmd])
      (py_bind (run_checked True docker_build_cmd) (\<lambda>(out, err).
       py_seq (py_eprint '' [OK]'')
       (py_seq (log_output out err)
       (log_info ''Image %s built successfully.'' [tag]))))))"

definition check_if_image_exists_in_remote_registry :: "string \<Rightarrow> bool py" where
  "check_if_image_exists_in_remote_registry tag =
     py_seq (log_info ''Checking for remote image manifest: %s'' [tag])
     (py_bind (run_proc [''docker'', ''manifest'', ''inspect'', tag]) (\<lambda>(n, out, err).
      if n = 0 then py_seq (log_info ''Image %s found in remote registry.'' [tag]) (py_ret True)
      else py_seq (log_info ''Image %s not found in remote registry.'' [tag]) (py_ret False)))"

definition pull_image_from_registry :: "string \<Rightarrow> unit py" where
  "pull_image_from_registry tag =
     py_seq (progress (''Pulling image: '' @ tag @ ''...''))
     (py_bind (run_checked True [''docker'', ''pull'', tag]) (\<lambda>(out, err).
      py_seq (py_eprint '' [OK]'')
      (py_seq (log_output out err)
      (log_info ''Image %s pulled successfully.'' [tag]))))"

definition push_image_to_registry :: "string \<Rightarrow> unit py" where
  "push_image_to_registry tag =
     py_seq (log_info ''Pushing image %s...'' [tag])
     (py_seq (progress (''Pushing image: '' @ tag @ ''...''))
     (py_bind (run_proc [''docker'', ''push'', tag]) (\<lambda>(n, out, err).
      if n = 0 then
        py_seq (py_eprint '' [OK]'')
        (py_seq (log_output out err)
        (log_info ''Image %s pushed successfully.'' [tag]))
      else
        py_seq (py_eprint '' [FAILED]'')
        (py_seq (log_warning ''Failed to push image %s. Continuing with local image.'' [tag])
        (py_when (err \<noteq> []) (log_warning ''Details: %s'' [py_strip err]))))))"

text \<open>The two \<open>except\<close> clauses of \<open>manage_docker_image\<close>.\<close>

definition docker_failed :: "string \<Rightarrow> exn \<Rightarrow> unit py" where
  "docker_failed tag e =
     (case e of
        CalledProcessError cmd n out err \<Rightarrow>
          py_seq (py_eprint '' [FAILED]'')
          (py_seq (log_error ''Error during Docker operation for %s:'' [tag])
          (py_seq (log_error ''Command: %s'' [py_join '' '' cmd])
          (py_seq (py_when (out \<noteq> []) (log_error ''Stdout: %s'' [py_strip out]))
          (py_seq (py_when (err \<noteq> []) (log_error ''Stderr: %s'' [py_strip err]))
          (sys_exit (if n \<noteq> 0 then n else 1))))))
      | _ \<Rightarrow>
          py_seq (log_error ''Docker command not found. Please ensure Docker is installed and in PATH.'' [])
          (sys_exit 1))"

definition manage_docker_image ::
  "string \<Rightarrow> path \<Rightarrow> string list \<Rightarrow> path \<Rightarrow> bool \<Rightarrow> bool \<Rightarrow> string \<Rightarrow> unit py" where
  "manage_docker_image tag dockerfile_path build_args_list context_path local_image_mode no_cache repo =
     py_try
       (py_bind (if \<not> no_cache then check_if_image_exists_locally tag else py_ret False) (\<lambda>here.
        if here then py_ret ()
        else if repo = [] \<or> local_image_mode then
          py_seq (py_when (repo = []) (log_warning ''Docker registry is not defined.'' []))
          (build_image tag dockerfile_path build_args_list context_path no_cache)
        else
          py_bind (if \<not> no_cache then check_if_image_exists_in_remote_registry tag else py_ret False) (\<lambda>there.
          if there then pull_image_from_registry tag
          else py_seq (build_image tag dockerfile_path build_args_list context_path no_cache)
                 (push_image_to_registry tag))))
       (\<lambda>e. is_CalledProcess e \<or> is_FileNotFound e)
       (docker_failed tag)"

section \<open>Building\<close>

text \<open>The build arguments of an image, as the alternating list the source builds.\<close>

fun dependency_args :: "(string \<times> string) list \<Rightarrow> (string \<times> string) list \<Rightarrow> string list py" where
  "dependency_args tags [] = py_ret []"
| "dependency_args tags ((arg_name, dep) # deps) =
     py_bind (of_opt (KeyError dep) (map_of tags dep)) (\<lambda>t.
     py_bind (dependency_args tags deps) (\<lambda>rest. py_ret (arg_name # t # rest)))"

definition flatten_pairs :: "(string \<times> string) list \<Rightarrow> string list" where
  "flatten_pairs kvs = concat (map (\<lambda>(a, v). [a, v]) kvs)"

text \<open>\<open>local_flag or image_conf.get("local", False)\<close>\<close>

definition local_mode :: "bool \<Rightarrow> json \<Rightarrow> bool result" where
  "local_mode local_flag conf =
     (if local_flag then Ok True
      else case conf of
        JObj d \<Rightarrow> Ok (case map_of d ''local'' of Some v \<Rightarrow> py_truth v | None \<Rightarrow> False)
      | _ \<Rightarrow> Exc AttributeError)"

definition process_image :: "runtime \<Rightarrow> bool \<Rightarrow> bool \<Rightarrow> string option \<Rightarrow> string \<Rightarrow> builder \<Rightarrow> builder py" where
  "process_image R no_cache local_flag print_target image_name b =
     py_bind (calculate_tag_for_image R recursion_limit image_name b) (\<lambda>(tag, b).
     py_bind (of_opt (KeyError image_name) (map_of (b_configs b) image_name)) (\<lambda>image_conf.
     py_bind (of_result (local_mode local_flag image_conf)) (\<lambda>local_image_mode.
     let dockerfile_name = image_name @ ''.Dockerfile'' in
     py_bind (find_dockerfile (b_search_paths b) dockerfile_name) (\<lambda>found.
     case found of
       None \<Rightarrow> py_seq (log_error ''Dockerfile %s not found.'' [dockerfile_name]) (sys_exit 1)
     | Some dockerfile_path \<Rightarrow>
         py_bind (os_realpath dockerfile_path) (\<lambda>dockerfile_path.
         py_bind (of_result (image_deps image_conf)) (\<lambda>dependencies.
         py_bind (dependency_args (b_tags b) dependencies) (\<lambda>dep_args.
         py_seq (manage_docker_image tag dockerfile_path (dep_args @ flatten_pairs (extra_args b image_name))
                   (path_parent dockerfile_path) local_image_mode no_cache (b_repo b))
         (if print_target = Some image_name then py_seq (py_print tag) (sys_exit 0) else py_ret b))))))))"

definition build_images :: "runtime \<Rightarrow> builder \<Rightarrow> string list \<Rightarrow> bool \<Rightarrow> bool \<Rightarrow> bool \<Rightarrow> unit py" where
  "build_images R b target_images print_tag_mode no_cache local_flag =
     py_bind (get_build_order R b target_images) (\<lambda>images_to_process.
     py_bind (if print_tag_mode then of_opt IndexError (case target_images of [] \<Rightarrow> None | t # _ \<Rightarrow> Some (Some t))
              else py_ret None) (\<lambda>print_target.
     py_bind (py_fold (process_image R no_cache local_flag print_target) images_to_process b) (\<lambda>b.
     py_when (\<not> print_tag_mode)
       (if target_images \<noteq> [] then
          log_info ''Targeted Docker images %s and dependencies processed successfully.'' [py_join '', '' target_images]
        else log_info ''All Docker images processed successfully.'' []))))"

section \<open>The program\<close>

definition build_parser :: parser where
  "build_parser = \<lparr>p_opts =
     [help_opt,
      mk_opt [''--print-tag''] ''print_tag'' NFlag,
      (mk_opt [''--config''] ''config'' NOne)\<lparr>o_required := True\<rparr>,
      (mk_opt [''--search-path''] ''search_path'' NAppend)\<lparr>o_required := True\<rparr>,
      mk_opt [''--local''] ''local'' NFlag,
      mk_opt [''--no-cache''] ''no_cache'' NFlag,
      mk_opt [''--log-file''] ''log_file'' NOne],
     p_positional = Some ''target_images''\<rparr>"

definition check_targets :: "string list \<Rightarrow> bool \<Rightarrow> string list \<Rightarrow> unit py" where
  "check_targets all_image_names print_tag target_images =
     (if print_tag then
        (case target_images of
           [t] \<Rightarrow>
             py_when (t \<notin> set all_image_names)
               (py_seq (log_error (''Target image '' @ quoted ''%s'' @ '' for --print-tag is not a valid image name.'') [t])
                  (sys_exit 1))
         | _ \<Rightarrow>
             py_seq (log_error ''--print-tag requires exactly one target_image to be specified.'' [])
               (sys_exit 1))
      else
        py_for target_images (\<lambda>ti.
          py_when (ti \<notin> set all_image_names)
            (py_seq (log_error (''Specified target image '' @ quoted ''%s'' @ '' is not a valid image name.'') [ti])
            (py_seq (log_error ''Choose from: %s'' [py_join '', '' all_image_names])
            (sys_exit 1)))))"

definition build_main :: "runtime \<Rightarrow> string list \<Rightarrow> unit py" where
  "build_main R argv =
     py_seq ensure_cloudsdk_python_is_set
     (py_bind (parse_args build_parser argv) (\<lambda>args.
      py_seq (basic_config (arg_value args ''log_file''))
      (py_seq (check_docker_installed (arg_value args ''log_file''))
      (py_seq (check_docker_buildx_installed (arg_value args ''log_file''))
      (py_bind (DockerBuilder R (path_of (arg_default args ''config'' [])) (map path_of (arg_list args ''search_path''))) (\<lambda>b.
       let target_images = arg_list args ''target_images'' in
       py_seq (check_targets (map fst (b_configs b)) (arg_flag args ''print_tag'') target_images)
       (build_images R b target_images (arg_flag args ''print_tag'') (arg_flag args ''no_cache'')
          (arg_flag args ''local''))))))))"

end
