(* ===== verification/Py_Reads.thy ===== *)
theory Py_Reads
  imports Py_Frame
begin

text \<open>
  Computations that leave the files alone, and among them those whose result depends on the files
  only: run again later on the same files they give the same result.
\<close>

definition same_files :: "world \<Rightarrow> world \<Rightarrow> bool" where
  "same_files w w' = (w_fs w' = w_fs w \<and> w_cwd w' = w_cwd w)"

lemma same_files_simps [simp]: "same_files w w" "same_files w (traced w' e) = same_files w w'"
  by (simp_all add: same_files_def)

lemma same_files_sym: "same_files w w' \<Longrightarrow> same_files w' w"
  by (simp add: same_files_def)

lemma same_files_trans: "same_files w w' \<Longrightarrow> same_files w' w'' \<Longrightarrow> same_files w w''"
  by (simp add: same_files_def)

interpretation fl: event_frame same_files "\<lambda>_. True"
  by unfold_locales (auto intro: same_files_trans)

abbreviation keeps_files :: "'a py \<Rightarrow> bool" where
  "keeps_files m \<equiv> keeps same_files m"

definition reads_only :: "'a py \<Rightarrow> bool" where
  "reads_only m = (keeps_files m \<and> (\<forall>w w'. same_files w w' \<longrightarrow> fst (m w') = fst (m w)))"

named_theorems reads_intros

lemma reads_onlyD: "reads_only m \<Longrightarrow> same_files w w' \<Longrightarrow> fst (m w') = fst (m w)"
  by (simp add: reads_only_def)

lemma reads_keeps: "reads_only m \<Longrightarrow> keeps_files m"
  by (simp add: reads_only_def)

lemma reads_bind [reads_intros]:
  assumes m: "reads_only m" and f: "\<And>x. reads_only (f x)"
  shows "reads_only (py_bind m f)"
  unfolding reads_only_def
proof (intro conjI allI impI)
  show "keeps_files (py_bind m f)" using m f by (intro fl.frame_bind) (auto simp: reads_only_def)
  fix w w' :: world assume s: "same_files w w'"
  obtain r w1 r' w1' where run: "m w = (r, w1)" "m w' = (r', w1')" by fastforce
  have eq: "r' = r" using reads_onlyD [OF m s] run by simp
  have "same_files w1 w1'"
    using keepsD [OF reads_keeps [OF m] run(1)] keepsD [OF reads_keeps [OF m] run(2)] s
    by (auto simp: same_files_def)
  then show "fst (py_bind m f w') = fst (py_bind m f w)"
    using run eq reads_onlyD [OF f] by (cases r) (auto simp: py_bind_def)
qed

lemma reads_seq [reads_intros]: "reads_only m \<Longrightarrow> reads_only k \<Longrightarrow> reads_only (py_seq m k)"
  unfolding py_seq_def by (rule reads_bind)

lemma reads_try [reads_intros]:
  assumes m: "reads_only m" and h: "\<And>e. reads_only (h e)"
  shows "reads_only (py_try m c h)"
  unfolding reads_only_def
proof (intro conjI allI impI)
  show "keeps_files (py_try m c h)" using m h by (intro fl.frame_try) (auto simp: reads_only_def)
  fix w w' :: world assume s: "same_files w w'"
  obtain r w1 r' w1' where run: "m w = (r, w1)" "m w' = (r', w1')" by fastforce
  have eq: "r' = r" using reads_onlyD [OF m s] run by simp
  have "same_files w1 w1'"
    using keepsD [OF reads_keeps [OF m] run(1)] keepsD [OF reads_keeps [OF m] run(2)] s
    by (auto simp: same_files_def)
  then show "fst (py_try m c h w') = fst (py_try m c h w)"
    using run eq reads_onlyD [OF h] by (cases r) (auto simp: py_try_def)
qed

lemma reads_basic [reads_intros]:
  "reads_only (py_ret x)" "reads_only (py_raise e)" "reads_only (sys_exit n)" "reads_only (emit ev)"
  "reads_only (log_info f xs)" "reads_only (log_warning f xs)" "reads_only (log_error f xs)"
  "reads_only (py_print s)" "reads_only (py_eprint s)" "reads_only (of_opt e y)"
  by (auto simp: reads_only_def keeps_def same_files_def py_simps split: option.splits)

lemma reads_files [reads_intros]:
  "reads_only (path_exists p)" "reads_only (os_path_exists p)" "reads_only (path_resolve p)" "reads_only (read_file p)"
  by (auto simp: reads_only_def keeps_def same_files_def path_exists_def lift_probe_def os_path_exists_def
      path_resolve_def read_file_def split: sum.splits option.splits fs_error.splits)

lemma reads_json_load [reads_intros]: "reads_only (json_load p)"
  unfolding json_load_def by (intro reads_intros)

lemma reads_of_result [reads_intros]: "reads_only (of_result r)"
  by (simp add: reads_only_def keeps_def of_result_def)

lemma reads_fold [reads_intros]: "(\<And>x s. x \<in> set xs \<Longrightarrow> reads_only (f x s)) \<Longrightarrow> reads_only (py_fold f xs s)"
  by (induction xs arbitrary: s) (auto intro!: reads_intros)

lemma reads_for [reads_intros]: "(\<And>x. x \<in> set xs \<Longrightarrow> reads_only (f x)) \<Longrightarrow> reads_only (py_for xs f)"
  by (induction xs) (auto intro!: reads_intros)

lemma reads_when [reads_intros]: "reads_only m \<Longrightarrow> reads_only (py_when b m)"
  by (simp add: py_when_def reads_basic)

lemma wp_keeps: "keeps_files m \<Longrightarrow> wp m (\<lambda>_ w'. same_files w w') (\<lambda>_ w'. same_files w w') w"
  by (auto simp: wp_def keeps_def split: prod.split result.split) (metis snd_conv)+

lemmas keeps_proc = fl.frame_proc [OF TrueI] fl.frame_checked [OF TrueI] fl.frame_poll [OF TrueI]

end
