(* ===== verification/Docker_Build_Frame.thy ===== *)
theory Docker_Build_Frame
  imports Docker_Build Py_Reads
begin

text \<open>
  What \<open>.devkit/scripts/docker/build.py\<close> leaves unchanged: the configuration loader and the computation of the tags
  read files and log, so they keep every relation that allows logging; the operations on an image also start
  commands, but print nothing. What the tags are depends on the files only.
\<close>

context log_frame
begin

lemma frame_find_dockerfile: "keeps R (find_dockerfile paths name)"
  by (induction paths) (auto intro!: log_rules)

lemma frame_sha256: "keeps R (calculate_sha256 run p args)"
  unfolding calculate_sha256_def by (auto intro!: log_rules)

lemma frame_load_config: "keeps R (load_config run b)"
  unfolding load_config_def load_images_config_def load_image_settings_def load_packages_def Let_def
  by (intro log_rules | simp add: log_rules split: prod.split option.split)+

lemma frame_image_configs: "keeps R (load_image_configs paths)"
  unfolding load_image_configs_def Let_def
  by (intro log_rules | simp add: log_rules split: json.split)+

lemma frame_build_order: "keeps R (get_build_order run b targets)"
  unfolding get_build_order_def builder_dependency_subgraph_def get_dependency_subgraph_def Let_def
  by (auto intro!: log_rules split: option.split)

lemma frame_calculate_tag: "keeps R (calculate_tag_for_image run k n b)"
proof (induction k arbitrary: n b)
  case (Suc k)
  show ?case unfolding calculate_tag_for_image.simps os_realpath_def Let_def
    by (auto intro!: log_rules frame_find_dockerfile frame_sha256 Suc.IH split: option.split)
qed (simp add: log_rules)

lemma frame_builder: "keeps R (DockerBuilder run config_path search_paths)"
  unfolding DockerBuilder_def by (auto intro!: log_rules frame_load_config frame_image_configs)

lemma frame_all_tags: "keeps R (get_all_docker_image_tags run config_path search_paths targets)"
  unfolding get_all_docker_image_tags_def calculate_tags_def
  by (auto intro!: log_rules frame_builder frame_build_order frame_calculate_tag)

lemma frame_image_prefix: "keeps R (get_image_prefix rep p)"
  unfolding get_image_prefix_def by (auto intro!: log_rules)

lemma frame_dependency_args: "keeps R (dependency_args tags deps)"
  by (induction tags deps rule: dependency_args.induct) (auto intro!: log_rules)

lemma frame_targets: "keeps R (check_targets names print_tag targets)"
  unfolding check_targets_def by (auto intro!: log_rules split: list.split)

text \<open>The operations that start commands.\<close>

lemma frame_tool: "allows (Spawn cmd) \<Longrightarrow> keeps R (check_tool cmd ok_msg error_msg log_file)"
  unfolding check_tool_def by (auto intro!: log_rules frame_checked)

lemma frame_manage:
  assumes "\<And>c. allows (Spawn c)"
  shows "keeps R (manage_docker_image tag df args ctx local_image_mode no_cache repo)"
proof -
  have says: "keeps R (log_output out err)" "keeps R (progress s)" for out err s
    unfolding log_output_def progress_def by (auto intro!: log_rules frame_emit allows_log)
  have build: "keeps R (build_image tag df args ctx nc)" for nc
    unfolding build_image_def Let_def by (auto intro!: log_rules says frame_checked assms)
  have pull: "keeps R (pull_image_from_registry tag)"
    unfolding pull_image_from_registry_def by (auto intro!: log_rules says frame_checked assms)
  have push: "keeps R (push_image_to_registry tag)"
    unfolding push_image_to_registry_def by (auto intro!: log_rules says frame_proc assms)
  have look: "keeps R (check_if_image_exists_locally tag)" "keeps R (check_if_image_exists_in_remote_registry tag)"
    unfolding check_if_image_exists_locally_def check_if_image_exists_in_remote_registry_def
    by (auto intro!: log_rules frame_proc assms)
  have failed: "keeps R (docker_failed tag e)" for e
    unfolding docker_failed_def by (auto intro!: log_rules split: exn.split)
  show ?thesis unfolding manage_docker_image_def by (auto intro!: log_rules build pull push look failed)
qed

end

section \<open>The tags depend on the files only\<close>

lemma reads_realpath [reads_intros]: "reads_only (os_realpath p)"
  by (auto simp: reads_only_def keeps_def os_realpath_def py_get_def same_files_def)

lemma reads_find_dockerfile [reads_intros]: "reads_only (find_dockerfile paths name)"
  by (induction paths) (auto intro!: reads_intros)

lemma reads_config [reads_intros]: "reads_only (load_config R b)"
  unfolding load_config_def load_images_config_def load_image_settings_def load_packages_def Let_def
  by (intro reads_intros | simp add: reads_intros split: prod.split option.split)+

lemma reads_image_configs [reads_intros]: "reads_only (load_image_configs paths)"
  unfolding load_image_configs_def Let_def
  by (intro reads_intros | simp add: reads_intros split: json.split)+

lemma reads_builder [reads_intros]: "reads_only (DockerBuilder R config_path search_paths)"
  unfolding DockerBuilder_def by (auto intro!: reads_intros)

lemma reads_build_order [reads_intros]: "reads_only (get_build_order R b targets)"
  unfolding get_build_order_def builder_dependency_subgraph_def get_dependency_subgraph_def Let_def
  by (auto intro!: reads_intros split: option.split)

lemma reads_calculate_tag [reads_intros]: "reads_only (calculate_tag_for_image R k n b)"
proof (induction k arbitrary: n b)
  case (Suc k)
  show ?case unfolding calculate_tag_for_image.simps calculate_sha256_def Let_def
    by (auto intro!: reads_intros Suc.IH split: option.split)
qed (simp add: reads_intros)

lemma reads_all_tags: "reads_only (get_all_docker_image_tags R config_path search_paths targets)"
  unfolding get_all_docker_image_tags_def calculate_tags_def
  by (auto intro!: reads_intros)

end
