(* ===== verification/Docker_Build_Tags.thy ===== *)
theory Docker_Build_Tags
  imports Docker_Build_Frame
begin

text \<open>
  The tags of \<open>DockerBuilder\<close>: they follow the dependency order, the recursion never goes deeper
  than one level, every tag is the digest of the image's Dockerfile, build arguments and the tags
  of its dependencies, and the tags do not depend on the order in which Python iterates over sets.
\<close>

section \<open>The build order\<close>

text \<open>What Python guarantees of iterating over a set.\<close>

definition enumerates :: "(string list \<Rightarrow> string list) \<Rightarrow> bool" where
  "enumerates so = (\<forall>xs. distinct xs \<longrightarrow> distinct (so xs) \<and> set (so xs) = set xs)"

lemma reach_props:
  "distinct visited \<Longrightarrow> (\<forall>n \<in> set visited. set (preds g n) \<subseteq> set visited \<union> set ns) \<Longrightarrow>
   distinct (reach g visited ns) \<and> set visited \<union> set ns \<subseteq> set (reach g visited ns) \<and>
   (\<forall>n \<in> set (reach g visited ns). set (preds g n) \<subseteq> set (reach g visited ns))"
proof (induction g visited ns rule: reach.induct)
  case (2 g visited n ns)
  show ?case
  proof (cases "n \<in> set visited")
    case True
    with 2 show ?thesis by (auto simp: reach.simps(2) insert_absorb)
  next
    case False
    let ?rest = "case map_of g n of Some ps \<Rightarrow> ns @ ps | None \<Rightarrow> ns"
    have rest: "set ?rest = set ns \<union> set (preds g n)" by (simp add: preds_def split: option.splits)
    have "distinct (visited @ [n])" "\<forall>m \<in> set (visited @ [n]). set (preds g m) \<subseteq> set (visited @ [n]) \<union> set ?rest"
      using False "2.prems" rest by auto
    from "2.IH"(2) [OF False this] False rest show ?thesis by (auto simp: reach.simps(2))
  qed
qed (auto simp: reach.simps)

text \<open>An order in which every image comes after the images its configuration depends on.\<close>

definition deps_first :: "(string \<times> json) list \<Rightarrow> string list \<Rightarrow> bool" where
  "deps_first configs ns = (distinct ns \<and> (\<forall>us n vs conf deps. ns = us @ n # vs \<longrightarrow> map_of configs n = Some conf \<longrightarrow>
     image_deps conf = Ok deps \<longrightarrow> snd ` set deps \<subseteq> set us))"

lemma full_graph_keys: "full_graph cs = Ok g \<Longrightarrow> map fst g = map fst cs"
  by (induction cs arbitrary: g rule: full_graph.induct)
    (auto simp: r_bind_def split: result.splits)

lemma full_graph_entry:
  "full_graph cs = Ok g \<Longrightarrow> map_of cs n = Some conf \<Longrightarrow> \<exists>deps. image_deps conf = Ok deps \<and> map_of g n = Some (dedup (map snd deps))"
  by (induction cs arbitrary: g rule: full_graph.induct)
    (auto simp: r_bind_def split: result.splits if_splits)

text \<open>The sorter's graph, with every set in Python's order.\<close>

definition ordered :: "runtime \<Rightarrow> graph \<Rightarrow> graph" where
  "ordered R g = map (\<lambda>(n, ps). (n, rt_set_order R ps)) g"

lemma ordered_wf: "graph_wf (ordered R g) = graph_wf g"
  by (simp add: ordered_def graph_wf_def split_def comp_def)

lemma map_of_ordered: "map_of (ordered R g) n = map_option (rt_set_order R) (map_of g n)"
  by (induction g) (auto simp: ordered_def)

lemma sorted_graph_deps_first:
  assumes so: "enumerates (rt_set_order R)" and "graph_wf g" "sorted_graph R g = Some ns"
    and "\<And>n conf deps. n \<in> set (graph_nodes (ordered R g)) \<Longrightarrow> map_of configs n = Some conf \<Longrightarrow> image_deps conf = Ok deps \<Longrightarrow>
           map_of g n = Some (dedup (map snd deps))"
  shows "deps_first configs ns \<and> set ns = set (graph_nodes (ordered R g))"
proof -
  have wf: "graph_wf (ordered R g)" using assms(2) by (simp add: ordered_wf)
  have ns: "static_order (ordered R g) = Some ns" using assms(3) by (simp add: sorted_graph_def ordered_def)
  note nodes = ts.order_nodes [OF wf ns]
  have "snd ` set deps \<subseteq> set us"
    if "ns = us @ n # vs" "map_of configs n = Some conf" "image_deps conf = Ok deps" for us n vs conf deps
  proof -
    from that(1) nodes have "n \<in> set (graph_nodes (ordered R g))" by auto
    from assms(4) [OF this that(2,3)] have "preds (ordered R g) n = rt_set_order R (dedup (map snd deps))"
      by (simp add: preds_def map_of_ordered)
    moreover have "set (preds (ordered R g) n) \<subseteq> set us" using ts.order_preds [OF wf] ns that(1) by blast
    ultimately show ?thesis using so by (simp add: enumerates_def)
  qed
  with ts.order_distinct [OF wf ns] nodes show ?thesis by (auto simp: deps_first_def)
qed

lemma map_of_graph: "n \<in> set xs \<Longrightarrow> map_of (map (\<lambda>n. (n, f n)) xs) n = Some (f n)"
  by (induction xs) auto

lemma graph_nodes_iff: "n \<in> set (graph_nodes g) \<longleftrightarrow> (\<exists>e \<in> set g. n = fst e \<or> n \<in> set (snd e))"
  unfolding graph_nodes_def dedup_simps by auto

text \<open>The nodes reachable from the targets, with all that is needed to sort them.\<close>

lemma subgraph_deps_first:
  assumes so: "enumerates (rt_set_order R)" and "distinct (map fst configs)" "full_graph configs = Ok g"
    and sub: "sub = map (\<lambda>n. (n, preds g n)) (filter (\<lambda>n. map_of g n \<noteq> None) (rt_set_order R (reach g [] (dedup targets))))"
    and "sorted_graph R sub = Some ns"
  shows "deps_first configs ns"
proof -
  let ?V = "rt_set_order R (reach g [] (dedup targets))"
  from reach_props [of "[]" g "dedup targets"] have R: "distinct (reach g [] (dedup targets))"
    "\<And>n. n \<in> set (reach g [] (dedup targets)) \<Longrightarrow> set (preds g n) \<subseteq> set (reach g [] (dedup targets))" by auto
  then have V: "distinct ?V" "\<And>n. n \<in> set ?V \<Longrightarrow> set (preds g n) \<subseteq> set ?V" using so by (simp_all add: enumerates_def)
  have wf: "graph_wf sub" using V(1) by (simp add: sub graph_wf_def comp_def)
  have dist: "distinct (preds g n)" for n
  proof (cases "map_of g n")
    case (Some ps)
    have "map_of configs n \<noteq> None"
      using Some full_graph_keys [OF assms(3)] by (metis map_of_eq_None_iff option.distinct(1) list.set_map)
    then obtain conf where "map_of configs n = Some conf" by blast
    from full_graph_entry [OF assms(3) this] show ?thesis by (auto simp: preds_def)
  qed (simp add: preds_def)
  have visited: "n \<in> set ?V" if n: "n \<in> set (graph_nodes (ordered R sub))" for n
  proof -
    from n [unfolded graph_nodes_iff] obtain e where e: "e \<in> set (ordered R sub)" "n = fst e \<or> n \<in> set (snd e)" by blast
    from e(1) obtain m where m: "m \<in> set ?V" "e = (m, rt_set_order R (preds g m))" by (auto simp: ordered_def sub)
    have "set (rt_set_order R (preds g m)) = set (preds g m)" using so dist by (simp add: enumerates_def)
    with e(2) m V(2) show ?thesis by auto
  qed
  have "map_of sub n = Some (dedup (map snd deps))"
    if n: "n \<in> set (graph_nodes (ordered R sub))" "map_of configs n = Some conf" "image_deps conf = Ok deps" for n conf deps
  proof -
    from full_graph_entry [OF assms(3) n(2)] n(3) have g: "map_of g n = Some (dedup (map snd deps))" by auto
    with visited [OF n(1)] have "map_of sub n = Some (preds g n)" unfolding sub by (intro map_of_graph) simp
    with g show ?thesis by (simp add: preds_def)
  qed
  from sorted_graph_deps_first [OF so wf assms(5), of configs, OF this] show ?thesis by simp
qed

lemma get_build_order_wp:
  assumes "enumerates (rt_set_order R)" "distinct (map fst (b_configs b))" "same_files w0 w"
  shows "wp (get_build_order R b targets) (\<lambda>ns w'. deps_first (b_configs b) ns \<and> same_files w0 w')
    (\<lambda>e w'. e \<noteq> RecursionError) w"
proof -
  have graph_exc: "full_graph cs = Exc e \<Longrightarrow> e \<noteq> RecursionError" for cs e
  proof (induction cs arbitrary: e rule: full_graph.induct)
    case (2 name conf cs)
    have "string_values kvs = Exc e' \<Longrightarrow> e' = TypeError" for kvs e'
      by (induction kvs arbitrary: e' rule: string_values.induct) (auto simp: r_bind_def split: json.splits result.splits)
    then have "image_deps conf = Exc e' \<Longrightarrow> e' \<noteq> RecursionError" for e'
      by (auto simp: image_deps_def r_bind_def py_getitem_def py_items_def split: result.splits json.splits option.splits)
    with 2 show ?case by (auto simp: r_bind_def split: result.splits)
  qed simp
  show ?thesis
  proof (cases "full_graph (b_configs b)")
    case (Exc e)
    with graph_exc [OF this] show ?thesis
      by (simp add: get_build_order_def builder_dependency_subgraph_def get_dependency_subgraph_def wp_simps)
  next
    case (Ok g)
    have wf: "graph_wf g" using assms(2) full_graph_keys [OF Ok] by (simp add: graph_wf_def)
    have all: "deps_first (b_configs b) ns" if "sorted_graph R g = Some ns" for ns
      using sorted_graph_deps_first [OF assms(1) wf that, of "b_configs b"] full_graph_entry [OF Ok] by fastforce
    show ?thesis
      unfolding get_build_order_def builder_dependency_subgraph_def get_dependency_subgraph_def Let_def
      using subgraph_deps_first [OF assms(1,2) Ok refl] all assms(3) Ok
      by (auto simp: wp_simps split: option.split)
  qed
qed

section \<open>What a tag is\<close>

definition dockerfile_of :: "world \<Rightarrow> path list \<Rightarrow> string \<Rightarrow> path option" where
  "dockerfile_of w paths name =
     find (\<lambda>p. case fs_stat (w_fs w) (w_cwd w) p of Inl _ \<Rightarrow> False | Inr _ \<Rightarrow> True) (map (\<lambda>d. path_sub d name) paths)"

lemma find_dockerfile_eq: "find_dockerfile paths name w = (Ok (dockerfile_of w paths name), w)"
  by (induction paths)
    (auto simp: dockerfile_of_def py_simps os_path_exists_def split: sum.splits)

definition image_content :: "world \<Rightarrow> builder \<Rightarrow> string \<Rightarrow> string option" where
  "image_content w b n =
     (case dockerfile_of w (b_search_paths b) (n @ ''.Dockerfile'') of
        None \<Rightarrow> None
      | Some p \<Rightarrow> fs_read (w_fs w) (w_cwd w) (Path ''/'' (realpath (w_fs w) (w_cwd w) p)))"

definition dep_tag_args :: "(string \<rightharpoonup> string) \<Rightarrow> (string \<times> string) list \<Rightarrow> string list" where
  "dep_tag_args tags deps = map (\<lambda>(a, d). a @ ''='' @ the (tags d)) deps"

text \<open>The tag of an image, given the tags of the images it depends on: the name and the digest of
  the Dockerfile followed by the sorted build arguments.\<close>

definition tag_value :: "runtime \<Rightarrow> world \<Rightarrow> builder \<Rightarrow> (string \<rightharpoonup> string) \<Rightarrow> string \<Rightarrow> string option" where
  "tag_value R w b tags n =
     (case map_of (b_configs b) n of
        Some conf \<Rightarrow>
          (case image_deps conf of
             Ok deps \<Rightarrow>
               (case image_content w b n of
                  Some content \<Rightarrow>
                    if \<forall>(a, d) \<in> set deps. tags d \<noteq> None then
                      Some (get_image_tag b n (rt_digest R (content @ concat (sort
                        (dep_tag_args tags deps @
                         map (\<lambda>(a, v). a @ ''='' @ v) (extra_args b n))))))
                    else None
                | None \<Rightarrow> None)
           | Exc e \<Rightarrow> None)
      | None \<Rightarrow> None)"

text \<open>Two builders that differ in the tags computed so far only.\<close>

definition same_config :: "builder \<Rightarrow> builder \<Rightarrow> bool" where
  "same_config b b' = (b' = b\<lparr>b_tags := b_tags b'\<rparr>)"

lemma same_config_refl [simp]: "same_config b b"
  by (simp add: same_config_def)

lemma same_config_tags [simp]: "same_config b (b'\<lparr>b_tags := t\<rparr>) = same_config b b'"
  by (cases b; cases b') (simp add: same_config_def)

lemma same_config_fields:
  assumes "same_config b b'"
  shows "b_configs b' = b_configs b" "b_search_paths b' = b_search_paths b" "b_settings b' = b_settings b"
    "b_namespace b' = b_namespace b" "b_repo b' = b_repo b" "b_arch b' = b_arch b"
  using assms by (cases b; cases b'; simp add: same_config_def)+

lemma same_config_eqs:
  assumes "same_config b b'"
  shows "get_image_tag b' = get_image_tag b" "extra_args b' = extra_args b" "image_content w b' = image_content w b"
    "tag_value R w b' = tag_value R w b"
proof -
  note f = same_config_fields [OF assms]
  show g: "get_image_tag b' = get_image_tag b" "extra_args b' = extra_args b" "image_content w b' = image_content w b"
    unfolding fun_eq_iff get_image_tag_def extra_args_def image_content_def f by simp_all
  show "tag_value R w b' = tag_value R w b" unfolding fun_eq_iff tag_value_def f(1) g by simp
qed

lemma same_files_eqs:
  assumes "same_files w w'"
  shows "image_content w' b = image_content w b" "dockerfile_of w' = dockerfile_of w" "tag_value R w' b = tag_value R w b"
proof -
  show d: "dockerfile_of w' = dockerfile_of w" using assms by (simp add: fun_eq_iff dockerfile_of_def same_files_def)
  have f: "w_fs w' = w_fs w" "w_cwd w' = w_cwd w" using assms by (simp_all add: same_files_def)
  show c: "image_content w' b = image_content w b" unfolding fun_eq_iff image_content_def d f by simp
  show "tag_value R w' b = tag_value R w b" unfolding fun_eq_iff tag_value_def c by simp
qed

lemma dockerfile_of_traced [simp]: "dockerfile_of (traced w e) = dockerfile_of w"
  by (simp add: same_files_eqs(2))

lemma tag_value_mono:
  assumes "tag_value R w b tags n = Some t" "tags \<subseteq>\<^sub>m tags'"
  shows "tag_value R w b tags' n = Some t"
proof -
  have eq: "tags d \<noteq> None \<Longrightarrow> tags' d = tags d" for d using assms(2) by (force simp: map_le_def dom_def)
  from assms(1) obtain conf deps content where c: "map_of (b_configs b) n = Some conf" "image_deps conf = Ok deps"
    "image_content w b n = Some content" "\<forall>(a, d) \<in> set deps. tags d \<noteq> None"
    by (auto simp: tag_value_def split: option.splits result.splits if_splits)
  have "dep_tag_args tags' deps = dep_tag_args tags deps"
    unfolding dep_tag_args_def using c(4) eq by (intro map_cong) auto
  moreover have "\<forall>(a, d) \<in> set deps. tags' d \<noteq> None" using c(4) eq by fastforce
  ultimately show ?thesis using assms(1) c by (simp add: tag_value_def)
qed

text \<open>Every tag recorded is the tag of its image.\<close>

definition tags_right :: "runtime \<Rightarrow> world \<Rightarrow> builder \<Rightarrow> bool" where
  "tags_right R w b = (\<forall>n t. map_of (b_tags b) n = Some t \<longrightarrow> tag_value R w b (map_of (b_tags b)) n = Some t)"

text \<open>The state after some tags have been computed.\<close>

definition tag_inv :: "runtime \<Rightarrow> world \<Rightarrow> builder \<Rightarrow> builder \<Rightarrow> world \<Rightarrow> bool" where
  "tag_inv R w0 b0 b w = (same_files w0 w \<and> same_config b0 b \<and> tags_right R w0 b \<and> map_of (b_tags b0) \<subseteq>\<^sub>m map_of (b_tags b))"

lemma tag_inv_refl: "tags_right R w0 b \<Longrightarrow> same_files w0 w \<Longrightarrow> tag_inv R w0 b b w"
  by (simp add: tag_inv_def)

lemma tag_inv_trans: "tag_inv R w0 a b w \<Longrightarrow> tag_inv R w0 b c w' \<Longrightarrow> tag_inv R w0 a c w'"
  by (cases a; cases b; cases c) (auto simp: tag_inv_def same_config_def intro: map_le_trans)

lemma tag_inv_put:
  assumes "tag_inv R w0 b0 b w" "tag_value R w0 b (map_of (b_tags b)) n = Some t" "map_of (b_tags b) n = None" "same_files w0 w'"
  shows "tag_inv R w0 b0 (b\<lparr>b_tags := dict_put n t (b_tags b)\<rparr>) w'"
proof -
  let ?b = "b\<lparr>b_tags := dict_put n t (b_tags b)\<rparr>"
  have le: "map_of (b_tags b) \<subseteq>\<^sub>m map_of (b_tags ?b)" using assms(3) by (auto simp: map_le_def)
  have "same_config b ?b" by simp
  from same_config_eqs(4) [OF this] have v: "tag_value R w0 ?b = tag_value R w0 b" .
  have "tag_value R w0 b (map_of (b_tags ?b)) m = Some s" if "map_of (b_tags ?b) m = Some s" for m s
  proof (cases "m = n")
    case True
    with that assms(2) tag_value_mono [OF _ le] show ?thesis by simp
  next
    case False
    with that have "map_of (b_tags b) m = Some s" by simp
    with assms(1) have "tag_value R w0 b (map_of (b_tags b)) m = Some s" by (simp add: tag_inv_def tags_right_def)
    from tag_value_mono [OF this le] show ?thesis .
  qed
  then show ?thesis using assms(1,4) le v by (auto simp: tag_inv_def tags_right_def intro: map_le_trans)
qed

section \<open>Computing a tag\<close>

text \<open>The images in \<open>S\<close> have their tags.\<close>

definition have_tags :: "builder \<Rightarrow> string set \<Rightarrow> bool" where
  "have_tags b S = (\<forall>n \<in> S. map_of (b_tags b) n \<noteq> None)"

lemma have_tags_mono: "have_tags b S \<Longrightarrow> map_of (b_tags b) \<subseteq>\<^sub>m map_of (b_tags b') \<Longrightarrow> have_tags b' S"
  by (force simp: have_tags_def map_le_def dom_def)

text \<open>Looking up the tags of the dependencies, which are all known: the builder stays as it is.\<close>

definition dep_step :: "runtime \<Rightarrow> nat \<Rightarrow> string \<times> string \<Rightarrow> string list \<times> builder \<Rightarrow> (string list \<times> builder) py" where
  "dep_step R k = (\<lambda>(arg_name, dep_image_name) (args, b).
     py_bind (calculate_tag_for_image R k dep_image_name b) (\<lambda>(dep_tag, b).
     py_ret (args @ [arg_name @ ''='' @ dep_tag], b)))"

lemma known_deps:
  assumes "have_tags b (snd ` set deps)"
  shows "py_fold (dep_step R (Suc k)) deps (args, b) w = (Ok (args @ dep_tag_args (map_of (b_tags b)) deps, b), w)"
  using assms
proof (induction deps arbitrary: args)
  case (Cons x deps)
  obtain a d where x: "x = (a, d)" by fastforce
  with Cons.prems obtain t where t: "map_of (b_tags b) d = Some t" by (auto simp: have_tags_def)
  have "dep_step R (Suc k) x (args, b) w = (Ok (args @ [a @ ''='' @ t], b), w)"
    by (simp add: dep_step_def x t py_simps)
  with Cons show ?case by (simp add: py_bind_def have_tags_def x t dep_tag_args_def)
qed (simp add: py_ret_def dep_tag_args_def)

lemma wp_known_deps:
  "have_tags b (snd ` set deps) \<Longrightarrow> wp (py_fold (dep_step R (Suc k)) deps (args, b)) Q E w =
   Q (args @ dep_tag_args (map_of (b_tags b)) deps, b) w"
  by (simp add: wp_def known_deps)

lemma wp_find_dockerfile: "wp (find_dockerfile paths name) Q E w = Q (dockerfile_of w paths name) w"
  by (simp add: wp_def find_dockerfile_eq)

lemma wp_log_ret: "wp (py_seq (log_info f xs) (py_ret x)) Q E = (\<lambda>w'. Q x (traced w' (Log INFO f xs)))"
  by (simp add: fun_eq_iff wp_simps)

lemma wp_eq: "m w = (Ok x, w') \<Longrightarrow> wp m Q E w = Q x w'"
  by (simp add: wp_def)

lemma image_deps_exc: "image_deps conf = Exc e \<Longrightarrow> e \<noteq> RecursionError"
proof -
  have "string_values kvs = Exc e' \<Longrightarrow> e' = TypeError" for kvs e'
    by (induction kvs arbitrary: e' rule: string_values.induct) (auto simp: r_bind_def split: json.splits result.splits)
  then show "image_deps conf = Exc e \<Longrightarrow> e \<noteq> RecursionError"
    by (auto simp: image_deps_def r_bind_def py_getitem_def py_items_def split: result.splits json.splits option.splits)
qed

definition read_error :: "path \<Rightarrow> world \<Rightarrow> exn" where
  "read_error p w = (if fs_stat (w_fs w) (w_cwd w) p = Inl ENOENT then FileNotFoundError (path_str p) else OSError (path_str p))"

lemma wp_read_file [wp_simps]:
  "wp (read_file p) Q E w = (case fs_read (w_fs w) (w_cwd w) p of Some t \<Rightarrow> Q t w | None \<Rightarrow> E (read_error p w) w)"
  by (auto simp: wp_def read_file_def read_error_def split: option.splits sum.splits fs_error.splits)

lemma read_error_simps [simp]: "read_error p w \<noteq> RecursionError"
  by (simp add: read_error_def)

text \<open>The tag of an image whose dependencies have their tags.\<close>

lemma wp_calculate_tag:
  assumes "map_of (b_tags b) n = None" "map_of (b_configs b) n = Some conf" "image_deps conf = Ok ds"
    "have_tags b (snd ` set ds)" "dockerfile_of w (b_search_paths b) (n @ ''.Dockerfile'') = Some p"
  shows "wp (calculate_tag_for_image R (Suc (Suc k)) n b) Q E w =
    wp (calculate_sha256 R (Path ''/'' (realpath (w_fs w) (w_cwd w) p))
        (sort (dep_tag_args (map_of (b_tags b)) ds @ map (\<lambda>(a, v). a @ ''='' @ v) (extra_args b n))))
      (\<lambda>sha w'. Q (get_image_tag b n sha, b\<lparr>b_tags := dict_put n (get_image_tag b n sha) (b_tags b)\<rparr>)
         (traced w' (Log INFO ''Tag for %s: %s'' [n, get_image_tag b n sha]))) E
      (traced w (Log INFO ''=== Calculating tag for: %s ==='' [n]))"
proof -
  have "dockerfile_of (traced w (Log INFO ''=== Calculating tag for: %s ==='' [n])) (b_search_paths b) (n @ ''.Dockerfile'') = Some p"
    using assms(5) by simp
  then show ?thesis
    by (simp only: calculate_tag_for_image.simps(2) [of R "Suc k" n b] assms(1-3) option.case result.case wp_simps
        wp_find_dockerfile Let_def os_realpath_def wp_known_deps [OF assms(4), unfolded dep_step_def] prod.case
        append_Nil wp_log_ret traced_simps)
qed

lemma calculate_tag_wp:
  assumes inv: "tags_right R w0 b" "same_files w0 w"
    and deps: "\<And>conf deps. map_of (b_configs b) n = Some conf \<Longrightarrow> image_deps conf = Ok deps \<Longrightarrow> have_tags b (snd ` set deps)"
  shows "wp (calculate_tag_for_image R (Suc (Suc k)) n b)
    (\<lambda>(t, b') w'. tag_inv R w0 b b' w' \<and> map_of (b_tags b') n = Some t) (\<lambda>e w'. e \<noteq> RecursionError) w"
proof (cases "map_of (b_tags b) n")
  case (Some t)
  with inv show ?thesis by (simp add: tag_inv_refl)
next
  case none: None
  show ?thesis
  proof (cases "map_of (b_configs b) n")
    case None
    with none show ?thesis by (simp add: wp_simps)
  next
    case conf: (Some conf)
    show ?thesis
    proof (cases "image_deps conf")
      case (Exc e)
      with none conf image_deps_exc [OF Exc] show ?thesis by (simp add: wp_simps)
    next
      case ds: (Ok ds)
      show ?thesis
      proof (cases "dockerfile_of w (b_search_paths b) (n @ ''.Dockerfile'')")
        case None
        with none conf ds show ?thesis
          by (simp add: wp_simps wp_find_dockerfile Let_def)
      next
        case (Some p)
        let ?q = "Path ''/'' (realpath (w_fs w) (w_cwd w) p)"
        let ?args = "sort (dep_tag_args (map_of (b_tags b)) ds @ map (\<lambda>(a, v). a @ ''='' @ v) (extra_args b n))"
        note step = wp_calculate_tag [OF none conf ds deps [OF conf ds] Some]
        show ?thesis
        proof (cases "fs_read (w_fs w) (w_cwd w) ?q")
          case None
          then show ?thesis unfolding step
            by (simp add: calculate_sha256_def wp_simps)
        next
          case (Some content)
          let ?t = "get_image_tag b n (rt_digest R (content @ concat ?args))"
          have "tag_value R w b (map_of (b_tags b)) n = Some ?t"
            using conf ds deps [OF conf ds] Some \<open>dockerfile_of w _ _ = Some p\<close>
            by (auto simp: tag_value_def image_content_def have_tags_def)
          then have "tag_value R w0 b (map_of (b_tags b)) n = Some ?t"
            using same_files_eqs(3) [OF inv(2)] by simp
          from tag_inv_put [OF tag_inv_refl [OF inv] this none] Some inv(2) show ?thesis unfolding step
            by (simp add: calculate_sha256_def wp_simps)
        qed
      qed
    qed
  qed
qed

section \<open>All tags\<close>

text \<open>One step of the loop of \<open>calculate_tags\<close>.\<close>

lemma tag_step_wp:
  assumes "deps_first (b_configs b0) ns" "ns = us @ n # vs" "tag_inv R w0 b0 b w" "have_tags b (set us)"
  shows "wp (calculate_tag_for_image R recursion_limit n b)
    (\<lambda>(t, b') w'. tag_inv R w0 b0 b' w' \<and> have_tags b' (set (us @ [n])) \<and> map_of (b_tags b') n = Some t)
    (\<lambda>e w'. e \<noteq> RecursionError) w"
proof -
  have limit: "recursion_limit = Suc (Suc 998)" by (simp add: recursion_limit_def)
  have configs: "b_configs b = b_configs b0" using assms(3) same_config_fields(1) by (auto simp: tag_inv_def)
  have inv: "tags_right R w0 b" "same_files w0 w" using assms(3) by (auto simp: tag_inv_def)
  have deps: "have_tags b (snd ` set deps)" if "map_of (b_configs b) n = Some conf" "image_deps conf = Ok deps" for conf deps
    using assms(1,2,4) that unfolding configs deps_first_def have_tags_def by blast
  have keep: "have_tags b' (set us)" if "tag_inv R w0 b b' w'" for b' w'
    using have_tags_mono [OF assms(4)] that by (simp add: tag_inv_def)
  have "wp (calculate_tag_for_image R (Suc (Suc 998)) n b)
      (\<lambda>(t, b') w'. tag_inv R w0 b b' w' \<and> map_of (b_tags b') n = Some t) (\<lambda>e w'. e \<noteq> RecursionError) w"
    by (rule calculate_tag_wp [OF inv]) (rule deps)
  then show ?thesis unfolding limit
    by (rule wp_mono) (auto intro: tag_inv_trans [OF assms(3)] dest: keep simp: have_tags_def)
qed

text \<open>Every image of the order gets its tag.\<close>

definition tags_for :: "runtime \<Rightarrow> world \<Rightarrow> builder \<Rightarrow> string list \<Rightarrow> (string \<rightharpoonup> string) \<Rightarrow> bool" where
  "tags_for R w b ns T = (\<forall>n \<in> set ns. T n \<noteq> None \<and> tag_value R w b T n = T n)"

text \<open>The images of a build order: the nodes of the dependency graph, or of the part that the targets
  reach. They do not depend on the order of sets.\<close>

definition order_graph :: "graph \<Rightarrow> string list \<Rightarrow> graph" where
  "order_graph g targets =
     (if targets = [] then g
      else map (\<lambda>n. (n, preds g n)) (filter (\<lambda>n. map_of g n \<noteq> None) (reach g [] (dedup targets))))"

lemma nodes_ordered:
  assumes "enumerates (rt_set_order R)" "\<forall>e \<in> set g. distinct (snd e)"
  shows "set (graph_nodes (ordered R g)) = set (graph_nodes g)"
proof -
  have "set (rt_set_order R (snd e)) = set (snd e)" if "e \<in> set g" for e using assms that by (simp add: enumerates_def)
  then have "(n = fst e \<or> n \<in> set (rt_set_order R (snd e))) = (n = fst e \<or> n \<in> set (snd e))" if "e \<in> set g" for n e
    using that by simp
  then show ?thesis by (intro set_eqI) (simp add: graph_nodes_iff ordered_def split_def)
qed

lemma get_build_order_nodes:
  assumes "enumerates (rt_set_order R)" "distinct (map fst (b_configs b))" "full_graph (b_configs b) = Ok g"
    and "get_build_order R b targets w = (Ok ns, w')"
  shows "set ns = set (graph_nodes (order_graph g targets))"
proof -
  let ?V = "reach g [] (dedup targets)"
  let ?sub = "\<lambda>vs. map (\<lambda>n. (n, preds g n)) (filter (\<lambda>n. map_of g n \<noteq> None) vs)"
  have dist: "distinct (preds g n)" for n
  proof (cases "map_of g n")
    case (Some ps)
    then have "map_of (b_configs b) n \<noteq> None"
      using full_graph_keys [OF assms(3)] by (metis map_of_eq_None_iff option.distinct(1) list.set_map)
    then obtain conf where "map_of (b_configs b) n = Some conf" by blast
    from full_graph_entry [OF assms(3) this] show ?thesis by (auto simp: preds_def)
  qed (simp add: preds_def)
  have wfg: "graph_wf g" using assms(2) full_graph_keys [OF assms(3)] by (simp add: graph_wf_def)
  have dg: "\<forall>e \<in> set g. distinct (snd e)"
  proof
    fix e assume "e \<in> set g"
    then have "map_of g (fst e) = Some (snd e)" using wfg by (simp add: graph_wf_def)
    with dist [of "fst e"] show "distinct (snd e)" by (simp add: preds_def)
  qed
  have V: "distinct ?V" using reach_props [of "[]" g "dedup targets"] by simp
  have so: "set (rt_set_order R ?V) = set ?V" "distinct (rt_set_order R ?V)" using assms(1) V by (auto simp: enumerates_def)
  have key: "set ns = set (graph_nodes (ordered R h))" if "sorted_graph R h = Some ns" "graph_wf h" for h
  proof -
    have "static_order (ordered R h) = Some ns" using that(1) by (simp add: sorted_graph_def ordered_def)
    from ts.order_nodes [OF _ this] that(2) show ?thesis by (simp add: ordered_wf)
  qed
  show ?thesis
  proof (cases "targets = []")
    case True
    with assms(3,4) have "sorted_graph R g = Some ns"
      by (auto simp: get_build_order_def builder_dependency_subgraph_def of_result_def py_simps split: option.splits)
    with key [OF _ wfg] nodes_ordered [OF assms(1) dg] True show ?thesis by (simp add: order_graph_def)
  next
    case False
    with assms(3,4) have "sorted_graph R (?sub (rt_set_order R ?V)) = Some ns"
      by (auto simp: get_build_order_def builder_dependency_subgraph_def get_dependency_subgraph_def of_result_def py_simps split: option.splits)
    moreover have "graph_wf (?sub (rt_set_order R ?V))" using so(2) by (simp add: graph_wf_def comp_def)
    ultimately have "set ns = set (graph_nodes (ordered R (?sub (rt_set_order R ?V))))" by (rule key)
    also have "\<dots> = set (graph_nodes (?sub (rt_set_order R ?V)))" using nodes_ordered [OF assms(1)] dist by simp
    also have "\<dots> = set (graph_nodes (?sub ?V))" by (auto simp: graph_nodes_iff so(1))
    finally show ?thesis using False by (simp add: order_graph_def)
  qed
qed

lemma get_build_order_Ok:
  "get_build_order R b targets w = (Ok ns, w') \<Longrightarrow> \<exists>g. full_graph (b_configs b) = Ok g"
  by (cases "full_graph (b_configs b)")
    (auto simp: get_build_order_def builder_dependency_subgraph_def get_dependency_subgraph_def of_result_def py_simps split: if_splits)

lemma tags_loop_wp:
  assumes "deps_first (b_configs b) ns" "b_tags b = []" "same_files w0 w"
  shows "wp (py_fold (\<lambda>n b. py_bind (calculate_tag_for_image R recursion_limit n b) (\<lambda>(_, b). py_ret b)) ns b)
    (\<lambda>b' w'. tag_inv R w0 b b' w' \<and> have_tags b' (set ns)) (\<lambda>e w'. e \<noteq> RecursionError) w"
proof (rule wp_fold [where Inv = "\<lambda>us b' w'. tag_inv R w0 b b' w' \<and> have_tags b' (set us)"])
  show "tag_inv R w0 b b w \<and> have_tags b (set [])"
    using assms by (simp add: tag_inv_refl tags_right_def have_tags_def)
next
  fix us n vs b' and w' :: world assume "ns = us @ n # vs" "tag_inv R w0 b b' w' \<and> have_tags b' (set us)"
  then show "wp (py_bind (calculate_tag_for_image R recursion_limit n b') (\<lambda>(_, b). py_ret b))
      (\<lambda>b' w'. tag_inv R w0 b b' w' \<and> have_tags b' (set (us @ [n]))) (\<lambda>e w'. e \<noteq> RecursionError) w'"
    unfolding wp_bind using tag_step_wp [OF assms(1)] by (intro wp_mono [OF tag_step_wp [OF assms(1)]]) auto
qed

lemma collect_tags_wp:
  assumes "\<forall>n \<in> set ns. T n \<noteq> None"
  shows "wp (py_fold (\<lambda>n tags. py_bind (of_opt (KeyError n) (T n)) (\<lambda>t. py_ret (tags @ [t]))) ns [])
    (\<lambda>tags w'. map Some tags = map T ns \<and> w' = w) E w"
proof (rule wp_fold [where Inv = "\<lambda>us tags w'. map Some tags = map T us \<and> w' = w"])
  fix us n vs tags and w' :: world assume "ns = us @ n # vs" "map Some tags = map T us \<and> w' = w"
  then show "wp (py_bind (of_opt (KeyError n) (T n)) (\<lambda>t. py_ret (tags @ [t])))
      (\<lambda>tags w'. map Some tags = map T (us @ [n]) \<and> w' = w) E w'"
    using assms by (auto simp: wp_simps split: option.split)
qed simp

text \<open>Every image of the order gets its tag.\<close>

lemma calculate_tags_wp:
  assumes "enumerates (rt_set_order R)" "distinct (map fst (b_configs b))" "b_tags b = []"
  shows "wp (calculate_tags R b targets)
    (\<lambda>tags w'. \<exists>ns T g. full_graph (b_configs b) = Ok g \<and> set ns = set (graph_nodes (order_graph g targets)) \<and>
       deps_first (b_configs b) ns \<and> tags_for R w b ns T \<and> map Some tags = map T ns)
    (\<lambda>e w'. e \<noteq> RecursionError) w"
proof -
  have order: "wp (get_build_order R b targets)
      (\<lambda>ns w'. deps_first (b_configs b) ns \<and> same_files w w' \<and> (\<exists>g. full_graph (b_configs b) = Ok g \<and>
         set ns = set (graph_nodes (order_graph g targets)))) (\<lambda>e w'. e \<noteq> RecursionError) w"
  proof -
    obtain r v where run: "get_build_order R b targets w = (r, v)" by fastforce
    note A = get_build_order_wp [OF assms(1,2), of w w targets, simplified]
    show ?thesis
    proof (cases r)
      case (Exc e)
      with wp_Exc [OF A] run show ?thesis by (simp add: wp_def)
    next
      case (Ok ns)
      with run get_build_order_Ok obtain g where g: "full_graph (b_configs b) = Ok g" by blast
      from get_build_order_nodes [OF assms(1,2) g run [unfolded Ok]] wp_Ok [OF A run [unfolded Ok]] g
      show ?thesis by (simp add: wp_def run Ok)
    qed
  qed
  show ?thesis unfolding calculate_tags_def wp_bind
  proof (rule wp_mono [OF order], elim conjE exE)
    fix ns g and w1 :: world
    assume ns: "deps_first (b_configs b) ns" "same_files w w1" "full_graph (b_configs b) = Ok g"
      "set ns = set (graph_nodes (order_graph g targets))"
    show "wp (py_fold (\<lambda>n b. py_bind (calculate_tag_for_image R recursion_limit n b) (\<lambda>(_, b). py_ret b)) ns b)
        (\<lambda>b'. wp (py_fold (\<lambda>name tags. py_bind (of_opt (KeyError name) (map_of (b_tags b') name)) (\<lambda>t. py_ret (tags @ [t]))) ns [])
          (\<lambda>tags w'. \<exists>ns T g. full_graph (b_configs b) = Ok g \<and> set ns = set (graph_nodes (order_graph g targets)) \<and>
             deps_first (b_configs b) ns \<and> tags_for R w b ns T \<and> map Some tags = map T ns)
          (\<lambda>e w'. e \<noteq> RecursionError)) (\<lambda>e w'. e \<noteq> RecursionError) w1"
    proof (rule wp_mono [OF tags_loop_wp [OF ns(1) assms(3) ns(2)]], elim conjE)
      fix b' and w2 :: world assume b': "tag_inv R w b b' w2" "have_tags b' (set ns)"
      then have "tags_for R w b ns (map_of (b_tags b'))"
        using same_config_eqs(4) [of b b' R w] by (auto simp: tags_for_def tag_inv_def tags_right_def have_tags_def)
      with ns b'(2) show "wp (py_fold (\<lambda>name tags. py_bind (of_opt (KeyError name) (map_of (b_tags b') name)) (\<lambda>t. py_ret (tags @ [t]))) ns [])
          (\<lambda>tags w'. \<exists>ns T g. full_graph (b_configs b) = Ok g \<and> set ns = set (graph_nodes (order_graph g targets)) \<and>
             deps_first (b_configs b) ns \<and> tags_for R w b ns T \<and> map Some tags = map T ns)
          (\<lambda>e w'. e \<noteq> RecursionError) w2"
        by (intro wp_mono [OF collect_tags_wp]) (auto simp: have_tags_def)
    qed simp
  qed simp
qed

text \<open>Tags that fit together are determined by the configuration, the files and the digest.\<close>

lemma tags_unique:
  assumes "deps_first (b_configs b) ns" "tags_for R w b ns T" "tags_for R' w b ns T'" "rt_digest R' = rt_digest R"
    and "n \<in> set ns"
  shows "T n = T' n"
proof -
  have val: "tag_value R' w b = tag_value R w b" unfolding fun_eq_iff tag_value_def assms(4) by simp
  have "\<forall>m \<in> set us. T m = T' m" if "ns = us @ vs" for us vs
    using that
  proof (induction us arbitrary: vs rule: rev_induct)
    case (snoc m us)
    then have ns: "ns = us @ m # vs" and IH: "\<forall>x \<in> set us. T x = T' x" by auto
    from ns have m: "m \<in> set ns" by simp
    from assms(2) m obtain t where t: "tag_value R w b T m = Some t" "T m = Some t" by (auto simp: tags_for_def)
    then obtain conf deps content where c: "map_of (b_configs b) m = Some conf" "image_deps conf = Ok deps"
      "image_content w b m = Some content" "\<forall>(a, d) \<in> set deps. T d \<noteq> None"
      by (auto simp: tag_value_def split: option.splits result.splits if_splits)
    have sub: "snd ` set deps \<subseteq> set us" using assms(1) ns c(1,2) unfolding deps_first_def by blast
    then have "dep_tag_args T' deps = dep_tag_args T deps" using IH by (auto simp: dep_tag_args_def)
    moreover have "\<forall>(a, d) \<in> set deps. T' d \<noteq> None" using c(4) sub IH by fastforce
    ultimately have "tag_value R w b T' m = Some t" using t(1) c by (simp add: tag_value_def)
    with assms(3) m t(2) val have "T' m = T m" by (auto simp: tags_for_def)
    with IH show ?case by simp
  qed simp
  from this [of ns "[]"] assms(5) show ?thesis by simp
qed

text \<open>
  C3. Computing the tags never exceeds Python's recursion limit. When it succeeds, the images are
  listed in an order in which every image follows its dependencies, each exactly once, and the
  tag of each image is its name with the digest of its Dockerfile, its sorted build arguments
  and the tags of the images it depends on.
\<close>

theorem calculate_tags_content_addressed:
  assumes "enumerates (rt_set_order R)" "distinct (map fst (b_configs b))" "b_tags b = []"
    and "calculate_tags R b targets w = (r, w')"
  shows "r \<noteq> Exc RecursionError \<and> (\<forall>tags. r = Ok tags \<longrightarrow>
     (\<exists>ns T. deps_first (b_configs b) ns \<and> map Some tags = map T ns \<and> (\<forall>n \<in> set ns. tag_value R w b T n = T n)))"
proof (cases r)
  case (Ok tags)
  from wp_Ok [OF calculate_tags_wp [OF assms(1-3)] assms(4) [unfolded Ok]] Ok show ?thesis
    unfolding tags_for_def by blast
next
  case (Exc e)
  from wp_Exc [OF calculate_tags_wp [OF assms(1-3)] assms(4) [unfolded Exc]] Exc show ?thesis by simp
qed

definition two_images :: world where
  "two_images = world_of (FDir [(''i'', FDir [(''a.Dockerfile'', FFile ''A''), (''b.Dockerfile'', FFile ''B'')])]) []
     (\<lambda>_ _. Exited 0 [] [])"

definition two_builder :: builder where
  "two_builder = (new_builder (path_of ''/c'') [path_of ''/i''])\<lparr>b_configs :=
     [(''b'', JObj [(''deps'', JObj [(''X'', JStr ''a'')])]), (''a'', JObj [(''deps'', JObj [])])]\<rparr>"

definition plain_runtime :: "(string list \<Rightarrow> string list) \<Rightarrow> runtime" where
  "plain_runtime so = \<lparr>rt_digest = (\<lambda>s. replicate 64 (CHR ''0'')), rt_set_order = so, rt_repr = (\<lambda>_. [])\<rparr>"

lemma two_builder_ok:
  "enumerates (rt_set_order (plain_runtime id))" "enumerates (rt_set_order (plain_runtime rev))"
  "distinct (map fst (b_configs two_builder))" "b_tags two_builder = []"
  by (simp_all add: enumerates_def plain_runtime_def two_builder_def new_builder_def)

lemma two_tags:
  "\<exists>tags. fst (calculate_tags (plain_runtime id) two_builder [] two_images) = Ok tags"
  "\<exists>tags. fst (calculate_tags (plain_runtime rev) two_builder [] two_images) = Ok tags"
proof -
  have "case fst (calculate_tags (plain_runtime id) two_builder [] two_images) of Ok ts \<Rightarrow> length ts = 2 | _ \<Rightarrow> False"
    "case fst (calculate_tags (plain_runtime rev) two_builder [] two_images) of Ok ts \<Rightarrow> length ts = 2 | _ \<Rightarrow> False"
    by code_simp+
  then show "\<exists>tags. fst (calculate_tags (plain_runtime id) two_builder [] two_images) = Ok tags"
    "\<exists>tags. fst (calculate_tags (plain_runtime rev) two_builder [] two_images) = Ok tags"
    by (auto split: result.splits)
qed

theorem calculate_tags_content_addressed_witness:
  "\<exists>tags ns T. fst (calculate_tags (plain_runtime id) two_builder [] two_images) = Ok tags \<and>
     map Some tags = map T ns \<and> (\<forall>n \<in> set ns. tag_value (plain_runtime id) two_images two_builder T n = T n)"
proof -
  from two_tags(1) obtain tags where t: "fst (calculate_tags (plain_runtime id) two_builder [] two_images) = Ok tags" ..
  then obtain w' where run: "calculate_tags (plain_runtime id) two_builder [] two_images = (Ok tags, w')"
    by (cases "calculate_tags (plain_runtime id) two_builder [] two_images") simp
  from calculate_tags_content_addressed [OF two_builder_ok(1,3,4) run] t show ?thesis by blast
qed

text \<open>
  C24. The tags do not depend on the order in which Python iterates over sets: two runs on the same
  files that differ only in it produce the same tags.
\<close>

theorem calculate_tags_set_order:
  assumes "enumerates (rt_set_order R)" "enumerates (rt_set_order R')" "rt_digest R' = rt_digest R"
    and "distinct (map fst (b_configs b))" "b_tags b = []"
    and "calculate_tags R b targets w = (Ok tags, w1)" "calculate_tags R' b targets w = (Ok tags', w2)"
  shows "set tags' = set tags"
proof -
  from wp_Ok [OF calculate_tags_wp [OF assms(1,4,5)] assms(6)] obtain ns T g where
    A: "full_graph (b_configs b) = Ok g" "set ns = set (graph_nodes (order_graph g targets))"
      "deps_first (b_configs b) ns" "tags_for R w b ns T" "map Some tags = map T ns" by blast
  from wp_Ok [OF calculate_tags_wp [OF assms(2,4,5)] assms(7)] obtain ns' T' g' where
    B: "full_graph (b_configs b) = Ok g'" "set ns' = set (graph_nodes (order_graph g' targets))"
      "tags_for R' w b ns' T'" "map Some tags' = map T' ns'" by blast
  have same: "set ns' = set ns" using A(1,2) B(1,2) by simp
  then have "tags_for R' w b ns T'" using B(3) by (simp add: tags_for_def)
  from tags_unique [OF A(3,4) this assms(3)] have eq: "\<And>n. n \<in> set ns \<Longrightarrow> T n = T' n" .
  have "Some ` set tags' = T' ` set ns'" using B(4) by (metis list.set_map)
  also have "\<dots> = T ` set ns" unfolding same using eq by simp
  also have "\<dots> = Some ` set tags" using A(5) by (metis list.set_map)
  finally show ?thesis by (metis inj_Some inj_image_eq_iff)
qed

theorem calculate_tags_set_order_witness:
  "\<exists>tags tags'. fst (calculate_tags (plain_runtime id) two_builder [] two_images) = Ok tags \<and>
     fst (calculate_tags (plain_runtime rev) two_builder [] two_images) = Ok tags' \<and> set tags' = set tags"
proof -
  from two_tags obtain tags tags' where t: "fst (calculate_tags (plain_runtime id) two_builder [] two_images) = Ok tags"
    "fst (calculate_tags (plain_runtime rev) two_builder [] two_images) = Ok tags'" by blast
  obtain w1 w2 where run: "calculate_tags (plain_runtime id) two_builder [] two_images = (Ok tags, w1)"
    "calculate_tags (plain_runtime rev) two_builder [] two_images = (Ok tags', w2)"
    using t by (metis prod.collapse)
  have "rt_digest (plain_runtime rev) = rt_digest (plain_runtime id)" by (simp add: plain_runtime_def)
  from calculate_tags_set_order [OF two_builder_ok(1,2) this two_builder_ok(3,4) run] t show ?thesis by blast
qed

end
