(* ===== verification/Docker_Build_Ops.thy ===== *)
theory Docker_Build_Ops
  imports Docker_Build Py_Conversation
begin

text \<open>
  The docker commands of \<open>.devkit/scripts/docker/build.py\<close>: which are started for an image, in
  which order, and how failures end.
\<close>

section \<open>The protocol of one image\<close>

definition build_command :: "string \<Rightarrow> path \<Rightarrow> string list \<Rightarrow> path \<Rightarrow> bool \<Rightarrow> string list" where
  "build_command tag dockerfile_path flags context_path no_cache =
     [''docker'', ''buildx'', ''build'', ''--tag'', tag, ''--file'', path_str dockerfile_path] @
     (if no_cache then [''--no-cache''] else []) @ flags @ [path_str context_path]"

abbreviation inspect_command :: "string \<Rightarrow> string list" where
  "inspect_command tag \<equiv> [''docker'', ''image'', ''inspect'', tag]"

abbreviation manifest_command :: "string \<Rightarrow> string list" where
  "manifest_command tag \<equiv> [''docker'', ''manifest'', ''inspect'', tag]"

abbreviation pull_command :: "string \<Rightarrow> string list" where
  "pull_command tag \<equiv> [''docker'', ''pull'', tag]"

abbreviation push_command :: "string \<Rightarrow> string list" where
  "push_command tag \<equiv> [''docker'', ''push'', tag]"

text \<open>How the program ends after a command it depends on: with the status of the command, or with 1
  when there is no such program.\<close>

definition docker_end :: "proc_outcome \<Rightarrow> unit result" where
  "docker_end x =
     (case x of
        Exited n out err \<Rightarrow> if n = 0 then Ok () else Exc (SystemExit n)
      | LaunchFailed (CalledProcessError cmd n out err) \<Rightarrow> Exc (SystemExit (if n \<noteq> 0 then n else 1))
      | LaunchFailed (FileNotFoundError m) \<Rightarrow> Exc (SystemExit 1)
      | LaunchFailed e \<Rightarrow> Exc e)"

text \<open>A push that fails is not fatal.\<close>

definition push_end :: "proc_outcome \<Rightarrow> unit result" where
  "push_end x = (case x of Exited n out err \<Rightarrow> Ok () | LaunchFailed e \<Rightarrow> docker_end x)"

text \<open>A lookup that answered no, or none at all without the cache.\<close>

definition absent :: "bool \<Rightarrow> string list \<Rightarrow> conversation \<Rightarrow> bool" where
  "absent no_cache cmd cs =
     (if no_cache then cs = [] else \<exists>n out err. n \<noteq> 0 \<and> cs = [(cmd, Exited n out err)])"

inductive image_protocol ::
  "string \<Rightarrow> string list \<Rightarrow> bool \<Rightarrow> bool \<Rightarrow> conversation \<Rightarrow> unit result \<Rightarrow> bool"
  for tag build remote no_cache where
  here: "\<not> no_cache \<Longrightarrow>
    image_protocol tag build remote no_cache [(inspect_command tag, Exited 0 out err)] (Ok ())"
| lost: "\<not> no_cache \<Longrightarrow>
    image_protocol tag build remote no_cache [(inspect_command tag, LaunchFailed e)] (docker_end (LaunchFailed e))"
| built: "absent no_cache (inspect_command tag) cs \<Longrightarrow> \<not> remote \<Longrightarrow>
    image_protocol tag build remote no_cache (cs @ [(build, x)]) (docker_end x)"
| registry_lost: "absent no_cache (inspect_command tag) cs \<Longrightarrow> remote \<Longrightarrow> \<not> no_cache \<Longrightarrow>
    image_protocol tag build remote no_cache (cs @ [(manifest_command tag, LaunchFailed e)]) (docker_end (LaunchFailed e))"
| pulled: "absent no_cache (inspect_command tag) cs \<Longrightarrow> remote \<Longrightarrow> \<not> no_cache \<Longrightarrow>
    image_protocol tag build remote no_cache
      (cs @ [(manifest_command tag, Exited 0 out err), (pull_command tag, x)]) (docker_end x)"
| build_failed: "absent no_cache (inspect_command tag) cs \<Longrightarrow> absent no_cache (manifest_command tag) ds \<Longrightarrow>
    remote \<Longrightarrow> docker_end x = Exc e \<Longrightarrow>
    image_protocol tag build remote no_cache (cs @ ds @ [(build, x)]) (Exc e)"
| pushed: "absent no_cache (inspect_command tag) cs \<Longrightarrow> absent no_cache (manifest_command tag) ds \<Longrightarrow>
    remote \<Longrightarrow> docker_end x = Ok () \<Longrightarrow>
    image_protocol tag build remote no_cache (cs @ ds @ [(build, x), (push_command tag, y)]) (push_end y)"

lemma docker_end_Ok:
  assumes "docker_end x = Ok ()" obtains out err where "x = Exited 0 out err"
  using assms by (auto simp: docker_end_def split: proc_outcome.splits exn.splits if_splits)

text \<open>The image is there once the protocol ends well.\<close>

lemma protocol_available:
  assumes "image_protocol tag build remote no_cache cs (Ok ())"
  shows "\<exists>c out err. (c, Exited 0 out err) \<in> set cs \<and> c \<in> {inspect_command tag, build, pull_command tag}"
  using assms
proof cases
  case (built cs x)
  from built(2) [symmetric] show ?thesis by (rule docker_end_Ok) (use built in auto)
next
  case (pulled cs out err x)
  from pulled(2) [symmetric] show ?thesis by (rule docker_end_Ok) (use pulled in auto)
next
  case (pushed cs ds x y)
  from pushed(6) show ?thesis by (rule docker_end_Ok) (use pushed in auto)
qed (auto simp: docker_end_def split: exn.splits)

lemma protocol_registry:
  assumes "image_protocol tag build False no_cache cs r" "(c, x) \<in> set cs"
  shows "c = inspect_command tag \<or> c = build"
  using assms by cases (auto simp: absent_def split: if_splits)

section \<open>The operations\<close>

lemma log_output_conv: "conv (log_output out err) (\<lambda>r cs. r = Ok () \<and> cs = [])"
  unfolding log_output_def py_when_def
  by (intro conv_seq_quiet) (auto intro!: conv_noise conv_ret)

text \<open>A question to docker: the answer is whether the command succeeded.\<close>

definition asks :: "string list \<Rightarrow> bool result \<Rightarrow> conversation \<Rightarrow> bool" where
  "asks cmd r cs = (\<exists>x. cs = [(cmd, x)] \<and>
     r = (case x of Exited n out err \<Rightarrow> Ok (n = 0) | LaunchFailed e \<Rightarrow> Exc e))"

lemma asksE:
  assumes "asks cmd r cs"
  obtains n out err where "r = Ok (n = 0)" "cs = [(cmd, Exited n out err)]"
  | e where "r = Exc e" "cs = [(cmd, LaunchFailed e)]"
  using assms unfolding asks_def by (elim exE, rename_tac x, case_tac x) auto

lemma asks_conv:
  assumes "\<And>n out err. conv (f (n, out, err)) (\<lambda>r cs. r = Ok (n = 0) \<and> cs = [])"
  shows "conv (py_seq (log_info s xs) (py_bind (run_proc cmd) f)) (asks cmd)"
proof (rule conv_seq_quiet)
  show "conv (log_info s xs) (\<lambda>r cs. r = Ok () \<and> cs = [])" by (simp add: conv_noise)
  show "conv (py_bind (run_proc cmd) f) (asks cmd)"
  proof (rule conv_bind [OF conv_proc [where Q = "\<lambda>r cs. \<exists>x. r = proc_result x \<and> cs = [(cmd, x)]"]])
    fix v cs assume "\<exists>x. Ok v = proc_result x \<and> cs = [(cmd, x)]"
    then obtain n out err where "v = (n, out, err)" "cs = [(cmd, Exited n out err)]"
      by (elim exE, rename_tac x, case_tac x) (auto simp: proc_result_def)
    then show "conv (f v) (\<lambda>r ds. asks cmd r (cs @ ds))"
      using assms [of n out err] by (auto simp: asks_def elim: conv_mono)
  next
    fix e cs assume "\<exists>x. Exc e = proc_result x \<and> cs = [(cmd, x)]"
    then show "asks cmd (Exc e) cs"
      by (elim exE, rename_tac x, case_tac x) (auto simp: asks_def proc_result_def)
  qed auto
qed

lemma look_conv:
  "conv (check_if_image_exists_locally tag) (asks (inspect_command tag))"
  "conv (check_if_image_exists_in_remote_registry tag) (asks (manifest_command tag))"
  unfolding check_if_image_exists_locally_def check_if_image_exists_in_remote_registry_def
  by (rule asks_conv; auto intro!: conv_seq_quiet conv_noise conv_ret)+

text \<open>A command that has to succeed.\<close>

definition needs :: "string list \<Rightarrow> unit result \<Rightarrow> conversation \<Rightarrow> bool" where
  "needs cmd r cs = (\<exists>x. cs = [(cmd, x)] \<and>
     r = (case checked_result True cmd x of Ok _ \<Rightarrow> Ok () | Exc e \<Rightarrow> Exc e))"

lemma needs_conv:
  assumes "\<And>out err. conv (f (out, err)) (\<lambda>r cs. r = Ok () \<and> cs = [])"
  shows "conv (py_bind (run_checked True cmd) f) (needs cmd)"
proof (rule conv_bind [OF conv_checked [where Q = "\<lambda>r cs. \<exists>x. r = checked_result True cmd x \<and> cs = [(cmd, x)]"]])
  fix v cs assume a: "\<exists>x. Ok v = checked_result True cmd x \<and> cs = [(cmd, x)]"
  obtain out err where "v = (out, err)" by (cases v)
  with a show "conv (f v) (\<lambda>r ds. needs cmd r (cs @ ds))"
    using assms [of out err] by (auto simp: needs_def split: result.splits elim!: conv_mono)
next
  fix e cs assume "\<exists>x. Exc e = checked_result True cmd x \<and> cs = [(cmd, x)]"
  then obtain x where "checked_result True cmd x = Exc e" "cs = [(cmd, x)]" by auto
  then show "needs cmd (Exc e) cs" unfolding needs_def by (intro exI [of _ x]) simp
qed auto

lemma build_image_conv:
  assumes "build_arg_flags args = Some flags"
  shows "conv (build_image tag df args ctx nc) (needs (build_command tag df flags ctx nc))"
  unfolding build_image_def Let_def progress_def assms of_opt_def option.case py_bind_ret build_command_def
  by (intro conv_seq_quiet needs_conv conv_emit conv_noise log_output_conv; auto intro!: conv_seq_quiet log_output_conv conv_noise)

lemma pull_conv: "conv (pull_image_from_registry tag) (needs (pull_command tag))"
  unfolding pull_image_from_registry_def progress_def
  by (intro conv_seq_quiet needs_conv conv_emit conv_noise log_output_conv; auto intro!: conv_seq_quiet log_output_conv conv_noise)

definition tries :: "string list \<Rightarrow> unit result \<Rightarrow> conversation \<Rightarrow> bool" where
  "tries cmd r cs = (\<exists>x. cs = [(cmd, x)] \<and> r = (case x of Exited _ _ _ \<Rightarrow> Ok () | LaunchFailed e \<Rightarrow> Exc e))"

lemma triesE:
  assumes "tries cmd r cs"
  obtains n out err where "r = Ok ()" "cs = [(cmd, Exited n out err)]"
  | e where "r = Exc e" "cs = [(cmd, LaunchFailed e)]"
  using assms unfolding tries_def by (elim exE, rename_tac x, case_tac x) auto

lemma tries_conv:
  assumes "\<And>n out err. conv (f (n, out, err)) (\<lambda>r cs. r = Ok () \<and> cs = [])"
  shows "conv (py_bind (run_proc cmd) f) (tries cmd)"
proof (rule conv_bind [OF conv_proc [where Q = "\<lambda>r cs. \<exists>x. r = proc_result x \<and> cs = [(cmd, x)]"]])
  fix v cs assume "\<exists>x. Ok v = proc_result x \<and> cs = [(cmd, x)]"
  then obtain n out err where "v = (n, out, err)" "cs = [(cmd, Exited n out err)]"
    by (elim exE, rename_tac x, case_tac x) (auto simp: proc_result_def)
  then show "conv (f v) (\<lambda>r ds. tries cmd r (cs @ ds))"
    using assms [of n out err] by (auto simp: tries_def elim: conv_mono)
next
  fix e cs assume "\<exists>x. Exc e = proc_result x \<and> cs = [(cmd, x)]"
  then show "tries cmd (Exc e) cs"
    by (elim exE, rename_tac x, case_tac x) (auto simp: tries_def proc_result_def)
qed auto

lemma push_conv: "conv (push_image_to_registry tag) (tries (push_command tag))"
  unfolding push_image_to_registry_def progress_def
  by (intro conv_seq_quiet tries_conv; auto simp: py_when_def intro!: conv_seq_quiet log_output_conv conv_noise conv_emit conv_ret)

section \<open>One image\<close>

text \<open>What the two \<open>except\<close> clauses turn a result into.\<close>

definition handled :: "unit result \<Rightarrow> unit result" where
  "handled r =
     (case r of
        Exc (CalledProcessError cmd n out err) \<Rightarrow> Exc (SystemExit (if n \<noteq> 0 then n else 1))
      | Exc (FileNotFoundError m) \<Rightarrow> Exc (SystemExit 1)
      | _ \<Rightarrow> r)"

lemma handled_Ok [simp]: "handled (Ok x) = Ok x"
  by (simp add: handled_def)

lemma handled_launch [simp]: "handled (Exc e) = docker_end (LaunchFailed e)"
  by (cases e) (simp_all add: handled_def docker_end_def)

lemma needs_handled:
  assumes "needs cmd r cs" obtains x where "cs = [(cmd, x)]" "handled r = docker_end x"
proof -
  from assms obtain x where x: "cs = [(cmd, x)]"
    "r = (case checked_result True cmd x of Ok _ \<Rightarrow> Ok () | Exc e \<Rightarrow> Exc e)"
    unfolding needs_def by blast
  have "handled r = docker_end x"
    by (cases x) (auto simp: x(2) checked_result_def docker_end_def split: exn.splits)
  with x(1) show ?thesis by (rule that)
qed

lemma docker_failed_conv:
  assumes "is_CalledProcess e \<or> is_FileNotFound e"
  shows "conv (docker_failed tag e) (\<lambda>r cs. r = docker_end (LaunchFailed e) \<and> cs = [])"
  using assms unfolding docker_failed_def py_when_def
  by (cases e) (auto simp: is_CalledProcess_def is_FileNotFound_def docker_end_def
      intro!: conv_seq_quiet conv_noise conv_exit conv_ret)

lemma lookup_conv:
  assumes "conv m (asks cmd)"
  shows "conv (if \<not> no_cache then m else py_ret False) (\<lambda>r cs.
     (case r of Ok b \<Rightarrow> if b then \<not> no_cache \<and> (\<exists>out err. cs = [(cmd, Exited 0 out err)]) else absent no_cache cmd cs
      | Exc e \<Rightarrow> \<not> no_cache \<and> cs = [(cmd, LaunchFailed e)]))"
  by (cases no_cache) (auto simp: absent_def intro!: conv_ret conv_mono [OF assms] elim!: asksE)

lemma build_push_conv:
  assumes "build_arg_flags args = Some flags" "absent no_cache (inspect_command tag) cs"
    "absent no_cache (manifest_command tag) ds" "remote"
  shows "conv (py_seq (build_image tag df args ctx no_cache) (push_image_to_registry tag))
     (\<lambda>r es. image_protocol tag (build_command tag df flags ctx no_cache) remote no_cache (cs @ ds @ es) (handled r))"
proof (rule conv_seq [OF build_image_conv [OF assms(1)]])
  fix es assume "needs (build_command tag df flags ctx no_cache) (Ok ()) es"
  then obtain x where x: "es = [(build_command tag df flags ctx no_cache, x)]" "docker_end x = Ok ()"
    by (rule needs_handled) simp
  show "conv (push_image_to_registry tag) (\<lambda>r fs. image_protocol tag (build_command tag df flags ctx no_cache)
      remote no_cache (cs @ ds @ es @ fs) (handled r))"
  proof (rule conv_mono [OF push_conv])
    fix r fs assume "tries (push_command tag) r fs"
    then obtain y where "fs = [(push_command tag, y)]" "handled r = push_end y"
      by (rule triesE) (auto simp: push_end_def)
    then show "image_protocol tag (build_command tag df flags ctx no_cache) remote no_cache
        (cs @ ds @ es @ fs) (handled r)"
      using pushed [OF assms(2-4) x(2)] by (simp add: x(1))
  qed
next
  fix e es assume "needs (build_command tag df flags ctx no_cache) (Exc e) es"
  then obtain x where x: "es = [(build_command tag df flags ctx no_cache, x)]" "handled (Exc e) = docker_end x"
    by (rule needs_handled)
  then show "image_protocol tag (build_command tag df flags ctx no_cache) remote no_cache (cs @ ds @ es) (handled (Exc e))"
    using build_failed [OF assms(2-4)] by (cases "docker_end x") (auto simp: docker_end_def split: exn.splits)
qed


lemma registry_conv:
  assumes "build_arg_flags args = Some flags" "absent no_cache (inspect_command tag) cs" "remote"
  shows "conv (py_bind (if \<not> no_cache then check_if_image_exists_in_remote_registry tag else py_ret False) (\<lambda>there.
          if there then pull_image_from_registry tag
          else py_seq (build_image tag df args ctx no_cache) (push_image_to_registry tag)))
     (\<lambda>r ds. image_protocol tag (build_command tag df flags ctx no_cache) remote no_cache (cs @ ds) (handled r))"
    (is "conv _ (\<lambda>r ds. ?P (cs @ ds) (handled r))")
proof (rule conv_bind [OF lookup_conv [OF look_conv(2)]], goal_cases)
  case (1 there ds)
  show ?case
  proof (cases there)
    case True
    with 1 obtain out err where ds: "\<not> no_cache" "ds = [(manifest_command tag, Exited 0 out err)]" by auto
    have "?P (cs @ ds @ es) (handled r)" if "needs (pull_command tag) r es" for r es
      using that by (rule needs_handled) (use pulled [OF assms(2,3) ds(1)] ds(2) in simp)
    with True show ?thesis by (auto intro: conv_mono [OF pull_conv])
  next
    case False
    with 1 assms show ?thesis by (simp add: build_push_conv)
  qed
next
  case (2 e ds)
  then show ?case using registry_lost [OF assms(2,3)] by simp
qed

lemma manage_body_conv:
  assumes "build_arg_flags args = Some flags"
  shows "conv (py_bind (if \<not> no_cache then check_if_image_exists_locally tag else py_ret False) (\<lambda>here.
        if here then py_ret ()
        else if repo = [] \<or> local_image_mode then
          py_seq (py_when (repo = []) (log_warning ''Docker registry is not defined.'' []))
          (build_image tag df args ctx no_cache)
        else
          py_bind (if \<not> no_cache then check_if_image_exists_in_remote_registry tag else py_ret False) (\<lambda>there.
          if there then pull_image_from_registry tag
          else py_seq (build_image tag df args ctx no_cache) (push_image_to_registry tag))))
     (\<lambda>r cs. image_protocol tag (build_command tag df flags ctx no_cache) (repo \<noteq> [] \<and> \<not> local_image_mode) no_cache cs (handled r))"
    (is "conv _ (\<lambda>r cs. ?P cs (handled r))")
proof (rule conv_bind [OF lookup_conv [OF look_conv(1)]], goal_cases)
  case (1 here cs)
  show ?case
  proof (cases "here \<or> repo = [] \<or> local_image_mode")
    case False
    with 1 registry_conv [OF assms, of no_cache tag cs "repo \<noteq> [] \<and> \<not> local_image_mode"]
    show ?thesis by simp
  next
    case True
    have "?P (cs @ es) (handled r)" if "\<not> here" "needs (build_command tag df flags ctx no_cache) r es" for r es
      using built [of no_cache tag cs "repo \<noteq> [] \<and> \<not> local_image_mode"] True 1 that
      by (elim needs_handled) auto
    with True 1 show ?thesis
      by (auto simp: py_when_def intro!: conv_ret image_protocol.here conv_seq_quiet conv_noise
          conv_mono [OF build_image_conv [OF assms]])
  qed
next
  case (2 e cs)
  then show ?case by (auto intro: lost)
qed

lemma manage_conv:
  assumes "build_arg_flags args = Some flags"
  shows "conv (manage_docker_image tag df args ctx local_image_mode no_cache repo)
     (\<lambda>r cs. image_protocol tag (build_command tag df flags ctx no_cache) (repo \<noteq> [] \<and> \<not> local_image_mode) no_cache cs r)"
  unfolding manage_docker_image_def
proof (rule conv_try [OF manage_body_conv [OF assms]], goal_cases)
  case (2 e cs)
  then show ?case by (auto intro: conv_mono [OF docker_failed_conv])
next
  case (3 e cs)
  then show ?case
    by (auto simp: is_CalledProcess_def is_FileNotFound_def docker_end_def split: exn.splits)
qed simp

text \<open>
  C6. Managing an image follows the protocol of lookups, builds, pulls and pushes: without the
  cache nothing is looked up, the registry is asked only when one is configured and the image is
  not local, an image in the registry is pulled instead of built, a built image is pushed, the
  program ends with the status of the command that failed, and a push that fails is not fatal.
\<close>
theorem manage_docker_image_protocol:
  assumes "build_arg_flags args = Some flags"
    and "manage_docker_image tag df args ctx local_image_mode no_cache repo w = (r, w')"
  shows "\<exists>t. w_trace w' = w_trace w @ t \<and>
     image_protocol tag (build_command tag df flags ctx no_cache) (repo \<noteq> [] \<and> \<not> local_image_mode) no_cache
       (replies (w_proc w) (w_trace w) t) r"
  using manage_conv [OF assms(1)] assms(2) by (rule convD) blast


definition cached_docker :: "event list \<Rightarrow> string list \<Rightarrow> proc_outcome" where
  "cached_docker t c = (if c = inspect_command ''app'' then Exited 1 [] ''No such image'' else Exited 0 [] [])"

abbreviation built_app :: "world \<Rightarrow> unit result \<times> world" where
  "built_app \<equiv> manage_docker_image ''app'' (path_of ''/d/app.Dockerfile'') [''BASE'', ''base''] (path_of ''/d'') True False ''repo''"

theorem manage_docker_image_protocol_witness:
  "\<exists>r w' t. built_app (world_of (FDir []) [] cached_docker) = (r, w') \<and> w_trace w' = t \<and>
     image_protocol ''app'' (build_command ''app'' (path_of ''/d/app.Dockerfile'') [''--build-arg'', ''BASE=base''] (path_of ''/d'') False)
       False False (replies cached_docker [] t) r"
proof -
  obtain r w' where w': "built_app (world_of (FDir []) [] cached_docker) = (r, w')" by fastforce
  from manage_docker_image_protocol [OF _ this, of "[''--build-arg'', ''BASE=base'']"] w'
  show ?thesis by (auto simp: world_of_def)
qed

text \<open>
  When the management of an image ends well, the image is there: docker has said so, or has
  built or pulled it. When it ends the program, a docker command failed.
\<close>

lemma manage_docker_image_available:
  assumes "build_arg_flags args = Some flags"
    and "manage_docker_image tag df args ctx local_image_mode no_cache repo w = (Ok (), w')"
  shows "\<exists>t c out err. w_trace w' = w_trace w @ t \<and> (c, Exited 0 out err) \<in> set (replies (w_proc w) (w_trace w) t) \<and>
     c \<in> {inspect_command tag, build_command tag df flags ctx no_cache, pull_command tag}"
  using manage_conv [OF assms(1)] assms(2) by (rule convD) (use protocol_available in blast)

end
