(* ===== verification/Docker_Build_Images.thy ===== *)
theory Docker_Build_Images
  imports Docker_Build_Tags Docker_Build_Ops
begin

text \<open>
  The loop of \<open>build_images\<close> (\<open>.devkit/scripts/docker/build.py\<close>): images are managed one after
  the other, each after the images it depends on and with their tags as build arguments.
\<close>

section \<open>Parts that start no program\<close>

lemmas quiet_build_order = so.frame_build_order [where P = "\<lambda>_. False", folded quiet_iff]
lemmas quiet_calculate_tag = so.frame_calculate_tag [where P = "\<lambda>_. False", folded quiet_iff]

section \<open>One image of the loop\<close>

definition tag_of :: "builder \<Rightarrow> string \<Rightarrow> string" where
  "tag_of b n = the (map_of (b_tags b) n)"

text \<open>The build arguments of an image, with the tags \<open>T\<close> of its dependencies.\<close>

definition image_args :: "builder \<Rightarrow> (string \<Rightarrow> string) \<Rightarrow> string \<Rightarrow> (string \<times> string) list \<Rightarrow> string list" where
  "image_args b T n deps = concat (map (\<lambda>(a, d). [a, T d]) deps) @ flatten_pairs (extra_args b n)"

text \<open>The command that builds image \<open>n\<close>: under its tag, from the Dockerfile found for it, in the directory of that
  file, with the tags of its dependencies and its own settings as arguments.\<close>

definition image_command :: "world \<Rightarrow> builder \<Rightarrow> (string \<Rightarrow> string) \<Rightarrow> bool \<Rightarrow> string \<Rightarrow> string list option" where
  "image_command w b T no_cache n =
     (case map_of (b_configs b) n of
        Some conf \<Rightarrow>
          (case (image_deps conf, dockerfile_of w (b_search_paths b) (n @ ''.Dockerfile'')) of
             (Ok deps, Some p) \<Rightarrow>
               (let df = Path ''/'' (realpath (w_fs w) (w_cwd w) p) in
                map_option (\<lambda>flags. build_command (T n) df flags (path_parent df) no_cache)
                  (build_arg_flags (image_args b T n deps)))
           | _ \<Rightarrow> None)
      | None \<Rightarrow> None)"

lemma image_command_shape: "image_command w b T no_cache n = Some cmd \<Longrightarrow> take 3 cmd = [''docker'', ''buildx'', ''build'']"
  by (auto simp: image_command_def build_command_def Let_def split: option.splits result.splits)

text \<open>The registry is used: there is one, and neither the flag nor the configuration asks for a local build.\<close>

definition image_remote :: "builder \<Rightarrow> bool \<Rightarrow> string \<Rightarrow> bool" where
  "image_remote b local_flag n =
     (b_repo b \<noteq> [] \<and> (case map_of (b_configs b) n of Some conf \<Rightarrow> local_mode local_flag conf = Ok False | None \<Rightarrow> False))"

lemma image_local: "\<not> image_remote b True n"
  by (simp add: image_remote_def local_mode_def split: option.split)

text \<open>The conversation about image \<open>n\<close> follows the protocol of one image.\<close>

definition image_step :: "world \<Rightarrow> builder \<Rightarrow> (string \<Rightarrow> string) \<Rightarrow> bool \<Rightarrow> bool \<Rightarrow> string \<Rightarrow> conversation \<Rightarrow> unit result \<Rightarrow> bool" where
  "image_step w b T no_cache local_flag n cs r =
     (\<exists>cmd. image_command w b T no_cache n = Some cmd \<and> image_protocol (T n) cmd (image_remote b local_flag n) no_cache cs r)"

lemma build_arg_flags_pairs: "build_arg_flags (concat (map (\<lambda>(a, v). [a, f v]) xs) @ ys) =
    map_option (\<lambda>fs. concat (map (\<lambda>(a, v). [''--build-arg'', a @ ''='' @ f v]) xs) @ fs) (build_arg_flags ys)"
  by (induction xs) (auto simp: option.map_comp comp_def option.map_ident)

lemma image_args_flags: "\<exists>flags. build_arg_flags (image_args b T n deps) = Some flags"
proof -
  have "flatten_pairs xs = concat (map (\<lambda>(a, v). [a, id v]) xs) @ []" for xs
    by (simp add: flatten_pairs_def)
  then show ?thesis unfolding image_args_def by (simp add: build_arg_flags_pairs del: append_Nil2)
qed

lemma dependency_args_eq:
  assumes "have_tags b (snd ` set deps)"
  shows "dependency_args (b_tags b) deps = py_ret (concat (map (\<lambda>(a, d). [a, tag_of b d]) deps))"
  using assms
  by (induction "b_tags b" deps rule: dependency_args.induct)
    (auto simp: have_tags_def tag_of_def of_opt_def)

lemma same_config_image:
  assumes "same_config b s"
  shows "image_command w s = image_command w b" "image_remote s = image_remote b"
  unfolding fun_eq_iff image_command_def image_remote_def image_args_def same_config_fields [OF assms] same_config_eqs(2) [OF assms]
  by simp_all

lemma wp_option: "wp (case x of None \<Rightarrow> m | Some y \<Rightarrow> f y) Q E w = (case x of None \<Rightarrow> wp m Q E w | Some y \<Rightarrow> wp (f y) Q E w)"
  by (cases x) simp_all

text \<open>The step, with the questions it asks answered: the configuration, the Dockerfile, the dependencies.\<close>

lemma wp_process_image:
  "wp (process_image R no_cache local_flag print_target n s) Q E w1 =
   wp (calculate_tag_for_image R recursion_limit n s) (\<lambda>(t, s') w2.
     case map_of (b_configs s') n of None \<Rightarrow> E (KeyError n) w2
     | Some conf \<Rightarrow>
       (case local_mode local_flag conf of Exc e \<Rightarrow> E e w2
        | Ok l \<Rightarrow>
          (case dockerfile_of w2 (b_search_paths s') (n @ ''.Dockerfile'') of
             None \<Rightarrow> E (SystemExit 1) (traced w2 (Log ERROR ''Dockerfile %s not found.'' [n @ ''.Dockerfile'']))
           | Some p \<Rightarrow>
             (case image_deps conf of Exc e \<Rightarrow> E e w2
              | Ok ds \<Rightarrow> wp (dependency_args (b_tags s') ds) (\<lambda>args. wp
                  (py_seq (manage_docker_image t (Path ''/'' (realpath (w_fs w2) (w_cwd w2) p)) (args @ flatten_pairs (extra_args s' n))
                      (path_parent (Path ''/'' (realpath (w_fs w2) (w_cwd w2) p))) l no_cache (b_repo s'))
                    (if print_target = Some n then py_seq (py_print t) (sys_exit 0) else py_ret s')) Q E) E w2)))) E w1"
  unfolding process_image_def wp_bind wp_of_opt wp_of_result wp_find_dockerfile Let_def os_realpath_def wp_option wp_seq [of "log_error _ _"]
    wp_noise wp_exit wp_get split_def
  by (rule refl)

text \<open>A state later in the loop: more tags, and the same files.\<close>

definition advanced :: "runtime \<Rightarrow> world \<Rightarrow> builder \<Rightarrow> world \<Rightarrow> builder \<Rightarrow> world \<Rightarrow> conversation \<Rightarrow> bool" where
  "advanced R w s w1 s' w' cs = (talk w1 cs w' \<and> tag_inv R w s s' w')"

lemma tag_inv_files: "tag_inv R w b s w1 \<Longrightarrow> same_files w1 w2 \<Longrightarrow> tag_inv R w b s w2"
  by (auto simp: tag_inv_def intro: same_files_trans)

lemma advanced_step: "advanced R w s w1 s' w2 [] \<Longrightarrow> talk w2 cs w3 \<Longrightarrow> same_files w2 w3 \<Longrightarrow> advanced R w s w1 s' w3 cs"
  using talk_trans [of w1 "[]" w2 cs w3] by (auto simp: advanced_def intro: tag_inv_files)

lemma advanced_noise: "advanced R w s w1 s' w2 cs \<Longrightarrow> (\<And>c. e \<noteq> Spawn c) \<Longrightarrow> advanced R w s w1 s' (traced w2 e) cs"
  by (auto simp: advanced_def tag_inv_def intro: talk_noise)

lemma calculate_tag_advanced:
  assumes "tag_inv R w b s w1"
    and "\<And>conf deps. map_of (b_configs s) n = Some conf \<Longrightarrow> image_deps conf = Ok deps \<Longrightarrow> have_tags s (snd ` set deps)"
  shows "wp (calculate_tag_for_image R recursion_limit n s)
    (\<lambda>(t, s') w'. advanced R w s w1 s' w' [] \<and> map_of (b_tags s') n = Some t) (\<lambda>e w'. advanced R w s w1 s w' []) w1"
proof -
  have limit: "recursion_limit = Suc (Suc 998)" by (simp add: recursion_limit_def)
  have inv: "tags_right R w s" "same_files w w1" using assms(1) by (simp_all add: tag_inv_def)
  have tag: "wp (calculate_tag_for_image R (Suc (Suc 998)) n s)
      (\<lambda>(t, s') w'. tag_inv R w s s' w' \<and> map_of (b_tags s') n = Some t) (\<lambda>e w'. e \<noteq> RecursionError) w1"
    by (rule calculate_tag_wp [OF inv]) (rule assms(2))
  show ?thesis unfolding limit
    by (rule wp_mono [OF wp_conj [OF wp_conj [OF tag wp_quiet [OF quiet_calculate_tag]] wp_keeps [OF fl.frame_calculate_tag]]])
      (use inv in \<open>auto simp: advanced_def intro: tag_inv_refl same_files_trans\<close>)
qed

text \<open>How the loop may end with an exception at image \<open>n\<close>: before any command about it, by a failure of its management, or
  by the exit after its tag was printed.\<close>

definition image_stops ::
  "world \<Rightarrow> builder \<Rightarrow> bool \<Rightarrow> bool \<Rightarrow> string option \<Rightarrow> string \<Rightarrow> builder \<Rightarrow> conversation \<Rightarrow> exn \<Rightarrow> world \<Rightarrow> bool" where
  "image_stops w b no_cache local_flag print_target n s cs e w' =
     (cs = [] \<or> map_of (b_tags s) n \<noteq> None \<and>
       (image_step w b (tag_of s) no_cache local_flag n cs (Exc e) \<or>
        print_target = Some n \<and> e = SystemExit 0 \<and> last (w_trace w') = Stdout (tag_of s n @ [CHR 0x0A]) \<and>
        image_step w b (tag_of s) no_cache local_flag n cs (Ok ())))"

lemma manage_wp:
  assumes "image_command w b T no_cache n = Some cmd" "map_of (b_configs b) n = Some conf" "image_deps conf = Ok deps"
    "dockerfile_of w (b_search_paths b) (n @ ''.Dockerfile'') = Some p" "local_mode local_flag conf = Ok l"
    "df = Path ''/'' (realpath (w_fs w) (w_cwd w) p)"
  shows "wp (manage_docker_image (T n) df (image_args b T n deps) (path_parent df) l no_cache (b_repo b))
    (\<lambda>_ w'. \<exists>cs. talk w2 cs w' \<and> same_files w2 w' \<and> image_step w b T no_cache local_flag n cs (Ok ()))
    (\<lambda>e w'. \<exists>cs. talk w2 cs w' \<and> same_files w2 w' \<and> image_step w b T no_cache local_flag n cs (Exc e)) w2"
proof -
  from assms obtain flags where fl: "build_arg_flags (image_args b T n deps) = Some flags"
    "cmd = build_command (T n) df flags (path_parent df) no_cache"
    by (auto simp: image_command_def Let_def)
  have remote: "image_remote b local_flag n = (b_repo b \<noteq> [] \<and> \<not> l)"
    using assms(2,5) by (simp add: image_remote_def)
  show ?thesis
    by (rule wp_mono [OF wp_conj [OF wp_conv [OF manage_conv [OF fl(1)]] wp_keeps [OF fl.frame_manage [OF TrueI]]]])
      (use assms(1) fl(2) remote in \<open>auto simp: image_step_def\<close>)
qed

text \<open>The end of the step: the image is managed, and its tag printed if it is the one asked for.\<close>

lemma manage_print_wp:
  assumes s': "advanced R w s w1 s' w2 []"
    and cmd: "image_command w b (tag_of s') no_cache n = Some cmd" "map_of (b_configs b) n = Some conf" "image_deps conf = Ok deps"
      "dockerfile_of w (b_search_paths b) (n @ ''.Dockerfile'') = Some p" "local_mode local_flag conf = Ok l"
      "df = Path ''/'' (realpath (w_fs w) (w_cwd w) p)"
    and tag: "map_of (b_tags s') n \<noteq> None"
  shows "wp (py_seq (manage_docker_image (tag_of s' n) df (image_args b (tag_of s') n deps) (path_parent df) l no_cache (b_repo b))
      (if print_target = Some n then py_seq (py_print (tag_of s' n)) (sys_exit 0) else py_ret s'))
    (\<lambda>s' w'. \<exists>cs. advanced R w s w1 s' w' cs \<and> map_of (b_tags s') n \<noteq> None \<and> print_target \<noteq> Some n \<and>
       image_step w b (tag_of s') no_cache local_flag n cs (Ok ()))
    (\<lambda>e w'. \<exists>cs s'. advanced R w s w1 s' w' cs \<and> image_stops w b no_cache local_flag print_target n s' cs e w') w2"
  unfolding wp_seq
proof (rule wp_mono [OF manage_wp [OF cmd]], goal_cases)
  case (1 u w3)
  then obtain cs where cs: "advanced R w s w1 s' w3 cs" "image_step w b (tag_of s') no_cache local_flag n cs (Ok ())"
    using advanced_step [OF s'] by blast
  from advanced_noise [OF this(1)] this tag show ?case
    by (auto simp: wp_simps image_stops_def intro!: exI [of _ cs] exI [of _ s'])
next
  case (2 e w3)
  then obtain cs where "advanced R w s w1 s' w3 cs" "image_step w b (tag_of s') no_cache local_flag n cs (Exc e)"
    using advanced_step [OF s'] by blast
  with tag show ?case by (auto simp: image_stops_def intro!: exI [of _ cs] exI [of _ s'])
qed

text \<open>The state right after the tag: the configuration and the files are those of the beginning.\<close>

lemma advanced_start:
  assumes "tag_inv R w b s w1" "advanced R w s w1 s' w2 []"
  shows "b_configs s' = b_configs b" "b_search_paths s' = b_search_paths b" "b_repo s' = b_repo b" "extra_args s' = extra_args b"
    "dockerfile_of w2 = dockerfile_of w" "w_fs w2 = w_fs w" "w_cwd w2 = w_cwd w" "map_of (b_tags s) \<subseteq>\<^sub>m map_of (b_tags s')"
proof -
  have "tag_inv R w b s' w2" using tag_inv_trans [OF assms(1)] assms(2) by (simp add: advanced_def)
  then have i: "same_config b s'" "same_files w w2" by (simp_all add: tag_inv_def)
  show "b_configs s' = b_configs b" "b_search_paths s' = b_search_paths b" "b_repo s' = b_repo b" "extra_args s' = extra_args b"
    "dockerfile_of w2 = dockerfile_of w" "w_fs w2 = w_fs w" "w_cwd w2 = w_cwd w"
    using same_config_fields [OF i(1)] same_config_eqs [OF i(1)] same_files_eqs(2) [OF i(2)] i(2) by (simp_all add: same_files_def)
  show "map_of (b_tags s) \<subseteq>\<^sub>m map_of (b_tags s')" using assms(2) by (simp add: advanced_def tag_inv_def)
qed

lemma process_image_wp:
  assumes inv: "tag_inv R w b s w1"
    and deps: "\<And>conf deps. map_of (b_configs b) n = Some conf \<Longrightarrow> image_deps conf = Ok deps \<Longrightarrow> have_tags s (snd ` set deps)"
  shows "wp (process_image R no_cache local_flag print_target n s)
    (\<lambda>s' w'. \<exists>cs. advanced R w s w1 s' w' cs \<and> map_of (b_tags s') n \<noteq> None \<and> print_target \<noteq> Some n \<and>
       image_step w b (tag_of s') no_cache local_flag n cs (Ok ()))
    (\<lambda>e w'. \<exists>cs s'. advanced R w s w1 s' w' cs \<and> image_stops w b no_cache local_flag print_target n s' cs e w') w1"
  (is "wp _ ?Q ?E _")
proof -
  have stop: "?E e v" if "advanced R w s w1 s' v []" for e s' v
    using that by (intro exI [of _ "[]"] exI [of _ s']) (simp add: image_stops_def)
  have configs: "b_configs s = b_configs b" using inv same_config_fields(1) by (auto simp: tag_inv_def)
  show ?thesis unfolding wp_process_image
  proof (rule wp_mono [OF calculate_tag_advanced [OF inv deps [folded configs]]], goal_cases)
    case (3 x w2)
    obtain t s' where x: "x = (t, s')" by fastforce
    with 3 have s': "advanced R w s w1 s' w2 []" "map_of (b_tags s') n = Some t" by auto
    note g = advanced_start [OF inv s'(1)]
    have t: "t = tag_of s' n" using s'(2) by (simp add: tag_of_def)
    have run: "wp (dependency_args (b_tags s') ds) (\<lambda>args. wp
        (py_seq (manage_docker_image t df (args @ flatten_pairs (extra_args b n)) (path_parent df) l no_cache (b_repo b))
          (if print_target = Some n then py_seq (py_print t) (sys_exit 0) else py_ret s')) ?Q ?E) ?E w2"
      if conf: "map_of (b_configs b) n = Some conf" "image_deps conf = Ok ds" "dockerfile_of w (b_search_paths b) (n @ ''.Dockerfile'') = Some p"
        "local_mode local_flag conf = Ok l" and df: "df = Path ''/'' (realpath (w_fs w) (w_cwd w) p)" for conf ds p l df
    proof -
      have tags: "have_tags s' (snd ` set ds)" using have_tags_mono [OF deps [OF conf(1,2)] g(8)] .
      obtain cmd where cmd: "image_command w b (tag_of s') no_cache n = Some cmd"
        using image_args_flags [of b "tag_of s'" n ds] by (auto simp: image_command_def conf Let_def)
      from manage_print_wp [OF s'(1) cmd conf df, of print_target] s'(2) show ?thesis
        unfolding dependency_args_eq [OF tags] wp_ret by (simp only: image_args_def t option.distinct simp_thms)
    qed
    show ?case unfolding x prod.case g(1-7)
      using stop [OF s'(1)] stop [OF advanced_noise [OF s'(1)]] run
      by (auto split: option.split result.split)
  next
    case (4 e w2)
    with stop show ?case by blast
  qed
qed

section \<open>The loop\<close>

lemma tag_of_eq: "tag_of s = the \<circ> map_of (b_tags s)"
  by (simp add: fun_eq_iff tag_of_def)

lemma tags_for_inv:
  assumes "tag_inv R w b s w'" "have_tags s (set ns)"
  shows "tags_for R w b ns (map_of (b_tags s))"
proof -
  have "same_config b s" using assms(1) by (simp add: tag_inv_def)
  from same_config_eqs(4) [OF this, of R w] assms show ?thesis
    by (auto simp: tags_for_def tag_inv_def tags_right_def have_tags_def)
qed

lemma image_step_tags:
  assumes "image_step w b T no_cache local_flag n cs r" "T' n = T n"
    and "\<And>conf deps d. map_of (b_configs b) n = Some conf \<Longrightarrow> image_deps conf = Ok deps \<Longrightarrow> d \<in> snd ` set deps \<Longrightarrow> T' d = T d"
  shows "image_step w b T' no_cache local_flag n cs r"
proof -
  from assms(1) obtain cmd where cmd: "image_command w b T no_cache n = Some cmd"
    "image_protocol (T n) cmd (image_remote b local_flag n) no_cache cs r" unfolding image_step_def by blast
  then obtain conf deps where c: "map_of (b_configs b) n = Some conf" "image_deps conf = Ok deps"
    by (auto simp: image_command_def split: option.splits result.splits)
  have "map (\<lambda>(a, d). [a, T' d]) deps = map (\<lambda>(a, d). [a, T d]) deps"
    using assms(3) [OF c] by (intro map_cong) force+
  then have "image_args b T' n deps = image_args b T n deps" by (simp only: image_args_def)
  with cmd c assms(2) have "image_command w b T' no_cache n = Some cmd"
    by (auto simp: image_command_def split: option.splits)
  with cmd(2) assms(2) show ?thesis unfolding image_step_def by auto
qed

text \<open>The images \<open>us\<close> have been managed, one after the other, under their content-addressed tags \<open>T\<close>.\<close>

definition images_done :: "runtime \<Rightarrow> world \<Rightarrow> builder \<Rightarrow> bool \<Rightarrow> bool \<Rightarrow> string list \<Rightarrow> (string \<rightharpoonup> string) \<Rightarrow> conversation \<Rightarrow> bool" where
  "images_done R w b no_cache local_flag us T cs =
     (tags_for R w b us T \<and>
      (\<exists>css. cs = concat css \<and> list_all2 (\<lambda>n c. image_step w b (the \<circ> T) no_cache local_flag n c (Ok ())) us css))"

lemma deps_first_prefix:
  assumes "deps_first configs (us @ vs)" "n \<in> set us" "map_of configs n = Some conf" "image_deps conf = Ok deps"
  shows "snd ` set deps \<subseteq> set us"
proof -
  from assms(2) obtain as bs where "us = as @ n # bs" by (meson split_list)
  with assms show ?thesis unfolding deps_first_def by fastforce
qed

lemma images_done_advanced:
  assumes "deps_first (b_configs b) (us @ vs)" "images_done R w b no_cache local_flag us T cs"
    and "tags_for R w b us T'" "T \<subseteq>\<^sub>m T'"
  shows "images_done R w b no_cache local_flag us T' cs"
proof -
  have T: "(the \<circ> T') d = (the \<circ> T) d" if "d \<in> set us" for d
  proof -
    have "d \<in> dom T" using assms(2) that by (auto simp: images_done_def tags_for_def)
    with assms(4) show ?thesis by (simp add: map_le_def)
  qed
  have "image_step w b (the \<circ> T') no_cache local_flag n c (Ok ())"
    if "n \<in> set us" "image_step w b (the \<circ> T) no_cache local_flag n c (Ok ())" for n c
    using that(2) T [OF that(1)]
  proof (rule image_step_tags)
    fix conf deps d assume "map_of (b_configs b) n = Some conf" "image_deps conf = Ok deps" "d \<in> snd ` set deps"
    then have "d \<in> set us" using deps_first_prefix [OF assms(1) that(1)] by blast
    then show "(the \<circ> T') d = (the \<circ> T) d" by (rule T)
  qed
  with assms(2,3) show ?thesis unfolding images_done_def by (auto intro: list.rel_mono_strong)
qed

lemma images_done_step:
  assumes "images_done R w b no_cache local_flag us T cs" "image_step w b (the \<circ> T) no_cache local_flag n ds (Ok ())"
    "tags_for R w b (us @ [n]) T"
  shows "images_done R w b no_cache local_flag (us @ [n]) T (cs @ ds)"
proof -
  from assms(1) obtain css where "cs = concat css"
    "list_all2 (\<lambda>n c. image_step w b (the \<circ> T) no_cache local_flag n c (Ok ())) us css" unfolding images_done_def by blast
  with assms(2,3) show ?thesis
    unfolding images_done_def by (auto intro!: exI [of _ "css @ [ds]"] list_all2_appendI)
qed

text \<open>Where the loop stands after the images \<open>us\<close>, and how it may have been left at the next one.\<close>

definition loop_at :: "runtime \<Rightarrow> world \<Rightarrow> builder \<Rightarrow> bool \<Rightarrow> bool \<Rightarrow> string list \<Rightarrow> builder \<Rightarrow> world \<Rightarrow> conversation \<Rightarrow> bool" where
  "loop_at R w b no_cache local_flag us s w' cs =
     (talk w cs w' \<and> tag_inv R w b s w' \<and> have_tags s (set us) \<and>
      images_done R w b no_cache local_flag us (map_of (b_tags s)) cs)"

definition loop_left :: "runtime \<Rightarrow> world \<Rightarrow> builder \<Rightarrow> bool \<Rightarrow> bool \<Rightarrow> string option \<Rightarrow> string list \<Rightarrow> exn \<Rightarrow> world \<Rightarrow> bool" where
  "loop_left R w b no_cache local_flag print_target order e w' =
     (\<exists>us n vs s cs ds. order = us @ n # vs \<and> talk w (cs @ ds) w' \<and> tag_inv R w b s w' \<and> have_tags s (set us) \<and>
        images_done R w b no_cache local_flag us (map_of (b_tags s)) cs \<and>
        image_stops w b no_cache local_flag print_target n s ds e w')"

lemma loop_at_advanced:
  assumes "deps_first (b_configs b) (us @ vs)" "loop_at R w b no_cache local_flag us s w1 cs" "advanced R w s w1 s' w' ds"
  shows "talk w (cs @ ds) w'" "tag_inv R w b s' w'" "have_tags s' (set us)"
    "images_done R w b no_cache local_flag us (map_of (b_tags s')) cs"
proof -
  have s: "talk w cs w1" "tag_inv R w b s w1" "have_tags s (set us)" "images_done R w b no_cache local_flag us (map_of (b_tags s)) cs"
    using assms(2) by (simp_all add: loop_at_def)
  have s': "talk w1 ds w'" "tag_inv R w s s' w'" "map_of (b_tags s) \<subseteq>\<^sub>m map_of (b_tags s')"
    using assms(3) by (auto simp: advanced_def tag_inv_def)
  show "talk w (cs @ ds) w'" using talk_trans [OF s(1) s'(1)] .
  show inv: "tag_inv R w b s' w'" using tag_inv_trans [OF s(2) s'(2)] .
  show tags: "have_tags s' (set us)" using have_tags_mono [OF s(3) s'(3)] .
  show "images_done R w b no_cache local_flag us (map_of (b_tags s')) cs"
    using images_done_advanced [OF assms(1) s(4) tags_for_inv [OF inv tags] s'(3)] .
qed

lemma loop_at_step:
  assumes "deps_first (b_configs b) (us @ n # vs)" "loop_at R w b no_cache local_flag us s w1 cs" "advanced R w s w1 s' w' ds"
    and "map_of (b_tags s') n \<noteq> None" "image_step w b (tag_of s') no_cache local_flag n ds (Ok ())"
  shows "loop_at R w b no_cache local_flag (us @ [n]) s' w' (cs @ ds)"
proof -
  note after = loop_at_advanced [OF assms(1-3)]
  have "have_tags s' (set (us @ [n]))" using after(3) assms(4) by (simp add: have_tags_def)
  with after assms(5) show ?thesis
    unfolding loop_at_def tag_of_eq by (auto intro!: images_done_step tags_for_inv)
qed

lemma loop_tags:
  assumes "deps_first (b_configs b) (us @ n # vs)" "loop_at R w b no_cache local_flag us s w1 cs"
    "map_of (b_configs b) n = Some conf" "image_deps conf = Ok deps"
  shows "have_tags s (snd ` set deps)"
proof -
  from assms(1,3,4) have "snd ` set deps \<subseteq> set us" unfolding deps_first_def by metis
  with assms(2) show ?thesis by (auto simp: loop_at_def have_tags_def)
qed

text \<open>The rule of the loop: what holds of every exception of a step holds of those of the loop.\<close>

lemma loop_rule:
  assumes "deps_first (b_configs b) order" "b_tags b = []" "talk w [] w0" "same_files w w0"
    and step: "\<And>us n vs s w1 cs. order = us @ n # vs \<Longrightarrow> loop_at R w b no_cache local_flag us s w1 cs \<Longrightarrow>
      wp (process_image R no_cache local_flag print_target n s) (\<lambda>_ _. True) E w1"
  shows "wp (py_fold (process_image R no_cache local_flag print_target) order b)
    (\<lambda>s w'. (\<exists>cs. loop_at R w b no_cache local_flag order s w' cs) \<and> (\<forall>n \<in> set order. print_target \<noteq> Some n)) E w0"
proof (rule wp_fold [where Inv = "\<lambda>us s w'. (\<exists>cs. loop_at R w b no_cache local_flag us s w' cs) \<and> (\<forall>n \<in> set us. print_target \<noteq> Some n)"], goal_cases)
  case 1
  from assms(2-4) have "loop_at R w b no_cache local_flag [] b w0 []"
    by (simp add: loop_at_def tag_inv_def tags_right_def have_tags_def images_done_def tags_for_def)
  then show ?case by auto
next
  case (2 us n vs s w1)
  then obtain cs where cs: "loop_at R w b no_cache local_flag us s w1 cs" by blast
  then have inv: "tag_inv R w b s w1" by (simp add: loop_at_def)
  have first: "deps_first (b_configs b) (us @ n # vs)" using assms(1) 2(1) by simp
  show ?case
  proof (rule wp_mono [OF wp_conj [OF step [OF 2(1) cs] process_image_wp [OF inv loop_tags [OF first cs]]]], goal_cases)
    case (3 s' w')
    then obtain ds where ds: "advanced R w s w1 s' w' ds" "map_of (b_tags s') n \<noteq> None" "print_target \<noteq> Some n"
      "image_step w b (tag_of s') no_cache local_flag n ds (Ok ())" by blast
    have "loop_at R w b no_cache local_flag (us @ [n]) s' w' (cs @ ds)" using loop_at_step [OF first cs ds(1,2,4)] .
    with 2(2) ds(3) show ?case by auto
  qed auto
qed

lemma loop_wp:
  assumes "deps_first (b_configs b) order" "b_tags b = []" "talk w [] w0" "same_files w w0"
  shows "wp (py_fold (process_image R no_cache local_flag print_target) order b)
    (\<lambda>s w'. (\<exists>cs. loop_at R w b no_cache local_flag order s w' cs) \<and> (\<forall>n \<in> set order. print_target \<noteq> Some n))
    (loop_left R w b no_cache local_flag print_target order) w0"
proof (rule loop_rule [OF assms])
  fix us n vs s w1 cs assume o: "order = us @ n # vs" and cs: "loop_at R w b no_cache local_flag us s w1 cs"
  then have inv: "tag_inv R w b s w1" and first: "deps_first (b_configs b) (us @ n # vs)" using assms(1) by (simp_all add: loop_at_def)
  show "wp (process_image R no_cache local_flag print_target n s) (\<lambda>_ _. True)
      (loop_left R w b no_cache local_flag print_target order) w1"
  proof (rule wp_mono [OF process_image_wp [OF inv loop_tags [OF first cs]]], goal_cases)
    case (4 e w')
    then obtain ds s' where "advanced R w s w1 s' w' ds" "image_stops w b no_cache local_flag print_target n s' ds e w'" by blast
    with loop_at_advanced [OF first cs] o show ?case unfolding loop_left_def
      by (intro exI [of _ us] exI [of _ n] exI [of _ vs] exI [of _ s'] exI [of _ cs] exI [of _ ds]) simp
  qed auto
qed

text \<open>A run over \<open>order\<close> that managed \<open>us\<close>, and perhaps failed on the next image.\<close>

definition images_run :: "runtime \<Rightarrow> world \<Rightarrow> builder \<Rightarrow> bool \<Rightarrow> bool \<Rightarrow> string list \<Rightarrow> string list \<Rightarrow> unit result \<Rightarrow> conversation \<Rightarrow> bool" where
  "images_run R w b no_cache local_flag order us r cs =
     (\<exists>T vs cs' ds. order = us @ vs \<and> cs = cs' @ ds \<and> images_done R w b no_cache local_flag us T cs' \<and>
        (ds = [] \<or> (\<exists>n ns e. vs = n # ns \<and> r = Exc e \<and> tags_for R w b (us @ [n]) T \<and>
           image_step w b (the \<circ> T) no_cache local_flag n ds (Exc e))))"

lemma images_run_done:
  "images_done R w b no_cache local_flag us T cs \<Longrightarrow> images_run R w b no_cache local_flag (us @ vs) us r cs"
  unfolding images_run_def by (intro exI [of _ T] exI [of _ vs] exI [of _ cs] exI [of _ "[]"]) simp

lemma loop_left_run:
  assumes "loop_left R w b no_cache local_flag print_target order e w'"
  shows "\<exists>cs us. talk w cs w' \<and> images_run R w b no_cache local_flag order us (Exc e) cs"
proof -
  from assms obtain us n vs s cs ds where l: "order = us @ n # vs" "talk w (cs @ ds) w'" "tag_inv R w b s w'" "have_tags s (set us)"
    "images_done R w b no_cache local_flag us (map_of (b_tags s)) cs" "image_stops w b no_cache local_flag print_target n s ds e w'"
    unfolding loop_left_def by blast
  let ?T = "map_of (b_tags s)"
  have tags: "tags_for R w b (us @ [n]) ?T" if "?T n \<noteq> None"
    using tags_for_inv [OF l(3), of "us @ [n]"] l(4) that by (simp add: have_tags_def)
  from l(6) consider "ds = []" | "?T n \<noteq> None" "image_step w b (the \<circ> ?T) no_cache local_flag n ds (Exc e)"
    | "?T n \<noteq> None" "image_step w b (the \<circ> ?T) no_cache local_flag n ds (Ok ())"
    unfolding image_stops_def tag_of_eq by blast
  then have "\<exists>us'. images_run R w b no_cache local_flag order us' (Exc e) (cs @ ds)"
  proof cases
    case 1
    with images_run_done [OF l(5), of "n # vs"] l(1) show ?thesis by auto
  next
    case 2
    with l(1,5) tags [OF 2(1)] show ?thesis unfolding images_run_def by blast
  next
    case 3
    from images_run_done [OF images_done_step [OF l(5) 3(2) tags [OF 3(1)]], of vs] l(1) show ?thesis by auto
  qed
  with l(2) show ?thesis by blast
qed

lemma images_run_steps:
  assumes "images_run R w b no_cache local_flag order us r cs" "c \<in> set (map fst cs)"
  shows "\<exists>T n ds e. image_step w b T no_cache local_flag n ds e \<and> c \<in> set (map fst ds)"
proof -
  from assms(1) obtain T css ds where cs: "cs = concat css @ ds"
    and css: "list_all2 (\<lambda>n c. image_step w b (the \<circ> T) no_cache local_flag n c (Ok ())) us css"
    and ds: "ds = [] \<or> (\<exists>n e. image_step w b (the \<circ> T) no_cache local_flag n ds (Exc e))"
    unfolding images_run_def images_done_def by blast
  consider d where "d \<in> set css" "c \<in> set (map fst d)" | "c \<in> set (map fst ds)"
    using assms(2) unfolding cs by auto
  then show ?thesis
  proof cases
    case 1
    with css show ?thesis unfolding list_all2_conv_all_nth in_set_conv_nth by metis
  next
    case 2
    with ds show ?thesis by auto
  qed
qed

text \<open>The build order holds the configured targets, and all configured images when there are no targets.\<close>

definition wanted :: "builder \<Rightarrow> string list \<Rightarrow> string set" where
  "wanted b targets = (if targets = [] then fst ` set (b_configs b) else set targets \<inter> fst ` set (b_configs b))"

lemma order_wanted:
  assumes "enumerates (rt_set_order R)" "distinct (map fst (b_configs b))" "get_build_order R b targets w = (Ok order, w')"
  shows "wanted b targets \<subseteq> set order"
proof
  obtain g where g: "full_graph (b_configs b) = Ok g"
    using assms(3) by (cases "full_graph (b_configs b)")
      (auto simp: get_build_order_def builder_dependency_subgraph_def get_dependency_subgraph_def of_result_def py_simps split: if_splits)
  have keys: "fst ` set g = fst ` set (b_configs b)" using full_graph_keys [OF g] by (metis list.set_map)
  fix n assume n: "n \<in> wanted b targets"
  then have "n \<in> fst ` set g" unfolding keys by (auto simp: wanted_def split: if_splits)
  then have "map_of g n \<noteq> None" by (simp add: map_of_eq_None_iff)
  have "set (dedup targets) \<subseteq> set (reach g [] (dedup targets))" using reach_props [of "[]" g "dedup targets"] by simp
  with n \<open>map_of g n \<noteq> None\<close> \<open>n \<in> fst ` set g\<close> have "n \<in> fst ` set (order_graph g targets)"
    by (auto simp: wanted_def order_graph_def image_iff split: if_splits)
  then show "n \<in> set order"
    unfolding get_build_order_nodes [OF assms(1,2) g assms(3)] graph_nodes_iff by blast
qed

lemma build_order_wp:
  assumes "enumerates (rt_set_order R)" "distinct (map fst (b_configs b))"
  shows "wp (get_build_order R b targets) (\<lambda>order w'. deps_first (b_configs b) order \<and> talk w [] w' \<and> same_files w w')
    (\<lambda>_ w'. talk w [] w' \<and> same_files w w') w"
  by (rule wp_mono [OF wp_conj [OF wp_conj [OF get_build_order_wp [OF assms same_files_simps(1)] wp_quiet [OF quiet_build_order]]
        wp_keeps [OF fl.frame_build_order]]]) auto

text \<open>What a build achieves: without a build order it fails before it starts a command; otherwise it runs over that order.\<close>

definition built_in_order :: "runtime \<Rightarrow> world \<Rightarrow> builder \<Rightarrow> bool \<Rightarrow> bool \<Rightarrow> string list \<Rightarrow> unit result \<Rightarrow> conversation \<Rightarrow> bool" where
  "built_in_order R w b no_cache local_flag targets r cs =
     (case fst (get_build_order R b targets w) of
        Exc e \<Rightarrow> r = Exc e \<and> cs = []
      | Ok order \<Rightarrow> deps_first (b_configs b) order \<and> wanted b targets \<subseteq> set order \<and>
          (\<exists>us. images_run R w b no_cache local_flag order us r cs \<and> (r = Ok () \<longrightarrow> us = order)))"

lemma build_images_run:
  assumes "enumerates (rt_set_order R)" "distinct (map fst (b_configs b))" "b_tags b = []"
    and "build_images R b targets print_tag_mode no_cache local_flag w = (r, w')"
  shows "\<exists>t. w_trace w' = w_trace w @ t \<and>
     built_in_order R w b no_cache local_flag targets r (replies (w_proc w) (w_trace w) t)"
proof -
  obtain o1 w1 where order: "get_build_order R b targets w = (o1, w1)" by fastforce
  have w1: "talk w [] w1" "same_files w w1" using build_order_wp [OF assms(1,2), of targets w] order
    by (auto simp: wp_def split: result.splits)
  show ?thesis
  proof (cases o1)
    case (Exc e)
    then have "r = Exc e" "w' = w1" using assms(4) order by (auto simp: build_images_def py_bind_def)
    with w1(1) order Exc show ?thesis by (auto simp: built_in_order_def talk_def)
  next
    case (Ok order)
    have first: "deps_first (b_configs b) order" using build_order_wp [OF assms(1,2), of targets w] order Ok by (simp add: wp_def)
    let ?R = "\<lambda>r w'. \<exists>cs us. talk w cs w' \<and> images_run R w b no_cache local_flag order us r cs \<and> (r = Ok () \<longrightarrow> us = order)"
    have none: "images_run R w b no_cache local_flag order [] r []" for r
      using images_run_done [of R w b no_cache local_flag "[]" "\<lambda>_. None" "[]" order] by (simp add: images_done_def tags_for_def)
    have loop: "wp (py_fold (process_image R no_cache local_flag print_target) order b) (\<lambda>_. ?R (Ok ())) (\<lambda>e. ?R (Exc e)) w1" for print_target
    proof (rule wp_mono [OF loop_wp [OF first assms(3) w1]], goal_cases)
      case (1 s w2)
      then obtain cs where "loop_at R w b no_cache local_flag order s w2 cs" by blast
      then have "talk w cs w2" "images_run R w b no_cache local_flag order order (Ok ()) cs"
        using images_run_done [of R w b no_cache local_flag order "map_of (b_tags s)" cs "[]"] by (auto simp: loop_at_def)
      then show ?case by blast
    next
      case (2 e w2)
      with loop_left_run show ?case by blast
    qed
    have log: "talk w cs (traced v (Log l f xs))" if "talk w cs v" for cs v l f xs
      using that by (rule talk_noise) simp
    have fail: "?R (Exc e) w1" for e using none w1(1) by blast
    have rest: "wp (py_fold (process_image R no_cache local_flag print_target) order b)
        (\<lambda>b. wp (py_when (\<not> print_tag_mode) (if targets \<noteq> [] then log_info f xs else log_info g ys)) (\<lambda>_. ?R (Ok ())) (\<lambda>e. ?R (Exc e)))
        (\<lambda>e. ?R (Exc e)) w1" for print_target f xs g ys
      by (rule wp_mono [OF loop]) (auto simp: wp_when, (blast intro: log)+)
    have "wp (build_images R b targets print_tag_mode no_cache local_flag) (\<lambda>_. ?R (Ok ())) (\<lambda>e. ?R (Exc e)) w"
    proof -
      have step: "wp (get_build_order R b targets) Q E w = Q order w1" for Q E by (simp add: wp_def order Ok)
      show ?thesis unfolding build_images_def wp_bind step using rest fail by (cases targets) (auto simp: wp_of_opt)
    qed
    then have "?R r w'" using assms(4) by (cases r) (auto simp: wp_def)
    with first order_wanted [OF assms(1,2) order [unfolded Ok]] order Ok show ?thesis by (auto simp: built_in_order_def talk_def)
  qed
qed

text \<open>
  C7. \<open>build_images\<close> manages the images of its build order, which holds the targets (every configured image when there
  are none) and in which every image follows its dependencies, and stops at the first one that fails; when there is no such
  order it starts nothing. Each image is managed by the protocol of one image: under its content-addressed tag, and built from
  the very Dockerfile the tag was computed from, with the tags of its dependencies and its settings as arguments; the registry
  takes part exactly when there is one and neither \<open>--local\<close> nor the configuration of the image excludes it. When it
  returns, every image of the order has been managed.
\<close>
theorem build_images_in_order:
  assumes "enumerates (rt_set_order R)" "distinct (map fst (b_configs b))" "b_tags b = []"
    and "build_images R b targets print_tag_mode no_cache local_flag w = (r, w')"
  shows "\<exists>t. w_trace w' = w_trace w @ t \<and>
     (case fst (get_build_order R b targets w) of
        Exc e \<Rightarrow> r = Exc e \<and> replies (w_proc w) (w_trace w) t = []
      | Ok order \<Rightarrow> deps_first (b_configs b) order \<and> wanted b targets \<subseteq> set order \<and>
          (\<exists>us. images_run R w b no_cache local_flag order us r (replies (w_proc w) (w_trace w) t) \<and> (r = Ok () \<longrightarrow> us = order)))"
  using build_images_run [OF assms] unfolding built_in_order_def .

theorem build_images_in_order_witness:
  "\<exists>w' order. build_images (plain_runtime id) two_builder [] False False True two_images = (Ok (), w') \<and>
     {''a'', ''b''} \<subseteq> set order \<and> deps_first (b_configs two_builder) order \<and>
     images_run (plain_runtime id) two_images two_builder False True order order (Ok ()) (replies (w_proc two_images) [] (w_trace w'))"
proof -
  let ?m = "build_images (plain_runtime id) two_builder [] False False True two_images"
  have "fst ?m = Ok ()" by code_simp
  then obtain w' where m: "?m = (Ok (), w')" by (metis prod.collapse)
  have "wanted two_builder [] = {''a'', ''b''}" by (auto simp: wanted_def two_builder_def new_builder_def)
  moreover have "w_trace two_images = []" by (simp add: two_images_def world_of_def)
  ultimately show ?thesis using build_images_in_order [OF two_builder_ok(1,3,4) m] m by (auto split: result.splits)
qed

text \<open>
  C23. Built locally, no image is looked up in, pulled from or pushed to the registry: whatever the
  state of docker and the outcome, every command started inspects a local image or builds one.
\<close>
theorem local_build_offline:
  assumes "enumerates (rt_set_order R)" "distinct (map fst (b_configs b))" "b_tags b = []"
    and "build_images R b targets print_tag_mode no_cache True w = (r, w')"
  shows "\<exists>t. w_trace w' = w_trace w @ t \<and> (\<forall>c \<in> set (spawned t).
     take 3 c = [''docker'', ''image'', ''inspect''] \<or> take 3 c = [''docker'', ''buildx'', ''build''])"
proof -
  have step: "take 3 c = [''docker'', ''image'', ''inspect''] \<or> take 3 c = [''docker'', ''buildx'', ''build'']"
    if "image_step w b T no_cache True n cs r" "c \<in> set (map fst cs)" for T n cs r c
    using that image_local [of b n] by (auto simp: image_step_def dest!: protocol_registry image_command_shape)
  from build_images_run [OF assms] obtain t where
    t: "w_trace w' = w_trace w @ t" "built_in_order R w b no_cache True targets r (replies (w_proc w) (w_trace w) t)" by blast
  from t(2) consider "replies (w_proc w) (w_trace w) t = []"
    | order us where "images_run R w b no_cache True order us r (replies (w_proc w) (w_trace w) t)"
    by (auto simp: built_in_order_def split: result.splits)
  then have "\<forall>c \<in> set (map fst (replies (w_proc w) (w_trace w) t)).
      take 3 c = [''docker'', ''image'', ''inspect''] \<or> take 3 c = [''docker'', ''buildx'', ''build'']"
  proof cases
    case (2 order us)
    then show ?thesis using images_run_steps [OF 2] step by blast
  qed simp
  with t(1) show ?thesis unfolding replies_spawned by blast
qed


theorem local_build_offline_witness:
  "\<exists>r w' t. build_images (plain_runtime id) two_builder [] False False True two_images = (r, w') \<and> w_trace w' = t \<and>
     (\<forall>c \<in> set (spawned t). take 3 c = [''docker'', ''image'', ''inspect''] \<or> take 3 c = [''docker'', ''buildx'', ''build''])"
proof -
  obtain r w' where m: "build_images (plain_runtime id) two_builder [] False False True two_images = (r, w')" by fastforce
  from local_build_offline [OF two_builder_ok(1,3,4) this] m show ?thesis
    by (simp add: two_images_def world_of_def)
qed

end
