(* ===== verification/Docker_Build_Total.thy ===== *)
theory Docker_Build_Total
  imports Docker_Build_Tags
begin

text \<open>
  When the tags can be computed: if every image has its Dockerfile and depends on configured images only, without
  cycles, then \<open>calculate_tags\<close> returns, whatever the targets.
\<close>

section \<open>Configurations that can be built\<close>

definition requires :: "builder \<Rightarrow> (string \<times> string) set" where
  "requires b = {(d, n). \<exists>conf deps. map_of (b_configs b) n = Some conf \<and> image_deps conf = Ok deps \<and> d \<in> snd ` set deps}"

definition buildable :: "world \<Rightarrow> builder \<Rightarrow> bool" where
  "buildable w b = (distinct (map fst (b_configs b)) \<and> acyclic (requires b) \<and>
     (\<forall>n conf. map_of (b_configs b) n = Some conf \<longrightarrow> image_content w b n \<noteq> None \<and>
        (\<exists>deps. image_deps conf = Ok deps \<and> snd ` set deps \<subseteq> dom (map_of (b_configs b)))))"

lemma buildableE:
  assumes "buildable w b" "map_of (b_configs b) n = Some conf"
  obtains deps content where "image_deps conf = Ok deps" "snd ` set deps \<subseteq> dom (map_of (b_configs b))"
    "image_content w b n = Some content"
  using assms unfolding buildable_def by blast

lemma full_graph_exists: "\<forall>e \<in> set cs. \<exists>deps. image_deps (snd e) = Ok deps \<Longrightarrow> \<exists>g. full_graph cs = Ok g"
  by (induction cs rule: full_graph.induct) auto

lemma buildable_graph:
  assumes "buildable w b"
  obtains g where "full_graph (b_configs b) = Ok g"
proof -
  have "\<exists>deps. image_deps (snd e) = Ok deps" if "e \<in> set (b_configs b)" for e
  proof -
    have "map_of (b_configs b) (fst e) = Some (snd e)" using that assms by (simp add: buildable_def)
    from buildableE [OF assms this] show ?thesis by blast
  qed
  with full_graph_exists that show ?thesis by blast
qed

text \<open>The edges the sorter sees are those of the configuration.\<close>

lemma edges_require:
  assumes "enumerates (rt_set_order R)" "full_graph (b_configs b) = Ok g" "\<And>n ps. map_of h n = Some ps \<Longrightarrow> map_of g n = Some ps"
  shows "edges (ordered R h) \<subseteq> requires b"
proof (rule subrelI)
  fix p n assume "(p, n) \<in> edges (ordered R h)"
  then obtain ps where ps: "map_of h n = Some ps" "p \<in> set (rt_set_order R ps)"
    by (cases "map_of h n") (auto simp: edges_def preds_def map_of_ordered)
  have g: "map_of g n = Some ps" using assms(3) ps(1) .
  then have "map_of (b_configs b) n \<noteq> None"
    using full_graph_keys [OF assms(2)] by (metis map_of_eq_None_iff option.distinct(1) list.set_map)
  then obtain conf where conf: "map_of (b_configs b) n = Some conf" by blast
  from full_graph_entry [OF assms(2) conf] g obtain deps where "image_deps conf = Ok deps" "ps = dedup (map snd deps)" by auto
  with ps(2) assms(1) conf show "(p, n) \<in> requires b" by (auto simp: enumerates_def requires_def)
qed

lemma sorted_exists:
  assumes "enumerates (rt_set_order R)" "buildable w b" "full_graph (b_configs b) = Ok g" "graph_wf h"
    and "\<And>n ps. map_of h n = Some ps \<Longrightarrow> map_of g n = Some ps"
  shows "\<exists>ns. sorted_graph R h = Some ns"
proof -
  have "edges (ordered R h) \<subseteq> requires b" by (rule edges_require [OF assms(1,3)]) (rule assms(5))
  then have "acyclic (edges (ordered R h))" using assms(2) acyclic_subset unfolding buildable_def by blast
  from ts.order_exists [OF ordered_wf [THEN iffD2, OF assms(4)] this] show ?thesis unfolding sorted_graph_def ordered_def .
qed

lemma build_order_exists:
  assumes "enumerates (rt_set_order R)" "buildable w b"
  shows "\<exists>ns w'. get_build_order R b targets w1 = (Ok ns, w')"
proof -
  obtain g where g: "full_graph (b_configs b) = Ok g" using buildable_graph [OF assms(2)] .
  have wf: "graph_wf g" using assms(2) full_graph_keys [OF g] by (simp add: graph_wf_def buildable_def)
  let ?V = "rt_set_order R (reach g [] (dedup targets))"
  let ?sub = "map (\<lambda>n. (n, preds g n)) (filter (\<lambda>n. map_of g n \<noteq> None) ?V)"
  have "distinct ?V" using reach_props [of "[]" g "dedup targets"] assms(1) by (simp add: enumerates_def)
  then have sub: "graph_wf ?sub" by (simp add: graph_wf_def comp_def)
  have "map_of g n = Some ps" if "map_of ?sub n = Some ps" for n ps
    using map_of_SomeD [OF that] by (auto simp: preds_def)
  from sorted_exists [OF assms g sub this] sorted_exists [OF assms g wf]
  show ?thesis using g
    by (auto simp: get_build_order_def builder_dependency_subgraph_def get_dependency_subgraph_def Let_def of_result_def py_simps)
qed

text \<open>Only configured images are processed.\<close>

lemma order_configured:
  assumes "enumerates (rt_set_order R)" "buildable w b" "get_build_order R b targets w1 = (Ok ns, w')" "n \<in> set ns"
  shows "\<exists>conf. map_of (b_configs b) n = Some conf"
proof -
  obtain g where g: "full_graph (b_configs b) = Ok g" using buildable_graph [OF assms(2)] .
  have keys: "map_of (b_configs b) m \<noteq> None" if "map_of g m \<noteq> None" for m
    using that full_graph_keys [OF g] by (metis map_of_eq_None_iff list.set_map)
  have preds: "map_of (b_configs b) d \<noteq> None" if "d \<in> set (preds g m)" for d m
  proof -
    from that have "map_of g m \<noteq> None" by (cases "map_of g m") (auto simp: preds_def)
    then obtain conf where conf: "map_of (b_configs b) m = Some conf" using keys by blast
    obtain deps where deps: "image_deps conf = Ok deps" "snd ` set deps \<subseteq> dom (map_of (b_configs b))"
      using buildableE [OF assms(2) conf] .
    with full_graph_entry [OF g conf] that have "d \<in> snd ` set deps" by (auto simp: preds_def)
    with deps(2) show ?thesis by (auto simp: dom_def)
  qed
  have "distinct (map fst (b_configs b))" using assms(2) by (simp add: buildable_def)
  from get_build_order_nodes [OF assms(1) this g assms(3)] assms(4)
  have "n \<in> set (graph_nodes (order_graph g targets))" by simp
  then obtain e where e: "e \<in> set (order_graph g targets)" "n = fst e \<or> n \<in> set (snd e)" unfolding graph_nodes_iff by blast
  have "map_of g (fst e) \<noteq> None \<and> snd e = preds g (fst e)"
  proof (cases "targets = []")
    case True
    have "distinct (map fst g)" using full_graph_keys [OF g] \<open>distinct (map fst (b_configs b))\<close> by simp
    then have "map_of g (fst e) = Some (snd e)" using e(1) True by (simp add: order_graph_def)
    then show ?thesis by (simp add: preds_def)
  qed (use e(1) in \<open>auto simp: order_graph_def\<close>)
  with e(2) keys preds show ?thesis by (metis not_None_eq)
qed

section \<open>The tags are computed\<close>

lemma tag_succeeds:
  assumes "image_content w b n \<noteq> None" "map_of (b_configs b) n = Some conf" "image_deps conf = Ok deps" "have_tags b (snd ` set deps)"
  shows "wp (calculate_tag_for_image R (Suc (Suc k)) n b) (\<lambda>_ _. True) (\<lambda>_ _. False) w"
proof (cases "map_of (b_tags b) n")
  case None
  from assms(1) obtain p content where p: "dockerfile_of w (b_search_paths b) (n @ ''.Dockerfile'') = Some p"
    "fs_read (w_fs w) (w_cwd w) (Path ''/'' (realpath (w_fs w) (w_cwd w) p)) = Some content"
    by (auto simp: image_content_def split: option.splits)
  show ?thesis unfolding wp_calculate_tag [OF None assms(2,3,4) p(1)]
    by (simp add: calculate_sha256_def wp_simps p(2))
qed (simp add: wp_simps)

text \<open>The same in a later state of the loop over the images.\<close>

lemma tag_step_succeeds:
  assumes "buildable w b" "tag_inv R w b s w1" "map_of (b_configs b) n = Some conf" "image_deps conf = Ok deps" "have_tags s (snd ` set deps)"
  shows "wp (calculate_tag_for_image R recursion_limit n s) (\<lambda>_ _. True) (\<lambda>_ _. False) w1"
proof -
  have limit: "recursion_limit = Suc (Suc 998)" by (simp add: recursion_limit_def)
  have same: "same_config b s" "same_files w w1" using assms(2) by (simp_all add: tag_inv_def)
  obtain content where "image_content w b n = Some content" using buildableE [OF assms(1,3)] .
  then have "image_content w1 s n \<noteq> None" "map_of (b_configs s) n = Some conf"
    unfolding same_files_eqs(1) [OF same(2)] same_config_eqs(3) [OF same(1)] same_config_fields(1) [OF same(1)] using assms(3) by simp_all
  then show ?thesis unfolding limit by (rule tag_succeeds) (rule assms(4,5))+
qed

lemma tags_loop_succeeds:
  assumes "buildable w b" "deps_first (b_configs b) ns" "b_tags b = []" "same_files w w1"
    and "\<And>n. n \<in> set ns \<Longrightarrow> \<exists>conf. map_of (b_configs b) n = Some conf"
  shows "wp (py_fold (\<lambda>n b. py_bind (calculate_tag_for_image R recursion_limit n b) (\<lambda>(_, b). py_ret b)) ns b)
    (\<lambda>b' w'. tag_inv R w b b' w' \<and> have_tags b' (set ns)) (\<lambda>_ _. False) w1"
proof (rule wp_fold [where Inv = "\<lambda>us b' w'. tag_inv R w b b' w' \<and> have_tags b' (set us)"])
  show "tag_inv R w b b w1 \<and> have_tags b (set [])"
    using assms(3,4) by (simp add: tag_inv_refl tags_right_def have_tags_def)
next
  fix us n vs b' w' assume ns: "ns = us @ n # vs" and inv: "tag_inv R w b b' w' \<and> have_tags b' (set us)"
  from assms(5) ns obtain conf where conf: "map_of (b_configs b) n = Some conf" by auto
  obtain deps where deps: "image_deps conf = Ok deps" using buildableE [OF assms(1) conf] .
  have "snd ` set deps \<subseteq> set us" using assms(2) ns conf deps unfolding deps_first_def by blast
  with inv have "have_tags b' (snd ` set deps)" by (auto simp: have_tags_def)
  from tag_step_succeeds [OF assms(1) conjunct1 [OF inv] conf deps this]
  have "wp (calculate_tag_for_image R recursion_limit n b') (\<lambda>_ _. True) (\<lambda>_ _. False) w'" .
  from wp_conj [OF this tag_step_wp [OF assms(2) ns conjunct1 [OF inv] conjunct2 [OF inv]]]
  show "wp (py_bind (calculate_tag_for_image R recursion_limit n b') (\<lambda>(_, b). py_ret b))
      (\<lambda>b' w'. tag_inv R w b b' w' \<and> have_tags b' (set (us @ [n]))) (\<lambda>_ _. False) w'"
    unfolding wp_bind by (rule wp_mono) auto
qed

text \<open>
  C4. The tags can be computed whenever the configuration can be built: if the dependencies have no cycle and name
  configured images only, and every image has a Dockerfile that can be read, \<open>calculate_tags\<close> returns one tag for every
  image of the build order, whatever the targets.
\<close>
theorem calculate_tags_succeeds:
  assumes "enumerates (rt_set_order R)" "buildable w b" "b_tags b = []"
  shows "\<exists>tags ns w' w''. get_build_order R b targets w = (Ok ns, w') \<and> calculate_tags R b targets w = (Ok tags, w'') \<and>
    length tags = length ns"
proof -
  have dist: "distinct (map fst (b_configs b))" using assms(2) by (simp add: buildable_def)
  obtain ns w1 where order: "get_build_order R b targets w = (Ok ns, w1)"
    using build_order_exists [OF assms(1,2)] by blast
  have ns: "deps_first (b_configs b) ns" "same_files w w1"
    using wp_Ok [OF get_build_order_wp [OF assms(1) dist same_files_simps(1)] order] by simp_all
  have conf: "\<And>n. n \<in> set ns \<Longrightarrow> \<exists>conf. map_of (b_configs b) n = Some conf"
    using order_configured [OF assms(1,2) order] .
  obtain b' w2 where loop: "py_fold (\<lambda>n b. py_bind (calculate_tag_for_image R recursion_limit n b) (\<lambda>(_, b). py_ret b)) ns b w1 = (Ok b', w2)"
    "have_tags b' (set ns)"
    using tags_loop_succeeds [OF assms(2) ns(1) assms(3) ns(2) conf, of R] by (auto simp: wp_def split: prod.splits result.splits)
  have "wp (py_fold (\<lambda>n tags. py_bind (of_opt (KeyError n) (map_of (b_tags b') n)) (\<lambda>t. py_ret (tags @ [t]))) ns [])
      (\<lambda>tags w'. map Some tags = map (map_of (b_tags b')) ns \<and> w' = w2) (\<lambda>_ _. False) w2"
    by (rule collect_tags_wp) (use loop(2) in \<open>simp add: have_tags_def\<close>)
  then obtain tags w3 where "py_fold (\<lambda>n tags. py_bind (of_opt (KeyError n) (map_of (b_tags b') n)) (\<lambda>t. py_ret (tags @ [t]))) ns [] w2
      = (Ok tags, w3)" "length tags = length ns"
    by (auto simp: wp_def split: prod.splits result.splits dest: map_eq_imp_length_eq)
  with order loop(1) show ?thesis by (auto simp: calculate_tags_def py_bind_def)
qed

lemma two_builder_buildable:
  assumes "image_content w two_builder ''a'' \<noteq> None" "image_content w two_builder ''b'' \<noteq> None"
  shows "buildable w two_builder"
proof -
  have a: "image_deps (JObj [(''deps'', JObj [])]) = Ok []" by code_simp
  have b: "image_deps (JObj [(''deps'', JObj [(''X'', JStr ''a'')])]) = Ok [(''X'', ''a'')]" by code_simp
  have conf: "b_configs two_builder = [(''b'', JObj [(''deps'', JObj [(''X'', JStr ''a'')])]), (''a'', JObj [(''deps'', JObj [])])]"
    by (simp add: two_builder_def)
  have "requires two_builder = {(''a'', ''b'')}"
    unfolding requires_def conf by (auto simp: a b split: if_splits)
  then have "acyclic (requires two_builder)" by (simp add: acyclic_insert wf_acyclic)
  then show ?thesis unfolding buildable_def conf using a b assms by (auto split: if_splits)
qed

lemma two_buildable: "buildable two_images two_builder"
  by (rule two_builder_buildable) code_simp+

theorem calculate_tags_succeeds_witness:
  "\<exists>tags w'. calculate_tags (plain_runtime rev) two_builder [''b''] two_images = (Ok tags, w')"
  using calculate_tags_succeeds [OF two_builder_ok(2) two_buildable two_builder_ok(4), of "[''b'']"] by blast

end
