(* ===== verification/Docker_Build_Live.thy ===== *)
theory Docker_Build_Live
  imports Docker_Build_Images Docker_Build_Total
begin

text \<open>
  The build succeeds: when the configuration can be built and docker does its part, \<open>docker/build.py\<close> ends with
  every image of the build order available under its tag, or, asked for a tag, prints it and nothing else.
\<close>

section \<open>Docker does its part\<close>

definition vital :: "string list \<Rightarrow> bool" where
  "vital c = (take 3 c = [''docker'', ''buildx'', ''build''] \<or> take 2 c = [''docker'', ''pull''] \<or>
     c = [''docker'', ''--version''] \<or> c = [''docker'', ''buildx'', ''version''])"

text \<open>Every command can be started, docker and its plug-in are installed, and builds and pulls succeed. Lookups and
  pushes may have any outcome.\<close>

definition serves :: "world \<Rightarrow> bool" where
  "serves w = (\<forall>t c. \<exists>n out err. w_proc w t c = Exited n out err \<and> (vital c \<longrightarrow> n = 0))"

lemma serves_reply:
  assumes "serves w" "talk w cs w'" "(c, x) \<in> set cs"
  obtains n out err where "x = Exited n out err" "vital c \<Longrightarrow> n = 0"
proof -
  from assms(2,3) obtain t where "x = w_proc w t c" unfolding talk_def using replies_from by metis
  with assms(1) show ?thesis unfolding serves_def using that by metis
qed

lemma serves_talk: "talk w cs w' \<Longrightarrow> serves w' = serves w"
  by (simp add: talk_def serves_def)

lemma vital_ends:
  assumes "serves w" "talk w cs w'" "(c, x) \<in> set cs" "vital c"
  shows "docker_end x = Ok ()"
  by (rule serves_reply [OF assms(1-3)]) (simp add: docker_end_def assms(4))

lemma never_lost: "serves w \<Longrightarrow> talk w cs w' \<Longrightarrow> (c, LaunchFailed e) \<notin> set cs"
  by (auto elim: serves_reply)

lemma protocol_serves:
  assumes "image_protocol tag cmd remote no_cache cs r" "serves w" "talk w cs w'" "vital cmd"
  shows "r = Ok ()"
proof -
  note ends = vital_ends [OF assms(2,3)] and lost = never_lost [OF assms(2,3)]
  from assms(1) show ?thesis
  proof cases
    case gone: (lost e)
    with lost [of "inspect_command tag" e] show ?thesis by simp
  next
    case (built ds x)
    with ends [of cmd x] assms(4) show ?thesis by simp
  next
    case (registry_lost ds e)
    with lost [of "manifest_command tag" e] show ?thesis by simp
  next
    case (pulled ds out err x)
    with ends [of "pull_command tag" x] show ?thesis by (simp add: vital_def)
  next
    case (build_failed ds es x e)
    with ends [of cmd x] assms(4) show ?thesis by simp
  next
    case (pushed ds es x y)
    then have "y \<noteq> LaunchFailed e" for e using lost [of "push_command tag" e] by auto
    with pushed show ?thesis by (cases y) (auto simp: push_end_def)
  qed simp
qed

section \<open>One image\<close>

text \<open>The image was managed, and its tag printed last.\<close>

definition printed_last :: "builder \<Rightarrow> string \<Rightarrow> world \<Rightarrow> bool" where
  "printed_last s n w' = (last (w_trace w') = Stdout (tag_of s n @ [CHR 0x0A]))"

lemma image_deps_mode: "image_deps conf = Ok deps \<Longrightarrow> \<exists>l. local_mode local_flag conf = Ok l"
  by (auto simp: image_deps_def local_mode_def py_getitem_def r_bind_def split: result.splits json.splits)

lemma buildable_dockerfile:
  assumes "buildable w b" "map_of (b_configs b) n = Some conf"
  obtains p where "dockerfile_of w (b_search_paths b) (n @ ''.Dockerfile'') = Some p"
  by (rule buildableE [OF assms]) (auto simp: image_content_def that split: option.splits)

lemma process_image_succeeds:
  assumes ok: "buildable w b" "serves w1" and inv: "tag_inv R w b s w1"
    and conf: "map_of (b_configs b) n = Some conf" "image_deps conf = Ok deps" "have_tags s (snd ` set deps)"
  shows "wp (process_image R no_cache local_flag print_target n s) (\<lambda>_ _. True)
    (\<lambda>e w'. print_target = Some n \<and> e = SystemExit 0 \<and> (\<exists>cs s'. advanced R w s w1 s' w' cs \<and> map_of (b_tags s') n \<noteq> None \<and>
       image_step w b (tag_of s') no_cache local_flag n cs (Ok ()) \<and> printed_last s' n w')) w1"
  unfolding wp_process_image
proof (rule wp_mono [OF wp_conj [OF tag_step_succeeds [OF ok(1) inv conf] calculate_tag_advanced [OF inv]]], goal_cases)
  case (1 conf' deps')
  then have "conf' = conf" "deps' = deps" using conf same_config_fields(1) [of b s] inv by (auto simp: tag_inv_def)
  with conf(3) show ?case by simp
next
  case (2 x w2)
  obtain t s' where x: "x = (t, s')" by fastforce
  with 2 have s': "advanced R w s w1 s' w2 []" "map_of (b_tags s') n = Some t" by auto
  note g = advanced_start [OF inv s'(1)]
  obtain l where l: "local_mode local_flag conf = Ok l" using image_deps_mode [OF conf(2)] by blast
  obtain p where p: "dockerfile_of w (b_search_paths b) (n @ ''.Dockerfile'') = Some p" using buildable_dockerfile [OF ok(1) conf(1)] .
  let ?df = "Path ''/'' (realpath (w_fs w) (w_cwd w) p)"
  have t: "t = tag_of s' n" using s'(2) by (simp add: tag_of_def)
  obtain cmd where cmd: "image_command w b (tag_of s') no_cache n = Some cmd"
    using image_args_flags [of b "tag_of s'" n deps] by (auto simp: image_command_def conf p Let_def)
  have served: "serves w2" using ok(2) s'(1) serves_talk [of w1 "[]" w2] by (simp add: advanced_def)
  have never: "r = Ok ()" if "talk w2 cs w3" "image_step w b (tag_of s') no_cache local_flag n cs r" for cs w3 r
    using that cmd image_command_shape [OF cmd] protocol_serves [OF _ served that(1)] by (auto simp: image_step_def vital_def)
  have "wp (py_seq (manage_docker_image t ?df (image_args b (tag_of s') n deps) (path_parent ?df) l no_cache (b_repo b))
      (if print_target = Some n then py_seq (py_print t) (sys_exit 0) else py_ret s')) (\<lambda>_ _. True)
    (\<lambda>e w'. print_target = Some n \<and> e = SystemExit 0 \<and> (\<exists>cs s'. advanced R w s w1 s' w' cs \<and> map_of (b_tags s') n \<noteq> None \<and>
       image_step w b (tag_of s') no_cache local_flag n cs (Ok ()) \<and> printed_last s' n w')) w2"
    unfolding wp_seq t
  proof (rule wp_mono [OF manage_wp [OF cmd conf(1,2) p l refl]], goal_cases)
    case (1 u w3)
    then obtain cs where cs: "advanced R w s w1 s' w3 cs" "image_step w b (tag_of s') no_cache local_flag n cs (Ok ())"
      using advanced_step [OF s'(1)] by blast
    from advanced_noise [OF this(1)] this s'(2) show ?case
      by (auto simp: wp_simps printed_last_def intro!: exI [of _ cs] exI [of _ s'])
  next
    case (2 e w3)
    with never show ?case by blast
  qed
  then show ?case unfolding x prod.case g(1-7) conf(1,2) l p option.case result.case
    dependency_args_eq [OF have_tags_mono [OF conf(3) g(8)]] wp_ret image_args_def .
qed simp

section \<open>All images\<close>

lemma loop_succeeds:
  assumes "buildable w b" "serves w" "deps_first (b_configs b) order" "b_tags b = []" "talk w [] w0" "same_files w w0"
    and "\<And>n. n \<in> set order \<Longrightarrow> \<exists>conf. map_of (b_configs b) n = Some conf"
  shows "wp (py_fold (process_image R no_cache local_flag print_target) order b)
    (\<lambda>s w'. (\<exists>cs. loop_at R w b no_cache local_flag order s w' cs) \<and> (\<forall>n \<in> set order. print_target \<noteq> Some n))
    (\<lambda>e w'. e = SystemExit 0 \<and> (\<exists>us n vs s cs. print_target = Some n \<and> order = us @ n # vs \<and>
       loop_at R w b no_cache local_flag (us @ [n]) s w' cs \<and> printed_last s n w')) w0"
proof (rule loop_rule [OF assms(3-6)])
  fix us n vs s w1 cs assume o: "order = us @ n # vs" and cs: "loop_at R w b no_cache local_flag us s w1 cs"
  have first: "deps_first (b_configs b) (us @ n # vs)" using assms(3) o by simp
  have inv: "tag_inv R w b s w1" and served: "serves w1" using cs assms(2) serves_talk [of w cs w1] by (simp_all add: loop_at_def)
  from assms(7) o obtain conf where conf: "map_of (b_configs b) n = Some conf" by auto
  obtain deps where deps: "image_deps conf = Ok deps" using buildableE [OF assms(1) conf] .
  note step = process_image_succeeds [OF assms(1) served inv conf deps loop_tags [OF first cs conf deps]]
  show "wp (process_image R no_cache local_flag print_target n s) (\<lambda>_ _. True)
    (\<lambda>e w'. e = SystemExit 0 \<and> (\<exists>us n vs s cs. print_target = Some n \<and> order = us @ n # vs \<and>
       loop_at R w b no_cache local_flag (us @ [n]) s w' cs \<and> printed_last s n w')) w1"
    by (rule wp_mono [OF step]) (use o loop_at_step [OF first cs] in blast)+
qed

text \<open>An image is available under a tag: docker has it, or has just built or pulled it.\<close>

definition available :: "world \<Rightarrow> builder \<Rightarrow> (string \<rightharpoonup> string) \<Rightarrow> bool \<Rightarrow> conversation \<Rightarrow> string \<Rightarrow> bool" where
  "available w b T no_cache cs n = (\<exists>tag c out err. T n = Some tag \<and> (c, Exited 0 out err) \<in> set cs \<and>
     (c \<in> {inspect_command tag, pull_command tag} \<or> image_command w b (the \<circ> T) no_cache n = Some c))"

lemma step_available:
  assumes "image_step w b (the \<circ> T) no_cache local_flag n cs (Ok ())" "T n = Some tag"
  shows "available w b T no_cache cs n"
  using assms protocol_available by (fastforce simp: image_step_def available_def)

lemma images_available:
  assumes "images_done R w b no_cache local_flag us T cs" "n \<in> set us"
  shows "available w b T no_cache cs n"
proof -
  from assms(1) obtain css where css: "cs = concat css" "tags_for R w b us T"
    "list_all2 (\<lambda>n c. image_step w b (the \<circ> T) no_cache local_flag n c (Ok ())) us css" unfolding images_done_def by blast
  with assms(2) obtain d where d: "d \<in> set css" "image_step w b (the \<circ> T) no_cache local_flag n d (Ok ())"
    unfolding list_all2_conv_all_nth in_set_conv_nth by metis
  obtain tag where "T n = Some tag" using css(2) assms(2) by (auto simp: tags_for_def)
  from step_available [OF d(2) this] d(1) show ?thesis unfolding css(1) available_def by fastforce
qed

text \<open>The build order exists; it holds the targets, and all images when there are none.\<close>

lemma order_complete:
  assumes "enumerates (rt_set_order R)" "buildable w b" "get_build_order R b targets w1 = (Ok order, w')"
    and "set targets \<subseteq> fst ` set (b_configs b)"
  shows "set targets \<subseteq> set order" "targets = [] \<Longrightarrow> set order = fst ` set (b_configs b)"
proof -
  have "distinct (map fst (b_configs b))" using assms(2) by (simp add: buildable_def)
  note wanted = order_wanted [OF assms(1) this assms(3)]
  then show "set targets \<subseteq> set order" using assms(4) by (auto simp: wanted_def split: if_splits)
  assume "targets = []"
  moreover have "set order \<subseteq> fst ` set (b_configs b)"
    using order_configured [OF assms(1-3)] by (metis domI dom_map_of_conv_image_fst subsetI)
  ultimately show "set order = fst ` set (b_configs b)" using wanted by (auto simp: wanted_def)
qed

lemma build_order_succeeds:
  assumes "enumerates (rt_set_order R)" "buildable w b" "set targets \<subseteq> fst ` set (b_configs b)"
  shows "wp (get_build_order R b targets) (\<lambda>order w'. deps_first (b_configs b) order \<and> talk w1 [] w' \<and> same_files w1 w' \<and>
       (\<forall>n \<in> set order. \<exists>conf. map_of (b_configs b) n = Some conf) \<and> set targets \<subseteq> set order \<and>
       (targets = [] \<longrightarrow> set order = fst ` set (b_configs b)))
    (\<lambda>_ _. False) w1"
proof -
  obtain order w' where run: "get_build_order R b targets w1 = (Ok order, w')" using build_order_exists [OF assms(1,2)] by blast
  have "distinct (map fst (b_configs b))" using assms(2) by (simp add: buildable_def)
  from wp_Ok [OF build_order_wp [OF assms(1) this] run] order_configured [OF assms(1,2) run] order_complete [OF assms(1,2) run assms(3)]
  show ?thesis by (simp add: wp_def run)
qed

lemma deps_first_upto:
  assumes "deps_first configs (us @ n # vs)"
  shows "deps_first configs (us @ [n])"
  unfolding deps_first_def
proof (intro conjI allI impI)
  show "distinct (us @ [n])" using assms by (auto simp: deps_first_def)
  fix xs m ys conf deps assume a: "us @ [n] = xs @ m # ys" "map_of configs m = Some conf" "image_deps conf = Ok deps"
  have "us @ n # vs = (us @ [n]) @ vs" by simp
  with a(1) have "us @ n # vs = xs @ m # ys @ vs" by simp
  with assms a(2,3) show "snd ` set deps \<subseteq> set xs" unfolding deps_first_def by blast
qed

text \<open>How the build ends: all images of the order are done, or the tag asked for was printed after its image.\<close>

definition all_built :: "runtime \<Rightarrow> world \<Rightarrow> builder \<Rightarrow> string list \<Rightarrow> bool \<Rightarrow> bool \<Rightarrow> conversation \<Rightarrow> bool" where
  "all_built R w b targets no_cache local_flag cs =
     (\<exists>order T. deps_first (b_configs b) order \<and> set targets \<subseteq> set order \<and> (targets = [] \<longrightarrow> set order = fst ` set (b_configs b)) \<and>
        images_done R w b no_cache local_flag order T cs)"

definition tag_printed :: "runtime \<Rightarrow> world \<Rightarrow> builder \<Rightarrow> string \<Rightarrow> bool \<Rightarrow> bool \<Rightarrow> conversation \<Rightarrow> event \<Rightarrow> bool" where
  "tag_printed R w b n no_cache local_flag cs e =
     (\<exists>us T tag. deps_first (b_configs b) (us @ [n]) \<and> images_done R w b no_cache local_flag (us @ [n]) T cs \<and>
        T n = Some tag \<and> e = Stdout (tag @ [CHR 0x0A]))"

lemma build_images_succeeds:
  assumes "enumerates (rt_set_order R)" "buildable w b" "serves w" "b_tags b = []" "set targets \<subseteq> fst ` set (b_configs b)"
    and "print_tag_mode \<Longrightarrow> targets = n # ns"
  shows "wp (build_images R b targets print_tag_mode no_cache local_flag)
    (\<lambda>_ w'. \<not> print_tag_mode \<and> (\<exists>cs. talk w cs w' \<and> all_built R w b targets no_cache local_flag cs))
    (\<lambda>e w'. print_tag_mode \<and> e = SystemExit 0 \<and>
       (\<exists>cs. talk w cs w' \<and> tag_printed R w b n no_cache local_flag cs (last (w_trace w')))) w"
  (is "wp _ ?Q ?E w")
proof -
  have rest: "wp (py_fold (process_image R no_cache local_flag print_target) order b)
      (\<lambda>b. wp (py_when (\<not> print_tag_mode) (if targets \<noteq> [] then log_info f xs else log_info g ys)) ?Q ?E) ?E w1"
    if o: "deps_first (b_configs b) order" "talk w [] w1" "same_files w w1" "\<forall>n \<in> set order. \<exists>conf. map_of (b_configs b) n = Some conf"
      "set targets \<subseteq> set order" "targets = [] \<longrightarrow> set order = fst ` set (b_configs b)"
      and print: "print_target = (if print_tag_mode then Some n else None)" for order w1 print_target f xs g ys
  proof (rule wp_mono [OF loop_succeeds [OF assms(2,3) o(1) assms(4) o(2,3)]], goal_cases)
    case 1
    with o(4) show ?case by blast
  next
    case (2 s w2)
    then obtain cs where cs: "loop_at R w b no_cache local_flag order s w2 cs" by blast
    have np: "\<not> print_tag_mode" using 2 assms(6) o(5) print by auto
    have "all_built R w b targets no_cache local_flag cs" "talk w cs w2" using o cs by (auto simp: all_built_def loop_at_def)
    with np show ?case by (auto simp: wp_when intro!: exI [of _ cs] talk_noise)
  next
    case (3 e w2)
    then obtain us m vs s cs where l: "e = SystemExit 0" "print_target = Some m" "order = us @ m # vs"
      "loop_at R w b no_cache local_flag (us @ [m]) s w2 cs" "printed_last s m w2" by blast
    have m: "print_tag_mode" "m = n" using l(2) print by (auto split: if_splits)
    have tag: "map_of (b_tags s) n = Some (tag_of s n)" using l(4) m(2) by (auto simp: loop_at_def have_tags_def tag_of_def)
    with l(4,5) deps_first_upto [of "b_configs b" us m vs] o(1) l(3) m(2)
    have "tag_printed R w b n no_cache local_flag cs (last (w_trace w2))" "talk w cs w2"
      unfolding tag_printed_def printed_last_def loop_at_def by blast+
    with l(1) m(1) show ?case by blast
  qed
  show ?thesis unfolding build_images_def wp_bind
  proof (rule wp_mono [OF build_order_succeeds [OF assms(1,2,5)]], goal_cases)
    case (1 order w1)
    have "(if print_tag_mode then of_opt IndexError (case targets of [] \<Rightarrow> None | t # _ \<Rightarrow> Some (Some t)) else py_ret None) =
        py_ret (if print_tag_mode then Some n else None)"
      using assms(6) by (auto simp: of_opt_def)
    with 1 rest show ?case by simp
  qed simp
qed

section \<open>The program\<close>

text \<open>The texts written to standard output.\<close>

fun stdout_of :: "event list \<Rightarrow> string list" where
  "stdout_of [] = []"
| "stdout_of (Stdout s # es) = s # stdout_of es"
| "stdout_of (_ # es) = stdout_of es"

lemma stdout_append [simp]: "stdout_of (xs @ ys) = stdout_of xs @ stdout_of ys"
  by (induction xs rule: stdout_of.induct) auto

definition not_stdout :: "event \<Rightarrow> bool" where
  "not_stdout e = (\<forall>s. e \<noteq> Stdout s)"

lemma stdout_none: "list_all not_stdout t = (stdout_of t = [])"
  by (induction t rule: stdout_of.induct) (auto simp: not_stdout_def)

interpretation mu: log_frame "adds not_stdout" not_stdout
  by unfold_locales (auto simp: not_stdout_def intro: adds_laws)

text \<open>Nothing is printed, except last and before an exit.\<close>

definition prints_at_exit :: "'a py \<Rightarrow> bool" where
  "prints_at_exit m = (\<forall>w. does m w (\<lambda>r _ t. stdout_of (case r of Ok _ \<Rightarrow> t | Exc _ \<Rightarrow> butlast t) = []))"

lemma stdout_butlast: "stdout_of t = [] \<Longrightarrow> stdout_of (butlast t) = []"
  unfolding stdout_none [symmetric] by (metis append_butlast_last_id butlast.simps(1) list_all_append)

lemma prints_at_exit_mute: "keeps (adds not_stdout) m \<Longrightarrow> prints_at_exit m"
  unfolding keeps_adds prints_at_exit_def stdout_none
  by (intro allI, drule spec, erule does_mono) (simp add: stdout_butlast split: result.split)

lemma prints_at_exit_bind:
  assumes "prints_at_exit m" "\<And>x. prints_at_exit (f x)"
  shows "prints_at_exit (py_bind m f)"
  unfolding prints_at_exit_def
proof (intro allI does_bind)
  fix w
  show "does m w (\<lambda>r w1 t. case r of
      Ok x \<Rightarrow> does (f x) w1 (\<lambda>r2 w2 u. stdout_of (case r2 of Ok _ \<Rightarrow> t @ u | Exc _ \<Rightarrow> butlast (t @ u)) = [])
    | Exc e \<Rightarrow> stdout_of (case Exc e of Ok _ \<Rightarrow> t | Exc _ \<Rightarrow> butlast t) = [])"
    using assms unfolding prints_at_exit_def
    by (elim allE [of _ w] does_mono)
      (auto split: result.splits intro!: does_mono [OF spec [OF assms(2) [unfolded prints_at_exit_def]]]
        simp: butlast_append stdout_butlast)
qed

lemma prints_at_exit_fold: "(\<And>x s. prints_at_exit (f x s)) \<Longrightarrow> prints_at_exit (py_fold f xs s)"
  by (induction xs arbitrary: s) (auto intro!: prints_at_exit_bind prints_at_exit_mute [OF mu.frame_basic(1)])

lemma prints_at_exit_print: "prints_at_exit (py_seq (py_print s) (sys_exit n))"
  unfolding prints_at_exit_def py_seq_def by (auto intro!: does_bind)

lemma prints_at_exit_manage:
  "prints_at_exit k \<Longrightarrow> prints_at_exit (py_seq (manage_docker_image tag df args ctx local_image_mode no_cache repo) k)"
  unfolding py_seq_def by (rule prints_at_exit_bind [OF prints_at_exit_mute [OF mu.frame_manage]]) (simp_all add: not_stdout_def)

lemma build_images_prints_at_exit: "prints_at_exit (build_images R b targets print_tag_mode no_cache local_flag)"
proof -
  note mute = prints_at_exit_mute [OF mu.frame_calculate_tag] prints_at_exit_mute [OF mu.frame_find_dockerfile]
    prints_at_exit_mute [OF mu.frame_dependency_args] mu.frame_basic [THEN prints_at_exit_mute]
    prints_at_exit_mute [OF mu.frame_seq [OF mu.frame_log(3) mu.frame_basic(3)]]
  have "prints_at_exit (process_image R no_cache local_flag print_target n b)" for print_target n b
    unfolding process_image_def Let_def os_realpath_def
    by (auto intro!: prints_at_exit_bind prints_at_exit_manage prints_at_exit_print mute
        split: option.split)
  then show ?thesis unfolding build_images_def
    by (auto intro!: prints_at_exit_bind prints_at_exit_fold prints_at_exit_mute [OF mu.frame_build_order]
        mute prints_at_exit_mute [OF mu.frame_when] mu.log_rules)
qed

section \<open>The preparations\<close>

text \<open>The part of the program between the opening of the log file and the images, which prints nothing and leaves the files
  alone.\<close>

definition calm_start :: "world \<Rightarrow> world \<Rightarrow> bool" where
  "calm_start w w' = (adds not_stdout w w' \<and> same_files w w')"

interpretation cs: log_frame calm_start not_stdout
  by unfold_locales (auto simp: calm_start_def not_stdout_def intro: adds_laws same_files_trans)

definition build_prepare :: "runtime \<Rightarrow> namespace \<Rightarrow> builder py" where
  "build_prepare R args =
     py_seq (check_docker_installed (arg_value args ''log_file''))
     (py_seq (check_docker_buildx_installed (arg_value args ''log_file''))
     (py_bind (DockerBuilder R (path_of (arg_default args ''config'' [])) (map path_of (arg_list args ''search_path''))) (\<lambda>b.
      py_seq (check_targets (map fst (b_configs b)) (arg_flag args ''print_tag'') (arg_list args ''target_images'')) (py_ret b))))"

text \<open>Opening the log file touches the files only, and does not look at the environment set before.\<close>

lemma basic_config_opens:
  assumes "basic_config f w = (Ok (), w0)"
  obtains fs where "w0 = w\<lparr>w_fs := fs\<rparr>" "basic_config f (w\<lparr>w_environ := en\<rparr>) = (Ok (), w0\<lparr>w_environ := en\<rparr>)"
  using assms that [of "w_fs w"] that
  by (auto simp: basic_config_def write_file_def py_ret_def split: option.splits sum.splits)

lemma ensure_environ: "\<exists>en. ensure_cloudsdk_python_is_set w = (Ok (), w\<lparr>w_environ := en\<rparr>)"
  by (auto simp: ensure_cloudsdk_python_is_set_def py_simps os_path_exists_def setenv_def intro: exI [of _ "w_environ w"]
      split: option.split sum.split)

lemma build_main_eq:
  assumes "parse_known build_parser argv = Parsed args []" "basic_config (arg_value args ''log_file'') w = (Ok (), w0)"
  obtains v where "calm_start w0 v" "w_trace v = w_trace w" "w_proc v = w_proc w" "w_trace w0 = w_trace w" "w_proc w0 = w_proc w"
    "build_main R argv w = py_bind (build_prepare R args) (\<lambda>b. build_images R b (arg_list args ''target_images'')
       (arg_flag args ''print_tag'') (arg_flag args ''no_cache'') (arg_flag args ''local'')) v"
proof -
  obtain en where en: "ensure_cloudsdk_python_is_set w = (Ok (), w\<lparr>w_environ := en\<rparr>)" using ensure_environ by blast
  obtain fs where fs: "w0 = w\<lparr>w_fs := fs\<rparr>"
    "basic_config (arg_value args ''log_file'') (w\<lparr>w_environ := en\<rparr>) = (Ok (), w0\<lparr>w_environ := en\<rparr>)"
    using basic_config_opens [OF assms(2)] .
  show ?thesis
  proof (rule that [of "w0\<lparr>w_environ := en\<rparr>"])
    show "calm_start w0 (w0\<lparr>w_environ := en\<rparr>)" by (simp add: calm_start_def adds_def same_files_def)
    show "build_main R argv w = py_bind (build_prepare R args) (\<lambda>b. build_images R b (arg_list args ''target_images'')
        (arg_flag args ''print_tag'') (arg_flag args ''no_cache'') (arg_flag args ''local'')) (w0\<lparr>w_environ := en\<rparr>)"
      unfolding build_main_def build_prepare_def parse_args_def parse_known_args_def assms(1)
      by (simp add: Let_def py_seq_def py_bind_assoc py_bind_Ok [where m = ensure_cloudsdk_python_is_set, OF en]
          py_bind_Ok [where m = "basic_config _", OF fs(2)])
  qed (simp_all add: fs(1))
qed

lemma calm_prepare: "keeps calm_start (build_prepare R args)"
  unfolding build_prepare_def check_docker_installed_def check_docker_buildx_installed_def
  by (auto intro!: cs.log_rules cs.frame_builder cs.frame_targets cs.frame_tool simp: not_stdout_def)

lemma tool_succeeds:
  assumes "serves w" "vital cmd"
  shows "wp (check_tool cmd ok_msg error_msg log_file) (\<lambda>_ w'. serves w' \<and> same_files w w') E w"
proof -
  obtain out err where "w_proc w (w_trace w) cmd = Exited 0 out err" using assms unfolding serves_def by metis
  then show ?thesis using assms(1) by (simp add: check_tool_def run_checked_def wp_simps serves_def)
qed

lemma targets_succeed:
  assumes "set targets \<subseteq> set names" "print_tag \<Longrightarrow> \<exists>n. targets = [n]"
  shows "wp (check_targets names print_tag targets) (\<lambda>_ w'. w' = w) E w"
proof (cases print_tag)
  case True
  with assms show ?thesis by (auto simp: check_targets_def wp_when)
next
  case False
  have "wp (py_for targets (\<lambda>ti. py_when (ti \<notin> set names) (m ti))) (\<lambda>_ w'. w' = w) E w" for m
    by (rule wp_for [where Inv = "\<lambda>_ w'. w' = w"]) (use assms(1) in \<open>auto simp: wp_when\<close>)
  with False show ?thesis by (simp add: check_targets_def)
qed

lemma prepare_succeeds:
  assumes "serves w" "fst (DockerBuilder R (path_of (arg_default args ''config'' [])) (map path_of (arg_list args ''search_path'')) w) = Ok b"
    and "set (arg_list args ''target_images'') \<subseteq> fst ` set (b_configs b)"
    and "arg_flag args ''print_tag'' \<Longrightarrow> \<exists>n. arg_list args ''target_images'' = [n]"
  shows "wp (build_prepare R args) (\<lambda>b' _. b' = b) E w"
proof -
  let ?D = "DockerBuilder R (path_of (arg_default args ''config'' [])) (map path_of (arg_list args ''search_path''))"
  have load: "wp ?D (\<lambda>b' _. b' = b) E w'" if "same_files w w'" for w'
    using reads_onlyD [OF reads_builder that, of R] assms(2) by (auto simp: wp_def split: prod.split result.split) (metis fst_conv result.inject(1) result.distinct(1))+
  have vital: "vital [''docker'', ''--version'']" "vital [''docker'', ''buildx'', ''version'']" by (simp_all add: vital_def)
  show ?thesis unfolding build_prepare_def check_docker_installed_def check_docker_buildx_installed_def wp_seq wp_bind wp_ret
  proof (rule wp_mono [OF tool_succeeds [OF assms(1) vital(1)]], elim conjE,
      rule wp_mono [OF tool_succeeds [OF _ vital(2)]], assumption, elim conjE, rule wp_mono [OF load], goal_cases)
    case (1 x w1 y w2)
    then show ?case by (blast intro: same_files_trans)
  next
    case (2 x w1 y w2 b' w3)
    with assms(3,4) show ?case by (intro wp_mono [OF targets_succeed]) auto
  qed
qed

text \<open>A builder just loaded has no tags yet.\<close>

lemma builder_no_tags:
  assumes "fst (DockerBuilder R config_path search_paths w) = Ok b"
  shows "b_tags b = []"
proof -
  have "wp (load_config R (new_builder config_path search_paths)) (\<lambda>b _. b_tags b = []) (\<lambda>_ _. True) w"
    unfolding load_config_def
    by (auto simp: new_builder_def lift_probe_wp wp_simps json_load_def wp_read_file split: sum.split option.split result.split)
      (simp add: wp_def py_ret_def split: prod.split result.split)
  then show ?thesis using assms
    by (auto simp: DockerBuilder_def wp_def py_bind_def py_ret_def split: prod.splits result.splits)
qed

lemma same_files_done:
  assumes "same_files w w1"
  shows "images_done R w1 b = images_done R w b" "buildable w1 b = buildable w b"
proof -
  have f: "w_fs w1 = w_fs w" "w_cwd w1 = w_cwd w" "dockerfile_of w1 = dockerfile_of w"
    using assms same_files_eqs(2) [OF assms] by (simp_all add: same_files_def)
  have "image_command w1 b = image_command w b" unfolding fun_eq_iff image_command_def f by simp
  then have "image_step w1 b = image_step w b" unfolding fun_eq_iff image_step_def by simp
  then show "images_done R w1 b = images_done R w b"
    unfolding fun_eq_iff images_done_def tags_for_def same_files_eqs(3) [OF assms] by simp
  show "buildable w1 b = buildable w b" unfolding buildable_def same_files_eqs(1) [OF assms] by simp
qed

definition build_of :: "runtime \<Rightarrow> namespace \<Rightarrow> builder \<Rightarrow> unit py" where
  "build_of R args b = build_images R b (arg_list args ''target_images'') (arg_flag args ''print_tag'') (arg_flag args ''no_cache'')
     (arg_flag args ''local'')"

lemma build_main_wp:
  assumes ok: "enumerates (rt_set_order R)" "serves w" "buildable w0 b"
    and args: "parse_known build_parser argv = Parsed args []" "basic_config (arg_value args ''log_file'') w = (Ok (), w0)"
      "fst (DockerBuilder R (path_of (arg_default args ''config'' [])) (map path_of (arg_list args ''search_path'')) w0) = Ok b"
      "set (arg_list args ''target_images'') \<subseteq> fst ` set (b_configs b)"
      "arg_flag args ''print_tag'' \<Longrightarrow> arg_list args ''target_images'' = [n]"
  obtains w1 where "calm_start w0 w1" "w_trace w0 = w_trace w" "w_proc w0 = w_proc w"
    "build_main R argv w = build_of R args b w1" "wp (build_of R args b)
    (\<lambda>_ w'. \<not> arg_flag args ''print_tag'' \<and>
       (\<exists>cs. talk w1 cs w' \<and> all_built R w0 b (arg_list args ''target_images'') (arg_flag args ''no_cache'') (arg_flag args ''local'') cs))
    (\<lambda>e w'. arg_flag args ''print_tag'' \<and> e = SystemExit 0 \<and>
       (\<exists>cs. talk w1 cs w' \<and> tag_printed R w0 b n (arg_flag args ''no_cache'') (arg_flag args ''local'') cs (last (w_trace w')))) w1"
proof -
  have one: "arg_flag args ''print_tag'' \<Longrightarrow> \<exists>n. arg_list args ''target_images'' = [n]" using args(5) by blast
  obtain v where v: "calm_start w0 v" "w_trace v = w_trace w" "w_proc v = w_proc w" "w_trace w0 = w_trace w" "w_proc w0 = w_proc w"
    "build_main R argv w = py_bind (build_prepare R args) (build_of R args) v"
    using build_main_eq [OF args(1,2), of R] unfolding build_of_def by blast
  have served: "serves v" using ok(2) v(3) by (simp add: serves_def)
  have "same_files w0 v" using v(1) by (simp add: calm_start_def)
  with reads_onlyD [OF reads_builder this, of R] args(3)
  have load: "fst (DockerBuilder R (path_of (arg_default args ''config'' [])) (map path_of (arg_list args ''search_path'')) v) = Ok b"
    by simp
  obtain w1 where w1: "build_prepare R args v = (Ok b, w1)"
    using prepare_succeeds [OF served load args(4) one, of "\<lambda>_ _. False"] by (auto simp: wp_def split: prod.splits result.splits)
  have calm: "calm_start w0 w1" using cs.frame_trans [OF v(1) keepsD [OF calm_prepare w1]] .
  then have files: "same_files w0 w1" and served: "serves w1" using ok(2) v(5)
    by (auto simp: calm_start_def adds_def same_outside_def serves_def)
  have eq: "build_main R argv w = build_of R args b w1" unfolding v(6) using w1 by (simp add: py_bind_Ok)
  note sf = same_files_done [OF files]
  have b: "buildable w1 b" using ok(3) sf(2) by simp
  show ?thesis
    by (rule that [OF calm v(4,5) eq], unfold build_of_def)
      (use build_images_succeeds [OF ok(1) b served builder_no_tags [OF args(3)] args(4,5)] in
        \<open>simp only: all_built_def tag_printed_def sf(1)\<close>)
qed

text \<open>The trace of the program, from its beginning.\<close>

lemma build_trace:
  assumes "calm_start w w1" "talk w1 cs w'" "build_of R args b w1 = (r, w')"
  obtains u t where "w_trace w' = w_trace w @ u @ t" "stdout_of u = []" "replies (w_proc w) (w_trace w) (u @ t) = replies (w_proc w) (w_trace w) u @ cs"
    "stdout_of (case r of Ok _ \<Rightarrow> t | Exc _ \<Rightarrow> butlast t) = []"
proof -
  from assms(1) obtain u where u: "w_trace w1 = w_trace w @ u" "stdout_of u = []" "w_proc w1 = w_proc w"
    by (auto simp: calm_start_def adds_def same_outside_def stdout_none)
  have "does (build_of R args b) w1 (\<lambda>r _ t. stdout_of (case r of Ok _ \<Rightarrow> t | Exc _ \<Rightarrow> butlast t) = [])"
    using build_images_prints_at_exit unfolding prints_at_exit_def build_of_def by blast
  then obtain t where t: "w_trace w' = w_trace w1 @ t" "stdout_of (case r of Ok _ \<Rightarrow> t | Exc _ \<Rightarrow> butlast t) = []"
    using assms(3) by (rule doesD)
  have "replies (w_proc w1) (w_trace w1) t = cs" using assms(2) t(1) by (auto simp: talk_def)
  with u t that [of u t] show ?thesis by simp
qed

lemma available_mono: "available w b T no_cache cs n \<Longrightarrow> available w b T no_cache (ds @ cs) n"
  by (auto simp: available_def)

text \<open>
  C8. The program provides the images. If its arguments are in order and name configured images, the log file (if one is
  given) can be opened, the configuration loaded can be built, and every command can be started, with docker and its plug-in
  installed and every build and pull successful, then \<open>docker/build.py\<close> ends normally and writes nothing to its
  standard output; it has processed the targets and all they depend on (every image when there are no targets), each
  after its dependencies, and each is available under its content-addressed tag: docker has said that it has it, has
  pulled it, or has built it with the command of that image.
\<close>
theorem build_main_provides_images:
  assumes "enumerates (rt_set_order R)" "serves w" "buildable w0 b"
    and "parse_known build_parser argv = Parsed args []" "basic_config (arg_value args ''log_file'') w = (Ok (), w0)"
    and "fst (DockerBuilder R (path_of (arg_default args ''config'' [])) (map path_of (arg_list args ''search_path'')) w0) = Ok b"
    and "set (arg_list args ''target_images'') \<subseteq> fst ` set (b_configs b)" "\<not> arg_flag args ''print_tag''"
  shows "\<exists>w' t order T. build_main R argv w = (Ok (), w') \<and> w_trace w' = w_trace w @ t \<and> stdout_of t = [] \<and>
    deps_first (b_configs b) order \<and> set (arg_list args ''target_images'') \<subseteq> set order \<and>
    (arg_list args ''target_images'' = [] \<longrightarrow> set order = fst ` set (b_configs b)) \<and> tags_for R w0 b order T \<and>
    (\<forall>n \<in> set order. available w0 b T (arg_flag args ''no_cache'') (replies (w_proc w) (w_trace w) t) n)"
proof -
  let ?targets = "arg_list args ''target_images''" and ?nc = "arg_flag args ''no_cache''" and ?lf = "arg_flag args ''local''"
  obtain w1 where w1: "calm_start w0 w1" "w_trace w0 = w_trace w" "w_proc w0 = w_proc w" "build_main R argv w = build_of R args b w1" "wp (build_of R args b)
      (\<lambda>_ w'. \<exists>cs. talk w1 cs w' \<and> all_built R w0 b ?targets ?nc ?lf cs) (\<lambda>_ _. False) w1"
    using build_main_wp [OF assms(1-7), of "[]"] assms(8) by auto
  then obtain w' cs where run: "build_of R args b w1 = (Ok (), w')" "talk w1 cs w'" "all_built R w0 b ?targets ?nc ?lf cs"
    by (auto simp: wp_def split: prod.splits result.splits)
  from run(3) obtain order T where T: "deps_first (b_configs b) order" "set ?targets \<subseteq> set order"
    "?targets = [] \<longrightarrow> set order = fst ` set (b_configs b)" "images_done R w0 b ?nc ?lf order T cs" unfolding all_built_def by blast
  obtain u t where t: "w_trace w' = w_trace w @ u @ t" "stdout_of (u @ t) = []"
    "replies (w_proc w) (w_trace w) (u @ t) = replies (w_proc w) (w_trace w) u @ cs"
    by (rule build_trace [OF w1(1) run(2,1)]) (rule that, simp_all add: w1(2,3))
  have "\<forall>n \<in> set order. available w0 b T ?nc (replies (w_proc w) (w_trace w) (u @ t)) n"
    unfolding t(3) using images_available [OF T(4)] available_mono by blast
  moreover have "tags_for R w0 b order T" using T(4) by (simp add: images_done_def)
  ultimately show ?thesis using w1(4) run(1) T(1-3) t(1,2)
    by (intro exI [of _ w'] exI [of _ "u @ t"] exI [of _ order] exI [of _ T]) simp
qed

text \<open>A project with two images, on a host where every command succeeds.\<close>

definition two_project :: world where
  "two_project = world_of (FDir [(''i'', FDir [(''a.Dockerfile'', FFile ''A''), (''b.Dockerfile'', FFile ''B''),
     (''deps.json'', FFile ''{\"b\":{\"deps\":{\"X\":\"a\"}},\"a\":{\"deps\":{}}}'')])]) [] (\<lambda>_ _. Exited 0 [] [])"

text \<open>The same project after the log file was created.\<close>

definition logged_project :: world where
  "logged_project = snd (basic_config (Some ''/l'') two_project)"

lemma logged_project_ok:
  "basic_config (Some ''/l'') two_project = (Ok (), logged_project)" "buildable logged_project two_builder"
  "fst (DockerBuilder (plain_runtime id) (path_of ''/c'') (map path_of [''/i'']) logged_project) = Ok two_builder"
proof -
  have "fst (basic_config (Some ''/l'') two_project) = Ok ()" by code_simp
  then show "basic_config (Some ''/l'') two_project = (Ok (), logged_project)" unfolding logged_project_def by (metis prod.collapse)
  show "buildable logged_project two_builder" by (rule two_builder_buildable) code_simp+
  show "fst (DockerBuilder (plain_runtime id) (path_of ''/c'') (map path_of [''/i'']) logged_project) = Ok two_builder" by code_simp
qed

lemma two_project_start: "w_trace two_project = []" "serves two_project"
  by (simp_all add: serves_def two_project_def world_of_def)

theorem build_main_provides_images_witness:
  "\<exists>w' order T. build_main (plain_runtime id) [''--config'', ''/c'', ''--search-path'', ''/i'', ''--log-file'', ''/l'', ''b''] two_project =
       (Ok (), w') \<and> stdout_of (w_trace w') = [] \<and>
     ''b'' \<in> set order \<and> deps_first (b_configs two_builder) order \<and>
     (\<forall>n \<in> set order. available logged_project two_builder T False (replies (w_proc two_project) [] (w_trace w')) n)"
proof -
  let ?args = "[(''config'', [''/c'']), (''search_path'', [''/i'']), (''log_file'', [''/l'']), (''target_images'', [''b''])]"
  have parsed: "parse_known build_parser [''--config'', ''/c'', ''--search-path'', ''/i'', ''--log-file'', ''/l'', ''b''] = Parsed ?args []"
    by code_simp
  have log: "basic_config (arg_value ?args ''log_file'') two_project = (Ok (), logged_project)"
    using logged_project_ok(1) by (simp add: arg_value_def)
  have load: "fst (DockerBuilder (plain_runtime id) (path_of (arg_default ?args ''config'' [])) (map path_of (arg_list ?args ''search_path''))
      logged_project) = Ok two_builder"
    using logged_project_ok(3) by (simp add: arg_default_def arg_value_def arg_list_def)
  show ?thesis
    using build_main_provides_images [OF two_builder_ok(1) two_project_start(2) logged_project_ok(2) parsed log load] two_project_start(1)
    by (auto simp: arg_list_def arg_flag_def two_builder_def new_builder_def)
qed

lemma protocol_talks: "\<not> image_protocol tag cmd remote no_cache [] r"
  by (auto elim: image_protocol.cases)

lemma images_done_talk: "images_done R w0 b no_cache local_flag (us @ [n]) T cs \<Longrightarrow> cs \<noteq> []"
  using protocol_talks by (fastforce simp: images_done_def image_step_def list_all2_append1 list_all2_Cons1)

text \<open>
  C9. Asked for the tag of one configured image with \<open>--print-tag\<close>, under the same conditions (the log file, if one is
  given, can be opened, the configuration loaded can be built, commands can be started and builds and pulls succeed), the
  program exits with status 0 and has written exactly one line to its standard output: the content-addressed tag of that
  image. By then the image and all it depends on are available.
\<close>
theorem build_main_prints_tag:
  assumes "enumerates (rt_set_order R)" "serves w" "buildable w0 b"
    and "parse_known build_parser argv = Parsed args []" "basic_config (arg_value args ''log_file'') w = (Ok (), w0)"
    and "fst (DockerBuilder R (path_of (arg_default args ''config'' [])) (map path_of (arg_list args ''search_path'')) w0) = Ok b"
    and "arg_flag args ''print_tag''" "arg_list args ''target_images'' = [n]" "n \<in> fst ` set (b_configs b)"
  shows "\<exists>w' t us T tag. build_main R argv w = (Exc (SystemExit 0), w') \<and> w_trace w' = w_trace w @ t \<and>
    stdout_of t = [tag @ [CHR 0x0A]] \<and> T n = Some tag \<and> deps_first (b_configs b) (us @ [n]) \<and> tags_for R w0 b (us @ [n]) T \<and>
    (\<forall>m \<in> set (us @ [n]). available w0 b T (arg_flag args ''no_cache'') (replies (w_proc w) (w_trace w) t) m)"
proof -
  let ?nc = "arg_flag args ''no_cache''" and ?lf = "arg_flag args ''local''"
  have targets: "set (arg_list args ''target_images'') \<subseteq> fst ` set (b_configs b)" using assms(8,9) by simp
  obtain w1 where w1: "calm_start w0 w1" "w_trace w0 = w_trace w" "w_proc w0 = w_proc w" "build_main R argv w = build_of R args b w1" "wp (build_of R args b) (\<lambda>_ _. False)
      (\<lambda>e w'. e = SystemExit 0 \<and> (\<exists>cs. talk w1 cs w' \<and> tag_printed R w0 b n ?nc ?lf cs (last (w_trace w')))) w1"
    using build_main_wp [OF assms(1-6) targets assms(8)] assms(7) by auto
  then obtain w' cs where run: "build_of R args b w1 = (Exc (SystemExit 0), w')" "talk w1 cs w'" "tag_printed R w0 b n ?nc ?lf cs (last (w_trace w'))"
    by (auto simp: wp_def split: prod.splits result.splits)
  from run(3) obtain us T tag where T: "deps_first (b_configs b) (us @ [n])" "images_done R w0 b ?nc ?lf (us @ [n]) T cs"
    "T n = Some tag" "last (w_trace w') = Stdout (tag @ [CHR 0x0A])" unfolding tag_printed_def by blast
  obtain u t where t: "w_trace w' = w_trace w @ u @ t" "stdout_of u = []" "stdout_of (butlast t) = []"
    "replies (w_proc w) (w_trace w) (u @ t) = replies (w_proc w) (w_trace w) u @ cs"
    by (rule build_trace [OF w1(1) run(2,1)]) (rule that, simp_all add: w1(2,3))
  have "t \<noteq> []" using t(4) images_done_talk [OF T(2)] by auto
  then have "t = butlast t @ [Stdout (tag @ [CHR 0x0A])]" using T(4) t(1) by (metis append_butlast_last_id last_appendR append_is_Nil_conv)
  then have "stdout_of (u @ t) = [tag @ [CHR 0x0A]]" using t(2,3)
    by (metis append_Nil stdout_append stdout_of.simps(1,2))
  moreover have "\<forall>m \<in> set (us @ [n]). available w0 b T ?nc (replies (w_proc w) (w_trace w) (u @ t)) m"
    unfolding t(4) using images_available [OF T(2)] available_mono by blast
  moreover have "tags_for R w0 b (us @ [n]) T" using T(2) by (simp add: images_done_def)
  ultimately show ?thesis using w1(4) run(1) T(1,3) t(1)
    by (intro exI [of _ w'] exI [of _ "u @ t"] exI [of _ us] exI [of _ T] exI [of _ tag]) simp
qed

theorem build_main_prints_tag_witness:
  "\<exists>w' us T tag. build_main (plain_runtime id)
       [''--config'', ''/c'', ''--search-path'', ''/i'', ''--log-file'', ''/l'', ''--print-tag'', ''b''] two_project = (Exc (SystemExit 0), w') \<and>
     stdout_of (w_trace w') = [tag @ [CHR 0x0A]] \<and> T ''b'' = Some tag \<and> tags_for (plain_runtime id) logged_project two_builder (us @ [''b'']) T"
proof -
  let ?args = "[(''config'', [''/c'']), (''search_path'', [''/i'']), (''log_file'', [''/l'']), (''print_tag'', []), (''target_images'', [''b''])]"
  have parsed: "parse_known build_parser
      [''--config'', ''/c'', ''--search-path'', ''/i'', ''--log-file'', ''/l'', ''--print-tag'', ''b''] = Parsed ?args []"
    by code_simp
  have log: "basic_config (arg_value ?args ''log_file'') two_project = (Ok (), logged_project)"
    using logged_project_ok(1) by (simp add: arg_value_def)
  have load: "fst (DockerBuilder (plain_runtime id) (path_of (arg_default ?args ''config'' [])) (map path_of (arg_list ?args ''search_path''))
      logged_project) = Ok two_builder"
    using logged_project_ok(3) by (simp add: arg_default_def arg_value_def arg_list_def)
  show ?thesis
    using build_main_prints_tag [OF two_builder_ok(1) two_project_start(2) logged_project_ok(2) parsed log load, of "''b''"] two_project_start(1)
    by (auto simp: arg_list_def arg_flag_def two_builder_def new_builder_def)
qed

end
