(* ===== verification/Py_Regex.thy ===== *)
theory Py_Regex
  imports Devkit_Prelude
begin

text \<open>
  Python's \<open>re\<close>, as far as the scripts use it: a backtracking matcher that lists the ways to match a
  prefix of a string, in the order in which Python tries them, with the texts of the groups. The
  result of \<open>re.match\<close> is the first of them.
\<close>

datatype regex =
    RChar "char \<Rightarrow> bool"
  | RSeq regex regex
  | ROpt regex            \<comment> \<open>\<open>(?:r)?\<close>\<close>
  | RStar "char \<Rightarrow> bool"  \<comment> \<open>a class under \<open>*\<close>\<close>
  | RRep nat "char \<Rightarrow> bool"  \<comment> \<open>a class under \<open>{n}\<close>\<close>
  | RGroup regex
  | REnd                  \<comment> \<open>\<open>$\<close>, also before a final newline\<close>

text \<open>The splits of \<open>s\<close> after a part in the class, the longest part first.\<close>

fun star_splits :: "(char \<Rightarrow> bool) \<Rightarrow> string \<Rightarrow> string list" where
  "star_splits p [] = [[]]"
| "star_splits p (c # cs) = (if p c then star_splits p cs @ [c # cs] else [c # cs])"

fun all_matches :: "regex \<Rightarrow> string \<Rightarrow> (string list \<times> string) list" where
  "all_matches (RChar p) s = (case s of c # cs \<Rightarrow> if p c then [([], cs)] else [] | [] \<Rightarrow> [])"
| "all_matches (RSeq a b) s =
     concat (map (\<lambda>(g, r). map (\<lambda>(h, q). (g @ h, q)) (all_matches b r)) (all_matches a s))"
| "all_matches (ROpt a) s = all_matches a s @ [([], s)]"
| "all_matches (RStar p) s = map (Pair []) (star_splits p s)"
| "all_matches (RRep n p) s = (if n \<le> length s \<and> list_all p (take n s) then [([], drop n s)] else [])"
| "all_matches (RGroup a) s = map (\<lambda>(g, r). (take (length s - length r) s # g, r)) (all_matches a s)"
| "all_matches REnd s = (if s = [] \<or> s = [CHR 0x0A] then [([], s)] else [])"

definition re_match :: "regex \<Rightarrow> string \<Rightarrow> string list option" where
  "re_match a s = (case all_matches a s of [] \<Rightarrow> None | (g, _) # _ \<Rightarrow> Some g)"

fun RLit :: "string \<Rightarrow> regex \<Rightarrow> regex" where
  "RLit [] a = a"
| "RLit (c # cs) a = RSeq (RChar (\<lambda>d. d = c)) (RLit cs a)"

definition RPlus :: "(char \<Rightarrow> bool) \<Rightarrow> regex" where
  "RPlus p = RSeq (RChar p) (RStar p)"

text \<open>\<open>.\<close> is every character but a newline.\<close>

definition re_dot :: "char \<Rightarrow> bool" where
  "re_dot c = (c \<noteq> CHR 0x0A)"

section \<open>What the matcher finds\<close>

lemma star_splits_iff: "r \<in> set (star_splits p s) \<longleftrightarrow> (\<exists>u. s = u @ r \<and> list_all p u)"
proof (induction s)
  case (Cons c cs)
  show ?case
  proof (cases "r = c # cs")
    case True
    then show ?thesis by (auto intro: exI [of _ "[]"])
  next
    case False
    then have "(\<exists>u. c # cs = u @ r \<and> list_all p u) \<longleftrightarrow> p c \<and> (\<exists>u. cs = u @ r \<and> list_all p u)"
      by (auto simp: Cons_eq_append_conv)
    with Cons False show ?thesis by auto
  qed
qed auto

lemma match_char: "(g, r) \<in> set (all_matches (RChar p) s) \<longleftrightarrow> g = [] \<and> (\<exists>c. s = c # r \<and> p c)"
  by (auto split: list.splits)

lemma match_seq: "(g, r) \<in> set (all_matches (RSeq a b) s) \<longleftrightarrow>
    (\<exists>h k q. (h, q) \<in> set (all_matches a s) \<and> (k, r) \<in> set (all_matches b q) \<and> g = h @ k)"
  by force

lemma match_opt: "(g, r) \<in> set (all_matches (ROpt a) s) \<longleftrightarrow> (g, r) \<in> set (all_matches a s) \<or> g = [] \<and> r = s"
  by auto

lemma match_star: "(g, r) \<in> set (all_matches (RStar p) s) \<longleftrightarrow> g = [] \<and> (\<exists>u. s = u @ r \<and> list_all p u)"
  by (auto simp: star_splits_iff)

lemma match_rep: "(g, r) \<in> set (all_matches (RRep n p) s) \<longleftrightarrow> g = [] \<and> (\<exists>u. s = u @ r \<and> length u = n \<and> list_all p u)"
  by (auto intro: exI [of _ "take n s"])

lemma match_end: "(g, r) \<in> set (all_matches REnd s) \<longleftrightarrow> g = [] \<and> r = s \<and> (s = [] \<or> s = [CHR 0x0A])"
  by auto

text \<open>Every match is of a prefix.\<close>

lemma match_suffix: "(g, r) \<in> set (all_matches a s) \<Longrightarrow> \<exists>u. s = u @ r"
proof (induction a arbitrary: s g r)
  case (RSeq a b)
  then obtain h k q where "(h, q) \<in> set (all_matches a s)" "(k, r) \<in> set (all_matches b q)"
    unfolding match_seq by blast
  with RSeq.IH(1) [of h q s] RSeq.IH(2) [of k r q] show ?case by auto
next
  case (ROpt a)
  then show ?case unfolding match_opt by (metis append_Nil)
next
  case (RGroup a)
  then show ?case by fastforce
next
  case (RRep n p)
  then show ?case unfolding match_rep by blast
qed (auto simp: star_splits_iff split: list.splits if_splits)

lemma match_group: "(g, r) \<in> set (all_matches (RGroup a) s) \<longleftrightarrow>
    (\<exists>u h. s = u @ r \<and> g = u # h \<and> (h, r) \<in> set (all_matches a s))"
proof
  assume "(g, r) \<in> set (all_matches (RGroup a) s)"
  then obtain h where h: "g = take (length s - length r) s # h" "(h, r) \<in> set (all_matches a s)" by auto
  from match_suffix [OF h(2)] obtain u where "s = u @ r" ..
  with h show "\<exists>u h. s = u @ r \<and> g = u # h \<and> (h, r) \<in> set (all_matches a s)" by auto
next
  assume "\<exists>u h. s = u @ r \<and> g = u # h \<and> (h, r) \<in> set (all_matches a s)"
  then show "(g, r) \<in> set (all_matches (RGroup a) s)" by force
qed

lemma match_lit: "(g, r) \<in> set (all_matches (RLit l a) s) \<longleftrightarrow> (\<exists>q. s = l @ q \<and> (g, r) \<in> set (all_matches a q))"
proof (induction l arbitrary: s)
  case (Cons c l)
  then show ?case by (auto simp: match_seq match_char simp del: all_matches.simps)
qed simp

lemma match_plus: "(g, r) \<in> set (all_matches (RPlus p) s) \<longleftrightarrow> g = [] \<and> (\<exists>u. s = u @ r \<and> u \<noteq> [] \<and> list_all p u)"
  unfolding RPlus_def
  by (auto simp: match_seq match_char match_star neq_Nil_conv simp del: all_matches.simps)

lemma re_match_SomeD: "re_match a s = Some g \<Longrightarrow> \<exists>r. (g, r) \<in> set (all_matches a s)"
  by (auto simp: re_match_def split: list.splits)

lemma re_match_None: "re_match a s = None \<longleftrightarrow> set (all_matches a s) = {}"
  by (auto simp: re_match_def split: list.splits)

lemmas match_rules = match_char match_seq match_opt match_star match_rep match_end match_group match_lit match_plus

end
