(* ===== verification/Docker_Cleanup.thy ===== *)
theory Docker_Cleanup
  imports Docker_Build_Images Py_Regex Py_Argparse
begin

text \<open>
  \<open>.devkit/scripts/docker_cleanup.py\<close>: removal of old docker images, in a background thread or as
  a program. The cancel event is polled by \<open>poll_cancel\<close>; whether a started \<open>docker rmi\<close> is still
  running is told by the parameter \<open>busy\<close> from what happened so far, and the number of times the
  loop looks at it is bounded by \<open>fuel\<close>.
\<close>

section \<open>Which images may be removed\<close>

definition INITIAL_CLEANUP_DELAY_SECONDS :: pyfloat where "INITIAL_CLEANUP_DELAY_SECONDS = Fin 5"
definition CLEANUP_INTERVAL_SECONDS :: pyfloat where "CLEANUP_INTERVAL_SECONDS = Fin 2"
definition CLEANUP_BATCH_SIZE :: int where "CLEANUP_BATCH_SIZE = 4"
definition CLEANUP_THRESHOLD_DAYS :: int where "CLEANUP_THRESHOLD_DAYS = 7"

definition ALLOWED_IMAGE_NAMES :: "string list" where
  "ALLOWED_IMAGE_NAMES =
     [''build-env'', ''build-env-debian'', ''build-env-rockylinux'', ''clion-ide'', ''dev-env'',
      ''gcloud-env'', ''goland-ide'', ''ide-env'', ''intellij-ide'', ''nitro-cli-linux6'',
      ''pycharm-ide'', ''tool-env'', ''vscode-ide'', ''vscode-server'']"

definition name_char :: "char \<Rightarrow> bool" where
  "name_char c = (c \<noteq> CHR ''/'' \<and> c \<noteq> CHR '':'')"

definition arch_char :: "char \<Rightarrow> bool" where
  "arch_char c = (is_lower c \<or> is_upper c \<or> is_digit c \<or> c = CHR ''_'')"

definition hash_char :: "char \<Rightarrow> bool" where
  "hash_char c = (is_digit c \<or> c \<in> set ''abcdef'')"

text \<open>\<open>^(?:.*/)?devkit(?:/.*)?/([^/:]+):([a-zA-Z0-9_]+)-([a-f0-9]{64})$\<close>\<close>

definition IMAGE_PATTERN :: regex where
  "IMAGE_PATTERN =
     RSeq (ROpt (RSeq (RStar re_dot) (RChar (\<lambda>c. c = CHR ''/''))))
     (RLit ''devkit''
     (RSeq (ROpt (RSeq (RChar (\<lambda>c. c = CHR ''/'')) (RStar re_dot)))
     (RLit ''/''
     (RSeq (RGroup (RPlus name_char))
     (RLit '':''
     (RSeq (RGroup (RPlus arch_char))
     (RLit ''-''
     (RSeq (RGroup (RRep 64 hash_char)) REnd))))))))"

section \<open>Finding them\<close>

definition get_ignored_images :: "runtime \<Rightarrow> path \<Rightarrow> path list \<Rightarrow> string list py" where
  "get_ignored_images R config_path search_paths =
     py_try
       (py_bind (get_all_docker_image_tags R config_path search_paths []) (\<lambda>ignored_images.
        py_seq (log_info ''Determined %d images to ignore during cleanup.'' [str_nat (length ignored_images)])
        (py_ret ignored_images)))
       is_Exception
       (\<lambda>e. py_seq (log_warning ''Failed to calculate ignored images for cleanup: %s'' [exn_str e]) (py_ret []))"

definition list_images_command :: "string \<Rightarrow> int \<Rightarrow> string list" where
  "list_images_command image_prefix threshold_days =
     [''docker'', ''images'', ''--filter'', ''reference='' @ image_prefix @ ''/*'',
      ''--filter'', ''until='' @ str_int (threshold_days * 24) @ ''h'',
      ''--format'', ''{{.Repository}}:{{.Tag}}'']"

definition get_images :: "string \<Rightarrow> int \<Rightarrow> string list py" where
  "get_images image_prefix threshold_days =
     py_try
       (py_bind (run_checked True (list_images_command image_prefix threshold_days)) (\<lambda>(out, err).
        py_ret (py_splitlines (py_strip out))))
       (\<lambda>e. is_CalledProcess e \<or> is_FileNotFound e)
       (\<lambda>e. py_seq (log_warning ''Failed to list docker images: %s'' [exn_str e]) (py_ret []))"

text \<open>\<open>match.group(1)\<close>\<close>

definition image_name :: "string \<Rightarrow> string option" where
  "image_name img = (case re_match IMAGE_PATTERN img of Some (n # _) \<Rightarrow> Some n | _ \<Rightarrow> None)"

definition filter_allowed_images :: "string list \<Rightarrow> string list py" where
  "filter_allowed_images images =
     py_fold (\<lambda>img allowed_images.
       case image_name img of
         Some n \<Rightarrow>
           if n \<in> set ALLOWED_IMAGE_NAMES then py_ret (allowed_images @ [img])
           else py_seq (log_info ''Skipping image %s as it is not in the allowlist.'' [img]) (py_ret allowed_images)
       | None \<Rightarrow>
           py_seq (log_info ''Skipping image %s as it does not match the expected format.'' [img]) (py_ret allowed_images))
     images []"

definition get_images_to_cleanup :: "runtime \<Rightarrow> path \<Rightarrow> path list \<Rightarrow> int \<Rightarrow> string list py" where
  "get_images_to_cleanup R config_path search_paths threshold_days =
     py_bind (get_image_prefix (rt_repr R) config_path) (\<lambda>image_prefix.
     py_bind (get_images image_prefix threshold_days) (\<lambda>all_images.
     if all_images = [] then py_seq (log_info ''No images found for cleanup.'' []) (py_ret [])
     else
       py_bind (filter_allowed_images all_images) (\<lambda>allowed_images.
       if allowed_images = [] then py_seq (log_info ''No allowed images found for cleanup.'' []) (py_ret [])
       else
         py_bind (get_ignored_images R config_path search_paths) (\<lambda>ignored_images.
         let all_to_cleanup = filter (\<lambda>img. img \<notin> set ignored_images) allowed_images in
         if all_to_cleanup = [] then
           py_seq (log_info ''All found images are in the ignore list. Nothing to clean up.'' []) (py_ret [])
         else
           py_seq (log_info ''Found %d images to clean up.'' [str_nat (length all_to_cleanup)])
           (py_ret all_to_cleanup)))))"

section \<open>Removing them\<close>

definition rmi_command :: "string \<Rightarrow> string list" where
  "rmi_command tag = [''docker'', ''rmi'', tag]"

text \<open>\<open>proc.wait()\<close>, with which the \<open>with\<close> statement ends.\<close>

definition proc_wait :: "(event list \<Rightarrow> bool) \<Rightarrow> nat \<Rightarrow> unit py" where
  "proc_wait busy fuel = py_await fuel (\<lambda>t. if busy t then None else Some (Ok ()))"

text \<open>The loop \<open>while proc.poll() is None\<close>; the answer is whether the removal was cancelled.\<close>

fun await_removal :: "(event list \<Rightarrow> bool) \<Rightarrow> nat \<Rightarrow> string \<Rightarrow> bool py" where
  "await_removal busy 0 tag = py_raise Diverges"
| "await_removal busy (Suc fuel) tag =
     py_bind (py_get (\<lambda>w. busy (w_trace w))) (\<lambda>running.
     if \<not> running then py_ret False
     else
       py_bind poll_cancel (\<lambda>cancelled.
       if cancelled then
         py_seq (log_info ''Cleanup cancelled; exiting removal loop for %s'' [tag])
         (py_seq (emit (Terminate (rmi_command tag))) (py_seq (proc_wait busy fuel) (py_ret True)))
       else await_removal busy fuel tag))"

definition report_removal :: "string \<Rightarrow> int \<Rightarrow> string \<Rightarrow> string \<Rightarrow> unit py" where
  "report_removal tag returncode out err =
     py_seq (py_when (out \<noteq> []) (py_for (py_splitlines (py_strip out)) (\<lambda>line. log_info ''[docker rmi stdout]: %s'' [line])))
     (py_seq (py_when (err \<noteq> []) (py_for (py_splitlines (py_strip err)) (\<lambda>line. log_warning ''[docker rmi stderr]: %s'' [line])))
     (py_when (returncode \<noteq> 0)
       (log_warning ''Failed to remove image %s (exit code %d)'' [tag, str_int returncode])))"

text \<open>The body of the loop for one image; the answer is whether to return.\<close>

definition remove_image :: "(event list \<Rightarrow> bool) \<Rightarrow> nat \<Rightarrow> string \<Rightarrow> bool py" where
  "remove_image busy fuel tag =
     py_try
       (py_bind (run_proc (rmi_command tag)) (\<lambda>(returncode, out, err).
        py_bind (await_removal busy fuel tag) (\<lambda>cancelled.
        if cancelled then py_ret True
        else py_seq (report_removal tag returncode out err) (py_ret False))))
       is_Exception
       (\<lambda>e. py_seq (log_warning ''Error during image removal of %s: %s'' [tag, exn_str e]) (py_ret False))"

fun removal_loop :: "(event list \<Rightarrow> bool) \<Rightarrow> nat \<Rightarrow> string list \<Rightarrow> unit py" where
  "removal_loop busy fuel [] = py_ret ()"
| "removal_loop busy fuel (tag # tags) =
     py_bind poll_cancel (\<lambda>cancelled.
     if cancelled then py_ret ()
     else
       py_seq (log_info ''Removing image: %s'' [tag])
       (py_bind (remove_image busy fuel tag) (\<lambda>stop.
        if stop then py_ret () else removal_loop busy fuel tags)))"

definition cleanup_images_batch :: "(event list \<Rightarrow> bool) \<Rightarrow> nat \<Rightarrow> string list \<Rightarrow> unit py" where
  "cleanup_images_batch busy fuel images_to_cleanup =
     (if images_to_cleanup = [] then py_ret ()
      else py_seq (log_info ''Cleaning up %d images in this batch.'' [str_nat (length images_to_cleanup)])
             (removal_loop busy fuel images_to_cleanup))"

section \<open>The task\<close>

text \<open>\<open>threading.TIMEOUT_MAX\<close>: a longer wait raises, unless the event is set already.\<close>

definition timeout_max :: pyfloat where
  "timeout_max = Fin 9223372036"

definition event_wait :: "pyfloat \<Rightarrow> bool py" where
  "event_wait timeout =
     py_bind poll_cancel (\<lambda>b. if \<not> b \<and> f_less timeout_max timeout then py_raise OverflowError else py_ret b)"

text \<open>\<open>[xs[i:i + n] for i in range(0, len(xs), n)]\<close>\<close>

function batches_of :: "nat \<Rightarrow> 'a list \<Rightarrow> 'a list list" where
  "batches_of n xs = (if n = 0 \<or> xs = [] then [] else take n xs # batches_of n (drop n xs))"
  by pat_completeness auto
termination
  by (relation "measure (\<lambda>(n, xs). length xs)") auto

declare batches_of.simps [simp del]

fun batch_loop :: "(event list \<Rightarrow> bool) \<Rightarrow> nat \<Rightarrow> pyfloat \<Rightarrow> string list list \<Rightarrow> unit py" where
  "batch_loop busy fuel interval [] = py_ret ()"
| "batch_loop busy fuel interval (batch # rest) =
     py_seq (cleanup_images_batch busy fuel batch)
     (py_bind (event_wait interval) (\<lambda>cancelled.
      if cancelled then py_ret () else batch_loop busy fuel interval rest))"

definition cleanup_images :: "runtime \<Rightarrow> (event list \<Rightarrow> bool) \<Rightarrow> nat \<Rightarrow> path \<Rightarrow> path list \<Rightarrow>
    pyfloat \<Rightarrow> pyfloat \<Rightarrow> int \<Rightarrow> int \<Rightarrow> unit py" where
  "cleanup_images R busy fuel config_path search_paths initial_delay interval batch_size threshold_days =
     py_bind (event_wait initial_delay) (\<lambda>cancelled.
     if cancelled then py_ret ()
     else
       py_bind (get_images_to_cleanup R config_path search_paths threshold_days) (\<lambda>all_to_cleanup.
       if batch_size = 0 then py_raise (ValueError ''range() arg 3 must not be zero'')
       else batch_loop busy fuel interval (batches_of (nat batch_size) all_to_cleanup)))"

definition start_background_cleanup :: "runtime \<Rightarrow> (event list \<Rightarrow> bool) \<Rightarrow> nat \<Rightarrow> path \<Rightarrow> path list \<Rightarrow>
    pyfloat \<Rightarrow> pyfloat \<Rightarrow> int \<Rightarrow> int \<Rightarrow> thread py" where
  "start_background_cleanup R busy fuel config_path search_paths initial_delay interval batch_size threshold_days =
     (let th = \<lparr>th_name = ''DockerCleanupThread'',
        th_target = cleanup_images R busy fuel config_path search_paths initial_delay interval batch_size threshold_days\<rparr>
      in py_seq (emit (ThreadStart (th_name th))) (py_ret th))"

section \<open>The program\<close>

definition cleanup_parser :: parser where
  "cleanup_parser = \<lparr>p_opts =
     [help_opt,
      mk_opt [''--devkit-log-file''] ''devkit_log_file'' NOne,
      (mk_opt [''--config-path''] ''config_path'' NOne)\<lparr>o_required := True\<rparr>,
      (mk_opt [''--search-path''] ''search_path'' NAppend)\<lparr>o_required := True\<rparr>,
      (mk_opt [''--initial-delay''] ''initial_delay'' NOne)\<lparr>o_type := is_float\<rparr>,
      (mk_opt [''--cleanup-interval''] ''cleanup_interval'' NOne)\<lparr>o_type := is_float\<rparr>,
      (mk_opt [''--batch-size''] ''batch_size'' NOne)\<lparr>o_type := is_int\<rparr>,
      (mk_opt [''--threshold-days''] ''threshold_days'' NOne)\<lparr>o_type := is_int\<rparr>],
     p_positional = None\<rparr>"

text \<open>The value of an option whose type has been checked by the parser.\<close>

definition float_arg :: "namespace \<Rightarrow> string \<Rightarrow> pyfloat \<Rightarrow> pyfloat" where
  "float_arg ns d dflt = (case Option.bind (arg_value ns d) py_float of Some v \<Rightarrow> v | None \<Rightarrow> dflt)"

definition int_arg :: "namespace \<Rightarrow> string \<Rightarrow> int \<Rightarrow> int" where
  "int_arg ns d dflt = (case Option.bind (arg_value ns d) py_int of Some v \<Rightarrow> v | None \<Rightarrow> dflt)"

definition cleanup_main :: "runtime \<Rightarrow> (event list \<Rightarrow> bool) \<Rightarrow> nat \<Rightarrow> string list \<Rightarrow> unit py" where
  "cleanup_main R busy fuel argv =
     py_bind (parse_args cleanup_parser argv) (\<lambda>args.
     py_seq (basic_config (arg_value args ''devkit_log_file''))
     (py_try
       (cleanup_images R busy fuel (path_of (arg_default args ''config_path'' []))
          (map path_of (arg_list args ''search_path''))
          (float_arg args ''initial_delay'' (Fin 0)) (float_arg args ''cleanup_interval'' (Fin 0))
          (int_arg args ''batch_size'' 10) (int_arg args ''threshold_days'' CLEANUP_THRESHOLD_DAYS))
       (\<lambda>e. e = KeyboardInterrupt)
       (\<lambda>e. py_seq (log_info ''Cleanup interrupted by user.'' []) (emit (EventSet ''cancel'')))))"

end
