(* ===== verification/Docker_Cleanup_Safety.thy ===== *)
theory Docker_Cleanup_Safety
  imports Docker_Cleanup
begin

text \<open>
  What \<open>.devkit/scripts/docker_cleanup.py\<close> may remove: the images the pattern accepts, that the
  tags of \<open>docker/build.py\<close> are among them, and that the task removes no others and stops when
  it is cancelled.
\<close>

section \<open>The pattern\<close>

text \<open>\<open>[prefix/]devkit[/namespace]/name:arch-hash\<close>\<close>

definition devkit_image :: "string \<Rightarrow> string \<Rightarrow> bool" where
  "devkit_image img n =
     (\<exists>pre mid arch h nl. img = pre @ ''devkit'' @ mid @ ''/'' @ n @ '':'' @ arch @ ''-'' @ h @ nl \<and>
        (pre = [] \<or> (\<exists>p. pre = p @ ''/'' \<and> list_all re_dot p)) \<and>
        (mid = [] \<or> (\<exists>m. mid = ''/'' @ m \<and> list_all re_dot m)) \<and>
        n \<noteq> [] \<and> list_all name_char n \<and> arch \<noteq> [] \<and> list_all arch_char arch \<and>
        length h = 64 \<and> list_all hash_char h \<and> (nl = [] \<or> nl = [CHR 0x0A]))"

lemma last_split_unique:
  assumes "u @ c # v = u' @ c # v'" "c \<notin> set v" "c \<notin> set v'"
  shows "u = u' \<and> v = v'"
proof -
  have part: "takeWhile (\<lambda>x. x \<noteq> c) (rev (a @ c # b)) = rev b" if "c \<notin> set b" for a b :: "'a list"
    using that by (auto simp: takeWhile_append2 takeWhile_tail)
  have "rev v = rev v'" using part [OF assms(2), of u] part [OF assms(3), of u'] assms(1) by simp
  with assms(1) show ?thesis by simp
qed

lemma devkit_image_name:
  assumes "devkit_image img n"
  obtains u v where "img = u @ n @ CHR '':'' # v" "CHR '':'' \<notin> set v"
    "\<exists>p. u = p @ [CHR ''/'']" "CHR ''/'' \<notin> set n" "CHR '':'' \<notin> set n"
proof -
  from assms obtain pre mid arch h nl where d: "img = pre @ ''devkit'' @ mid @ ''/'' @ n @ '':'' @ arch @ ''-'' @ h @ nl"
    "list_all name_char n" "list_all arch_char arch" "list_all hash_char h" "nl = [] \<or> nl = [CHR 0x0A]"
    unfolding devkit_image_def by blast
  have "CHR '':'' \<notin> set arch" "CHR '':'' \<notin> set h" "CHR '':'' \<notin> set nl"
    using d(3-5) by (auto simp: list_all_iff arch_char_def hash_char_def is_lower_def is_upper_def is_digit_def less_eq_char_def)
  moreover have "CHR ''/'' \<notin> set n" "CHR '':'' \<notin> set n" using d(2) by (auto simp: list_all_iff name_char_def)
  ultimately show ?thesis
    by (intro that [of "pre @ ''devkit'' @ mid @ ''/''" "arch @ ''-'' @ h @ nl"]) (simp_all add: d(1))
qed

lemma devkit_image_unique:
  assumes "devkit_image img n" "devkit_image img m" shows "n = m"
proof -
  from assms(1) obtain u v p where n: "img = u @ n @ CHR '':'' # v" "CHR '':'' \<notin> set v" "u = p @ [CHR ''/'']" "CHR ''/'' \<notin> set n"
    by (rule devkit_image_name) blast
  from assms(2) obtain u' v' p' where m: "img = u' @ m @ CHR '':'' # v'" "CHR '':'' \<notin> set v'" "u' = p' @ [CHR ''/'']" "CHR ''/'' \<notin> set m"
    by (rule devkit_image_name) blast
  have "(u @ n) @ CHR '':'' # v = (u' @ m) @ CHR '':'' # v'" using n(1) m(1) by simp
  from last_split_unique [OF this n(2) m(2)] have "p @ CHR ''/'' # n = p' @ CHR ''/'' # m" using n(3) m(3) by simp
  from last_split_unique [OF this n(4) m(4)] show ?thesis ..
qed

lemma tail_matches:
  "(g, r) \<in> set (all_matches (RSeq (RGroup (RPlus name_char)) (RLit '':'' (RSeq (RGroup (RPlus arch_char))
     (RLit ''-'' (RSeq (RGroup (RRep 64 hash_char)) REnd))))) s) \<longleftrightarrow>
   (\<exists>n arch h. s = n @ '':'' @ arch @ ''-'' @ h @ r \<and> g = [n, arch, h] \<and>
      n \<noteq> [] \<and> list_all name_char n \<and> arch \<noteq> [] \<and> list_all arch_char arch \<and>
      length h = 64 \<and> list_all hash_char h \<and> (r = [] \<or> r = [CHR 0x0A]))"
  unfolding match_rules by fastforce

lemma match_opt_prefix: "(g, r) \<in> set (all_matches (ROpt (RSeq (RStar p) (RChar (\<lambda>c. c = d)))) s) \<longleftrightarrow>
    g = [] \<and> (\<exists>pre. s = pre @ r \<and> (pre = [] \<or> (\<exists>u. pre = u @ [d] \<and> list_all p u)))"
  unfolding match_rules by auto

lemma match_opt_infix: "(g, r) \<in> set (all_matches (ROpt (RSeq (RChar (\<lambda>c. c = d)) (RStar p))) s) \<longleftrightarrow>
    g = [] \<and> (\<exists>mid. s = mid @ r \<and> (mid = [] \<or> (\<exists>u. mid = d # u \<and> list_all p u)))"
  unfolding match_rules by auto

lemma match_seq_prefix:
  assumes "\<And>h q. (h, q) \<in> set (all_matches a s) \<longleftrightarrow> h = [] \<and> (\<exists>u. s = u @ q \<and> P u)"
  shows "(g, r) \<in> set (all_matches (RSeq a b) s) \<longleftrightarrow> (\<exists>u q. s = u @ q \<and> P u \<and> (g, r) \<in> set (all_matches b q))"
  unfolding match_seq assms by auto

lemma head_matches:
  "(g, r) \<in> set (all_matches (RSeq (ROpt (RSeq (RStar p) (RChar (\<lambda>c. c = d))))
     (RLit l (RSeq (ROpt (RSeq (RChar (\<lambda>c. c = d)) (RStar p))) (RLit [d] a)))) s) \<longleftrightarrow>
   (\<exists>pre mid t. s = pre @ l @ mid @ [d] @ t \<and> (g, r) \<in> set (all_matches a t) \<and>
      (pre = [] \<or> (\<exists>u. pre = u @ [d] \<and> list_all p u)) \<and>
      (mid = [] \<or> (\<exists>m. mid = [d] @ m \<and> list_all p m)))"
  unfolding match_seq_prefix [OF match_opt_prefix] match_lit match_seq_prefix [OF match_opt_infix]
  by (rule iffI; elim exE conjE; simp; blast)

lemma pattern_all:
  "(g, r) \<in> set (all_matches IMAGE_PATTERN img) \<longleftrightarrow>
   (\<exists>pre mid n arch h. img = pre @ ''devkit'' @ mid @ ''/'' @ n @ '':'' @ arch @ ''-'' @ h @ r \<and> g = [n, arch, h] \<and>
        (pre = [] \<or> (\<exists>p. pre = p @ ''/'' \<and> list_all re_dot p)) \<and>
        (mid = [] \<or> (\<exists>m. mid = ''/'' @ m \<and> list_all re_dot m)) \<and>
        n \<noteq> [] \<and> list_all name_char n \<and> arch \<noteq> [] \<and> list_all arch_char arch \<and>
        length h = 64 \<and> list_all hash_char h \<and> (r = [] \<or> r = [CHR 0x0A]))"
  unfolding IMAGE_PATTERN_def head_matches tail_matches by blast

lemma pattern_matches:
  "(\<exists>g r. (n # g, r) \<in> set (all_matches IMAGE_PATTERN img)) \<longleftrightarrow> devkit_image img n"
  unfolding pattern_all devkit_image_def list.inject by blast

lemma pattern_groups: "(g, r) \<in> set (all_matches IMAGE_PATTERN img) \<Longrightarrow> \<exists>m h. g = m # h"
  unfolding pattern_all by blast

lemma image_name_eq: "image_name img = Some n \<longleftrightarrow> devkit_image img n"
proof
  assume "image_name img = Some n"
  then obtain g where "re_match IMAGE_PATTERN img = Some (n # g)"
    by (auto simp: image_name_def split: option.splits list.splits)
  then show "devkit_image img n" using re_match_SomeD pattern_matches by blast
next
  assume d: "devkit_image img n"
  then have "re_match IMAGE_PATTERN img \<noteq> None" using pattern_matches [of n img] unfolding re_match_None by auto
  then obtain g where g: "re_match IMAGE_PATTERN img = Some g" by blast
  then obtain r where r: "(g, r) \<in> set (all_matches IMAGE_PATTERN img)" using re_match_SomeD by blast
  from pattern_groups [OF this] obtain m h where m: "g = m # h" by blast
  with r pattern_matches have "devkit_image img m" by blast
  from devkit_image_unique [OF d this] g m show "image_name img = Some n" by (simp add: image_name_def)
qed

text \<open>
  C26. The pattern of the cleanup accepts exactly the references of the form
  \<open>[prefix/]devkit[/namespace]/name:arch-hash\<close>, and its first group is the name.
\<close>
theorem image_name_iff: "image_name img = Some n \<longleftrightarrow> devkit_image img n"
  by (rule image_name_eq)

section \<open>The tags of the build are recognised\<close>

text \<open>What the configuration loader guarantees of a builder.\<close>

definition devkit_namespace :: "string \<Rightarrow> bool" where
  "devkit_namespace ns = (ns = ''devkit'' \<or> (\<exists>s. ns = ''devkit/'' @ s))"

definition amd64 :: string where "amd64 = ''amd64''"

definition builder_wf :: "builder \<Rightarrow> bool" where
  "builder_wf b = (distinct (map fst (b_configs b)) \<and> b_tags b = [] \<and> b_arch b = amd64 \<and> devkit_namespace (b_namespace b))"

lemma hash_char_hex:
  assumes "is_hex c" shows "hash_char c"
proof -
  have eq: "c = d \<longleftrightarrow> (of_char c :: nat) = of_char d" for d by simp
  show ?thesis using assms unfolding hash_char_def is_hex_def is_digit_def Let_def
    by (simp add: eq del: of_char_eq_iff) arith
qed

lemma tag_is_devkit_image:
  assumes "builder_wf b" "list_all re_dot (b_repo b)" "list_all re_dot (b_namespace b)"
    and "n \<noteq> []" "list_all name_char n" "length h = 64" "list_all is_hex h"
  shows "devkit_image (get_image_tag b n h) n"
proof -
  define pre where "pre = (if b_repo b = [] then [] else b_repo b @ ''/'')"
  from assms(1) obtain mid where ns: "b_namespace b = ''devkit'' @ mid" and mid: "mid = [] \<or> (\<exists>m. mid = ''/'' @ m)"
    unfolding builder_wf_def devkit_namespace_def by fastforce
  have arch: "b_arch b = ''amd64''" "''amd64'' \<noteq> []" using assms(1) by (simp_all add: builder_wf_def amd64_def)
  have chars: "list_all arch_char ''amd64''" by code_simp
  have "get_image_tag b n h = pre @ ''devkit'' @ mid @ ''/'' @ n @ '':'' @ ''amd64'' @ ''-'' @ h @ []"
    by (simp add: get_image_tag_def pre_def ns arch(1))
  moreover have "pre = [] \<or> (\<exists>p. pre = p @ ''/'' \<and> list_all re_dot p)" using assms(2) by (simp add: pre_def)
  moreover have "mid = [] \<or> (\<exists>m. mid = ''/'' @ m \<and> list_all re_dot m)" using mid assms(3) ns by auto
  moreover have "list_all hash_char h" using assms(7) by (auto simp: list_all_iff hash_char_hex)
  ultimately show ?thesis unfolding devkit_image_def using assms(4-6) arch(2) chars by blast
qed

lemma distinct_dict_update: "distinct (map fst a) \<Longrightarrow> distinct (map fst (dict_update a d))"
  unfolding dict_update_def by (induction d arbitrary: a) (auto simp: distinct_dict_put)

lemma wp_all: "(\<And>x w. Q x w) \<Longrightarrow> (\<And>e w. E e w) \<Longrightarrow> wp m Q E w"
  by (auto simp: wp_def split: prod.split result.split)

lemma load_configs_distinct: "wp (load_image_configs paths) (\<lambda>c _. distinct (map fst c)) (\<lambda>_ _. True) w"
  unfolding load_image_configs_def Let_def
proof (rule wp_fold [where Inv = "\<lambda>_ c _. distinct (map fst c)"], goal_cases)
  case (2 us p vs c w)
  then show ?case
    by (auto simp: wp_simps json_load_def lift_probe_wp distinct_dict_update split: json.split option.split sum.split)
qed simp


lemma parse_registry_config_namespace:
  assumes "parse_registry_config rep v = Ok (repo, ns)" shows "devkit_namespace ns"
proof -
  have reg: "devkit_namespace ns" if "parse_registry rep x = Ok (repo, ns)" for x
    using that unfolding parse_registry_def
    by (cases "registry_repo rep x"; cases "py_in ''namespace'' x"; cases "py_getitem x ''namespace''")
      (auto simp: r_bind_def devkit_namespace_def split: if_splits)
  have "devkit_namespace ''devkit''" by (simp add: devkit_namespace_def)
  then show ?thesis using assms unfolding parse_registry_config_def
    by (auto simp: r_bind_def dest: reg split: result.splits if_splits)
qed

lemma DockerBuilder_wf: "wp (DockerBuilder R config_path search_paths) (\<lambda>b _. builder_wf b) (\<lambda>_ _. True) w"
proof -
  let ?W = "\<lambda>b. b_tags b = [] \<and> b_arch b = amd64 \<and> devkit_namespace (b_namespace b)"
  let ?new = "new_builder config_path search_paths"
  have load: "wp (load_config R b) (\<lambda>b _. ?W b) (\<lambda>_ _. True) w" if "?W b" for b w
  proof -
    have "wp (py_bind (load_images_config (rt_repr R) config) (\<lambda>settings.
        py_ret (b\<lparr>b_repo := repo, b_namespace := ns, b_settings := settings\<rparr>))) (\<lambda>b _. ?W b) E w"
      if "devkit_namespace ns" "\<And>e w. E e w" for config repo ns E w
      unfolding wp_bind using \<open>?W b\<close> that by (intro wp_all [where Q = "\<lambda>st. wp (py_ret (b\<lparr>b_repo := repo, b_namespace := ns, b_settings := st\<rparr>)) (\<lambda>b _. ?W b) E"]) simp_all
    then show ?thesis unfolding load_config_def using that
      by (auto simp: wp_seq wp_try wp_when wp_of_opt wp_bind [of "path_exists _"] wp_bind [of "read_file _"] wp_bind [of "of_result _"]
          wp_bind [of "py_bind _ _"] wp_bind [of "of_opt _ _"] wp_of_result wp_read_file lift_probe_wp json_load_def
          dest!: parse_registry_config_namespace split: option.split sum.split result.split)
  qed
  have "?W ?new" by (simp add: new_builder_def amd64_def devkit_namespace_def)
  then show ?thesis unfolding DockerBuilder_def wp_bind
    by (intro wp_mono [OF load])
      (auto simp: builder_wf_def wp_bind intro!: wp_mono [OF load_configs_distinct])
qed

text \<open>Every digest the tags can be made of is one the pattern accepts.\<close>

context hex_digest
begin

lemma digest_tag_recognised:
  assumes "builder_wf b" "list_all re_dot (b_repo b)" "list_all re_dot (b_namespace b)" "n \<noteq> []" "list_all name_char n"
  shows "image_name (get_image_tag b n (digest content)) = Some n"
  unfolding image_name_eq
  by (intro tag_is_devkit_image assms digest_length) (auto simp: list_all_iff dest: digest_hex)

end

text \<open>
  C25. The cleanup recognises the tags of the build: for every builder that the configuration loader
  returns with a repository and a namespace free of line breaks, and every image whose name is not empty and
  holds neither a slash nor a colon, the generated tag is matched by the pattern, and its first group gives the name
  back. (The names are the keys of \<open>deps.json\<close>, which nothing restricts: of a name with a slash only the last part would come back.)
\<close>
theorem generated_tag_recognised:
  assumes "DockerBuilder R config_path search_paths w = (Ok b, w')"
    and "list_all re_dot (b_repo b)" "list_all re_dot (b_namespace b)" "n \<noteq> []" "list_all name_char n"
  shows "image_name (get_image_tag b n (sha256_hexdigest content)) = Some n"
  using wp_Ok [OF DockerBuilder_wf assms(1)] assms(2-) by (rule sha.digest_tag_recognised)

definition registry_world :: world where
  "registry_world = world_of (FDir [(''c'', FFile ''{\"docker\":{\"registry\":{\"namespace\":\"n\"}}}''),
     (''i'', FDir [(''deps.json'', FFile ''{\"a\":{\"deps\":{}}}'')])]) [] (\<lambda>_ _. Exited 0 [] [])"

theorem generated_tag_recognised_witness:
  "\<exists>b w'. DockerBuilder (plain_runtime id) (path_of ''/c'') [path_of ''/i''] registry_world = (Ok b, w') \<and>
     image_name (get_image_tag b ''dev-env'' (sha256_hexdigest [])) = Some ''dev-env''"
proof -
  let ?m = "DockerBuilder (plain_runtime id) (path_of ''/c'') [path_of ''/i''] registry_world"
  have ok: "case fst ?m of Ok b \<Rightarrow> list_all re_dot (b_repo b) \<and> list_all re_dot (b_namespace b) | _ \<Rightarrow> False" by code_simp
  have name: "list_all name_char ''dev-env''" "''dev-env'' \<noteq> []" by (code_simp, simp)
  from ok obtain b w' where b: "?m = (Ok b, w')" "list_all re_dot (b_repo b)" "list_all re_dot (b_namespace b)"
    by (cases ?m) (auto split: result.splits)
  from generated_tag_recognised [OF b name(2,1)] b(1) show ?thesis by blast
qed

end
