(* ===== verification/Docker_Cleanup_Task.thy ===== *)
theory Docker_Cleanup_Task
  imports Docker_Cleanup_Safety
begin

text \<open>
  The cleanup task of \<open>.devkit/scripts/docker_cleanup.py\<close>: which images it removes, in which order,
  and how it stops.
\<close>

section \<open>What the task leaves unchanged\<close>

text \<open>The choice of the candidates keeps what logging keeps, apart from the command that lists the images.\<close>

context log_frame
begin

lemma frame_ignored: "keeps R (get_ignored_images run config_path search_paths)"
  unfolding get_ignored_images_def by (auto intro!: log_rules frame_all_tags)

lemma frame_filter: "keeps R (filter_allowed_images imgs)"
  unfolding filter_allowed_images_def by (auto intro!: log_rules split: option.split)

lemma frame_candidates:
  assumes "\<And>p. allows (Spawn (list_images_command p days))"
  shows "keeps R (get_images_to_cleanup run config_path search_paths days)"
  unfolding get_images_to_cleanup_def get_images_def Let_def
  by (auto intro!: log_rules frame_checked assms frame_image_prefix frame_filter frame_ignored)

lemma frame_wait: "(\<And>b. allows (CancelSeen b)) \<Longrightarrow> keeps R (event_wait timeout)"
  unfolding event_wait_def by (auto intro!: log_rules frame_poll)

lemma frame_remove:
  assumes "allows (Spawn (rmi_command tag))" "allows (Terminate (rmi_command tag))" "\<And>b. allows (CancelSeen b)" "allows Waited"
  shows "keeps R (remove_image busy fuel tag)"
proof -
  have "keeps R (await_removal busy fuel tag)"
    by (induction fuel) (auto simp: proc_wait_def intro!: log_rules frame_poll frame_emit frame_await assms)
  then show ?thesis unfolding remove_image_def report_removal_def by (auto intro!: log_rules frame_proc assms)
qed

lemma frame_batches:
  assumes "\<And>b. allows (CancelSeen b)" "allows Waited"
    and "\<And>tag. tag \<in> set (concat batches) \<Longrightarrow> allows (Spawn (rmi_command tag))"
    and "\<And>tag. tag \<in> set (concat batches) \<Longrightarrow> allows (Terminate (rmi_command tag))"
  shows "keeps R (batch_loop busy fuel interval batches)"
proof -
  have "keeps R (removal_loop busy fuel tags)" if "set tags \<subseteq> set (concat batches)" for tags
    using that by (induction tags) (auto intro!: log_rules frame_poll frame_remove assms, blast+)
  then have "keeps R (cleanup_images_batch busy fuel batch)" if "set batch \<subseteq> set (concat batches)" for batch
    using that unfolding cleanup_images_batch_def by (auto intro!: log_rules)
  then have "keeps R (batch_loop busy fuel interval rest)" if "set (concat rest) \<subseteq> set (concat batches)" for rest
    using that by (induction rest) (auto intro!: log_rules frame_wait assms(1))
  then show ?thesis by blast
qed

end

section \<open>Candidates\<close>

definition allowed :: "string \<Rightarrow> bool" where
  "allowed img = (case image_name img of Some n \<Rightarrow> n \<in> set ALLOWED_IMAGE_NAMES | None \<Rightarrow> False)"

lemma filter_allowed_wp:
  "same_files w0 w \<Longrightarrow> wp (filter_allowed_images imgs) (\<lambda>r w'. r = filter allowed imgs \<and> same_files w0 w') E w"
  unfolding filter_allowed_images_def
  by (rule wp_fold [where Inv = "\<lambda>us r w'. r = filter allowed us \<and> same_files w0 w'"])
    (auto simp: allowed_def wp_simps split: option.split)

lemma ignored_wp:
  assumes "same_files w w1" "fst (get_all_docker_image_tags R config_path search_paths [] w) = Ok tags"
  shows "wp (get_ignored_images R config_path search_paths) (\<lambda>r _. r = tags) E w1"
proof -
  obtain w2 where "get_all_docker_image_tags R config_path search_paths [] w1 = (Ok tags, w2)"
    using reads_onlyD [OF reads_all_tags assms(1)] assms(2) by (metis prod.collapse)
  then show ?thesis by (simp add: get_ignored_images_def wp_try wp_bind wp_eq wp_log_ret)
qed

lemma reads_image_prefix: "reads_only (get_image_prefix rep p)"
  unfolding get_image_prefix_def by (auto intro!: reads_intros)

lemma keeps_get_images: "keeps_files (get_images image_prefix days)"
  unfolding get_images_def
  by (rule fl.frame_try, rule fl.frame_bind, rule keeps_proc) (auto intro!: reads_keeps reads_intros)

lemma candidates_wp:
  assumes "\<And>w1. same_files w w1 \<Longrightarrow> wp (get_ignored_images R config_path search_paths) (\<lambda>r _. P r) (\<lambda>_ _. True) w1"
    and "\<And>imgs ign. P ign \<Longrightarrow> Q (filter (\<lambda>i. i \<notin> set ign) (filter allowed imgs))" "Q []"
  shows "wp (get_images_to_cleanup R config_path search_paths days) (\<lambda>imgs _. Q imgs) (\<lambda>_ _. True) w"
proof -
  have last: "wp (get_ignored_images R config_path search_paths) (\<lambda>ign.
      wp (let all_to_cleanup = filter (\<lambda>img. img \<notin> set ign) (filter allowed imgs) in
          if all_to_cleanup = [] then
            py_seq (log_info ''All found images are in the ignore list. Nothing to clean up.'' []) (py_ret [])
          else py_seq (log_info ''Found %d images to clean up.'' [str_nat (length all_to_cleanup)]) (py_ret all_to_cleanup))
        (\<lambda>imgs _. Q imgs) (\<lambda>_ _. True)) (\<lambda>_ _. True) w1" if "same_files w w1" for imgs w1
    by (rule wp_mono [OF assms(1) [OF that]])
      (use assms(2,3) in \<open>auto simp: Let_def wp_simps\<close>)
  show ?thesis unfolding get_images_to_cleanup_def wp_bind
  proof (rule wp_mono [OF wp_keeps [OF reads_keeps [OF reads_image_prefix]]], goal_cases)
    case (1 image_prefix w1)
    show ?case
    proof (rule wp_mono [OF wp_keeps [OF keeps_get_images]], goal_cases)
      case (1 imgs w2)
      have w2: "same_files w w2" using \<open>same_files w w1\<close> 1 by (rule same_files_trans)
      show ?case
      proof (cases "imgs = []")
        case False
        then show ?thesis unfolding if_not_P [OF False] wp_bind
          by (intro wp_mono [OF filter_allowed_wp [OF w2]])
            (use assms(3) last in \<open>auto simp: wp_simps wp_log_ret Let_def\<close>)
      qed (use assms(3) in \<open>simp add: wp_simps\<close>)
    qed simp
  qed simp
qed

lemma reads_ignored: "reads_only (get_ignored_images R config_path search_paths)"
  unfolding get_ignored_images_def by (auto intro!: reads_intros reads_all_tags)

lemma wp_fst: "fst (m w) = Ok x \<Longrightarrow> keeps_files m \<Longrightarrow> (\<And>w'. same_files w w' \<Longrightarrow> Q x w') \<Longrightarrow> wp m Q E w"
  by (cases "m w") (auto simp: wp_def keeps_def dest: spec [of _ w])

lemma wp_result: "wp m (\<lambda>x _. x = y) (\<lambda>_ _. False) w \<Longrightarrow> fst (m w) = Ok y"
  by (auto simp: wp_def split: prod.splits result.splits)

text \<open>The candidates, in full.\<close>

lemma candidates_eq:
  assumes p: "fst (get_image_prefix (rt_repr R) config_path w) = Ok image_prefix"
    and l: "\<And>t. w_proc w t (list_images_command image_prefix days) = Exited 0 listing err"
    and i: "fst (get_ignored_images R config_path search_paths w) = Ok ign"
  shows "fst (get_images_to_cleanup R config_path search_paths days w) =
     Ok (filter (\<lambda>i. i \<notin> set ign) (filter allowed (py_splitlines (py_strip listing))))"
proof -
  let ?lines = "py_splitlines (py_strip listing)"
  obtain w1 where w1: "get_image_prefix (rt_repr R) config_path w = (Ok image_prefix, w1)" using p by (metis prod.collapse)
  have files: "same_files w w1" by (rule keepsD [OF reads_keeps [OF reads_image_prefix] w1])
  have proc: "w_proc w1 = w_proc w"
    using keepsD [OF so.frame_image_prefix [where P = "\<lambda>_. False"] w1] by (simp add: adds_def same_outside_def)
  let ?w2 = "traced w1 (Spawn (list_images_command image_prefix days))"
  have first: "wp (get_image_prefix (rt_repr R) config_path) Q E w = Q image_prefix w1" for Q E
    by (simp add: wp_def w1)
  have list: "wp (get_images image_prefix days) Q E w1 = Q ?lines ?w2" for Q E
    by (simp add: get_images_def run_checked_def wp_simps l proc)
  have w2: "same_files w1 ?w2" by simp
  have ign: "wp (get_ignored_images R config_path search_paths) Q E w3"
    if "same_files w1 w3" "\<And>w4. Q ign w4" for Q E w3
    using wp_fst [of "get_ignored_images R config_path search_paths" w3 ign] that i
      reads_onlyD [OF reads_ignored, of w w3] same_files_trans [OF files that(1)] reads_keeps [OF reads_ignored] by metis
  have "wp (get_images_to_cleanup R config_path search_paths days)
      (\<lambda>x _. x = filter (\<lambda>i. i \<notin> set ign) (filter allowed ?lines)) (\<lambda>_ _. False) w"
    unfolding get_images_to_cleanup_def wp_bind first list
    by (cases "?lines = []", simp add: wp_simps, simp only: if_False wp_bind, rule wp_mono [OF filter_allowed_wp [OF w2]])
      (auto simp: wp_simps wp_log_ret Let_def simp del: filter_filter intro!: ign)
  then show ?thesis by (rule wp_result)
qed

lemma ignored_eq:
  "fst (get_all_docker_image_tags R config_path search_paths [] w) = Ok tags \<Longrightarrow>
   fst (get_ignored_images R config_path search_paths w) = Ok tags"
  "fst (get_all_docker_image_tags R config_path search_paths [] w) = Exc e \<Longrightarrow> is_Exception e \<Longrightarrow>
   fst (get_ignored_images R config_path search_paths w) = Ok []"
  by (cases "get_all_docker_image_tags R config_path search_paths [] w"; simp add: get_ignored_images_def py_simps)+

definition sample_image :: "string \<Rightarrow> char \<Rightarrow> string" where
  "sample_image n c = ''devkit/'' @ n @ '':amd64-'' @ replicate 64 c"

lemma sample_image_name:
  assumes "n \<noteq> []" "list_all name_char n" "hash_char c"
  shows "image_name (sample_image n c) = Some n"
proof -
  have "list_all arch_char ''amd64''" by code_simp
  then show ?thesis unfolding image_name_eq devkit_image_def sample_image_def
    by (intro exI [of _ "[]"] exI [of _ "''amd64''"] exI [of _ "replicate 64 c"]) (use assms in \<open>simp add: list_all_iff\<close>)
qed

definition lists_two :: "event list \<Rightarrow> string list \<Rightarrow> proc_outcome" where
  "lists_two t c = Exited 0 (sample_image ''dev-env'' (CHR ''0'') @ [CHR 0x0A] @ sample_image ''tool-env'' (CHR ''1'')) []"

definition old_images :: world where
  "old_images =
     world_of (FDir [(''i'', FDir [(''deps.json'', FFile ''{\"a\":{\"deps\":{}}}''), (''a.Dockerfile'', FFile ''F'')])]) []
       lists_two"

text \<open>
  C39. When the tags in use cannot be computed, nothing is ignored: every listed image of the allow
  list is chosen for removal, images in use included.
\<close>
theorem cleanup_fails_open:
  assumes "fst (get_all_docker_image_tags R config_path search_paths [] w) = Exc e" "is_Exception e"
    and "fst (get_image_prefix (rt_repr R) config_path w) = Ok image_prefix"
    and "\<And>t. w_proc w t (list_images_command image_prefix days) = Exited 0 listing []"
  shows "fst (get_images_to_cleanup R config_path search_paths days w) =
     Ok (filter allowed (py_splitlines (py_strip listing)))"
  using candidates_eq [OF assms(3,4) ignored_eq(2) [OF assms(1,2)]] by simp

definition lists_one :: "event list \<Rightarrow> string list \<Rightarrow> proc_outcome" where
  "lists_one t c = Exited 0 (sample_image ''dev-env'' (CHR ''0'')) []"

definition broken_images :: world where
  "broken_images =
     world_of (FDir [(''i'', FDir [(''deps.json'', FFile ''{\"a\":{}}'')])]) []
       lists_one"

theorem cleanup_fails_open_witness:
  "fst (get_images_to_cleanup (plain_runtime id) (path_of ''/c'') [path_of ''/i''] 7 broken_images) =
     Ok [sample_image ''dev-env'' (CHR ''0'')]"
proof -
  let ?t = "fst (get_all_docker_image_tags (plain_runtime id) (path_of ''/c'') [path_of ''/i''] [] broken_images)"
  have "case ?t of Exc e \<Rightarrow> is_Exception e | Ok _ \<Rightarrow> False" by code_simp
  then obtain e where t: "?t = Exc e" "is_Exception e" by (auto split: result.splits)
  have p: "fst (get_image_prefix (rt_repr (plain_runtime id)) (path_of ''/c'') broken_images) = Ok ''devkit''" by code_simp
  have l: "\<And>t. w_proc broken_images t (list_images_command ''devkit'' 7) = Exited 0 (sample_image ''dev-env'' (CHR ''0'')) []"
    by (simp add: broken_images_def world_of_def lists_one_def)
  note open_list = cleanup_fails_open [OF t p l]
  have "py_splitlines (py_strip (sample_image ''dev-env'' (CHR ''0''))) = [sample_image ''dev-env'' (CHR ''0'')]" by code_simp
  moreover have "allowed (sample_image ''dev-env'' (CHR ''0''))"
    using sample_image_name [of "''dev-env''" "CHR ''0''"]
    by (simp add: allowed_def ALLOWED_IMAGE_NAMES_def name_char_def hash_char_def is_digit_def)
  ultimately show ?thesis using open_list by simp
qed


section \<open>Cancellation\<close>

text \<open>Nothing is started after the cancel event was seen.\<close>

fun stops :: "event list \<Rightarrow> bool" where
  "stops [] = True"
| "stops (e # es) = ((e = CancelSeen True \<longrightarrow> spawned es = []) \<and> stops es)"

definition seen :: "event list \<Rightarrow> bool" where
  "seen t = (CancelSeen True \<in> set t)"

lemma stops_append: "stops (t @ u) \<longleftrightarrow> stops t \<and> stops u \<and> (seen t \<longrightarrow> spawned u = [])"
  by (induction t) (auto simp: seen_def)

lemma stops_quiet: "spawned t = [] \<Longrightarrow> stops t"
  by (induction t rule: spawned.induct) auto

lemma stops_split: "stops t \<Longrightarrow> t = u @ CancelSeen True # v \<Longrightarrow> spawned v = []"
  by (simp add: stops_append)

text \<open>A set event stays set.\<close>

definition sticky :: "world \<Rightarrow> bool" where
  "sticky w = (\<forall>t u. w_cancel w t \<longrightarrow> w_cancel w (t @ u))"

lemma sticky_outside: "same_outside w w' \<Longrightarrow> sticky w' = sticky w"
  by (simp add: sticky_def same_outside_def)

text \<open>A computation that obeys the event: it starts nothing after it saw it set, and its answer
  \<open>stop\<close> tells when it did.\<close>

definition obeys :: "'a py \<Rightarrow> ('a result \<Rightarrow> bool \<Rightarrow> bool) \<Rightarrow> bool" where
  "obeys m Q = (\<forall>w. sticky w \<longrightarrow> does m w (\<lambda>r w' t. same_outside w w' \<and> stops t \<and>
     (seen t \<longrightarrow> w_cancel w (w_trace w')) \<and> Q r (seen t)))"

lemma obeysD:
  assumes "obeys m Q" "sticky w" "m w = (r, w')"
  obtains t where "w_trace w' = w_trace w @ t" "same_outside w w'" "stops t"
    "seen t \<longrightarrow> w_cancel w (w_trace w')" "Q r (seen t)"
  by (rule doesD [OF assms(1) [unfolded obeys_def, rule_format, OF assms(2)] assms(3)]) (elim conjE, rule that)

lemma obeys_mono: "obeys m Q \<Longrightarrow> (\<And>r b. Q r b \<Longrightarrow> R r b) \<Longrightarrow> obeys m R"
  unfolding obeys_def by (blast intro: does_mono)

lemma obeys_quiet:
  assumes "quiet m" "\<And>w. \<not> seen (drop (length (w_trace w)) (w_trace (snd (m w))))" "\<And>r. Q r False"
  shows "obeys m Q"
  unfolding obeys_def
proof (intro allI impI)
  fix w
  from assms(1) have "does m w (\<lambda>r w' t. same_outside w w' \<and> replies (w_proc w) (w_trace w) t = [])"
    by (simp add: conv_def)
  then obtain t where t: "w_trace (snd (m w)) = w_trace w @ t" "same_outside w (snd (m w))" "replies (w_proc w) (w_trace w) t = []"
    by (auto simp: does_def)
  then have "spawned t = []" by (metis replies_spawned list.map(1))
  with t assms(2) [of w] assms(3) show "does m w (\<lambda>r w' t. same_outside w w' \<and> stops t \<and>
      (seen t \<longrightarrow> w_cancel w (w_trace w')) \<and> Q r (seen t))"
    by (auto simp: does_def intro: stops_quiet)
qed

lemma obeys_ret: "Q (Ok x) False \<Longrightarrow> obeys (py_ret x) Q"
  by (simp add: obeys_def seen_def)

lemma obeys_raise: "Q (Exc e) False \<Longrightarrow> obeys (py_raise e) Q"
  by (simp add: obeys_def seen_def)

lemma obeys_emit: "Q (Ok ()) False \<Longrightarrow> e \<noteq> CancelSeen True \<Longrightarrow> obeys (emit e) Q"
  by (simp add: obeys_def seen_def)

lemma obeys_log: "Q (Ok ()) False \<Longrightarrow> obeys (log_info f xs) Q" "Q (Ok ()) False \<Longrightarrow> obeys (log_warning f xs) Q"
  by (simp_all add: obeys_def seen_def)

lemma obeys_poll: "(\<And>b. Q (Ok b) b) \<Longrightarrow> obeys poll_cancel Q"
  by (auto simp: obeys_def does_def poll_cancel_def Let_def seen_def sticky_def)

lemma obeys_run: "(\<And>x. Q (proc_result x) False) \<Longrightarrow> obeys (run_proc cmd) Q"
proof (unfold obeys_def, intro allI impI)
  fix w assume Q: "\<And>x. Q (proc_result x) False"
  show "does (run_proc cmd) w (\<lambda>r w' t. same_outside w w' \<and> stops t \<and> (seen t \<longrightarrow> w_cancel w (w_trace w')) \<and> Q r (seen t))"
    using Q [of "w_proc w (w_trace w) cmd"]
    by (cases "w_proc w (w_trace w) cmd") (simp_all add: does_proc proc_result_def seen_def)
qed

text \<open>Sequencing: after the event was seen, the second part must start nothing.\<close>

definition halts :: "'a py \<Rightarrow> ('a result \<Rightarrow> bool) \<Rightarrow> bool" where
  "halts m Q = (\<forall>w. sticky w \<longrightarrow> w_cancel w (w_trace w) \<longrightarrow>
     does m w (\<lambda>r w' t. same_outside w w' \<and> spawned t = [] \<and> Q r))"

lemma obeys_bind:
  assumes "obeys m P" "\<And>x. P (Ok x) False \<Longrightarrow> obeys (f x) Q" "\<And>x. P (Ok x) True \<Longrightarrow> halts (f x) (\<lambda>r. Q r True)"
    "\<And>e b. P (Exc e) b \<Longrightarrow> Q (Exc e) b"
  shows "obeys (py_bind m f) Q"
  unfolding obeys_def
proof (intro allI impI)
  fix w assume st: "sticky w"
  obtain r w1 where m: "m w = (r, w1)" by fastforce
  from obeysD [OF assms(1) st m] obtain t where t: "w_trace w1 = w_trace w @ t" "same_outside w w1" "stops t"
    "seen t \<longrightarrow> w_cancel w (w_trace w1)" "P r (seen t)" .
  show "does (py_bind m f) w (\<lambda>r w' t. same_outside w w' \<and> stops t \<and> (seen t \<longrightarrow> w_cancel w (w_trace w')) \<and> Q r (seen t))"
  proof (cases r)
    case (Exc e)
    with t m assms(4) show ?thesis by (auto simp: does_def py_bind_def)
  next
    case (Ok x)
    have st1: "sticky w1" using st t(2) sticky_outside by simp
    obtain r2 w2 where f: "f x w1 = (r2, w2)" by fastforce
    show ?thesis
    proof (cases "seen t")
      case False
      from obeysD [OF assms(2) st1 f] t(5) Ok False obtain u where
        u: "w_trace w2 = w_trace w1 @ u" "same_outside w1 w2" "stops u" "seen u \<longrightarrow> w_cancel w1 (w_trace w2)" "Q r2 (seen u)"
        by auto
      have "seen (t @ u) = seen u" using False by (simp add: seen_def)
      with u t False m f Ok show ?thesis
        unfolding does_def by (intro exI [of _ "t @ u"]) (simp add: py_bind_def stops_append same_outside_def)
    next
      case True
      have "w_cancel w1 (w_trace w1)" using True t(2,4) by (simp add: same_outside_def)
      with assms(3) [of x] t(5) Ok True st1 have "does (f x) w1 (\<lambda>r w' t. same_outside w1 w' \<and> spawned t = [] \<and> Q r True)"
        by (simp add: halts_def)
      then obtain u where u: "w_trace w2 = w_trace w1 @ u" "same_outside w1 w2" "spawned u = []" "Q r2 True"
        using f by (auto simp: does_def)
      have "seen (t @ u)" using True by (simp add: seen_def)
      moreover have "w_cancel w (w_trace w2)" using st True t(4) u(1) by (auto simp: sticky_def)
      ultimately show ?thesis using u t m f Ok
        unfolding does_def by (intro exI [of _ "t @ u"]) (simp add: py_bind_def stops_append stops_quiet same_outside_def)
    qed
  qed
qed


lemma obeys_seq:
  assumes "obeys m (\<lambda>r b. \<not> b)" "obeys k Q" "\<And>e. Q (Exc e) False"
  shows "obeys (py_seq m k) Q"
  unfolding py_seq_def by (rule obeys_bind [OF assms(1)]) (use assms(2,3) in auto)

lemma obeys_try:
  assumes "obeys m P" "\<And>r b. P r b \<Longrightarrow> Q r b" "\<And>e b. P (Exc e) b \<Longrightarrow> c e \<Longrightarrow> \<not> b" "\<And>e. obeys (h e) Q"
  shows "obeys (py_try m c h) Q"
  unfolding obeys_def
proof (intro allI impI)
  fix w assume st: "sticky w"
  obtain r w1 where m: "m w = (r, w1)" by fastforce
  from obeysD [OF assms(1) st m] obtain t where t: "w_trace w1 = w_trace w @ t" "same_outside w w1" "stops t"
    "seen t \<longrightarrow> w_cancel w (w_trace w1)" "P r (seen t)" .
  show "does (py_try m c h) w (\<lambda>r w' t. same_outside w w' \<and> stops t \<and> (seen t \<longrightarrow> w_cancel w (w_trace w')) \<and> Q r (seen t))"
  proof (cases "\<exists>e. r = Exc e \<and> c e")
    case False
    have "Q r (seen t)" using assms(2) t(5) by blast
    with t m False show ?thesis by (cases r) (auto simp: does_def py_try_def)
  next
    case True
    then obtain e where e: "r = Exc e" "c e" by blast
    then have "\<not> seen t" using assms(3) t(5) by blast
    have st1: "sticky w1" using st t(2) sticky_outside by simp
    obtain r2 w2 where f: "h e w1 = (r2, w2)" by fastforce
    from obeysD [OF assms(4) st1 f] obtain u where
      u: "w_trace w2 = w_trace w1 @ u" "same_outside w1 w2" "stops u" "seen u \<longrightarrow> w_cancel w1 (w_trace w2)" "Q r2 (seen u)" .
    have "seen (t @ u) = seen u" using \<open>\<not> seen t\<close> by (simp add: seen_def)
    with u t \<open>\<not> seen t\<close> m f e show ?thesis
      unfolding does_def by (intro exI [of _ "t @ u"]) (simp add: py_try_def stops_append same_outside_def)
  qed
qed

lemma obeys_get: "(\<And>x. obeys (f x) Q) \<Longrightarrow> obeys (py_bind (py_get g) f) Q"
  by (simp add: obeys_def does_def py_bind_def py_get_def)

lemma halts_ret: "Q (Ok x) \<Longrightarrow> halts (py_ret x) Q"
  by (simp add: halts_def)

section \<open>The task obeys the event\<close>

text \<open>The answer says whether the event was seen; after it was seen only the wait for the removal can go wrong.\<close>

definition heeds :: "bool result \<Rightarrow> bool \<Rightarrow> bool" where
  "heeds r b = (case r of Ok c \<Rightarrow> c = b | Exc e \<Rightarrow> b \<longrightarrow> e = Diverges)"

lemma wait_calm: "does (proc_wait busy fuel) w (\<lambda>r w' t. same_outside w w' \<and> spawned t = [] \<and> (r = Ok () \<or> r = Exc Diverges))"
  unfolding proc_wait_def
proof (induction fuel arbitrary: w)
  case (Suc fuel)
  let ?f = "\<lambda>t. if busy t then None else Some (Ok ())"
  show ?case
  proof (cases "busy (w_trace w)")
    case True
    then have "py_await (Suc fuel) ?f w = py_await fuel ?f (traced w Waited)" by (simp add: py_simps traced_def)
    with Suc.IH [of "traced w Waited"] show ?thesis by (auto simp: does_def same_outside_def intro: exI [of _ "Waited # _"])
  qed (simp add: does_def py_simps of_result_def)
qed simp

lemma terminate_halts:
  assumes "\<And>r. r = Ok True \<or> r = Exc Diverges \<Longrightarrow> Q r"
  shows "halts (py_seq (log_info s xs) (py_seq (emit (Terminate c)) (py_seq (proc_wait busy fuel) (py_ret True)))) Q"
  unfolding halts_def
  by (intro allI impI does_seq)
    (auto intro!: does_seq does_mono [OF wait_calm] assms simp: same_outside_def split: result.split)

lemma await_obeys: "obeys (await_removal busy fuel tag) heeds"
proof (induction fuel)
  case 0
  then show ?case by (simp add: obeys_raise heeds_def)
next
  case (Suc fuel)
  show ?case unfolding await_removal.simps
  proof (rule obeys_get, goal_cases)
    case (1 running)
    show ?case
    proof (cases running)
      case True
      then show ?thesis using Suc
        by (auto intro!: obeys_bind [OF obeys_poll [where Q = "\<lambda>r b. r = Ok b"]] terminate_halts simp: heeds_def)
    qed (simp add: obeys_ret heeds_def)
  qed
qed

lemma report_obeys: "obeys (report_removal tag n out err) (\<lambda>r b. \<not> b)"
proof -
  have lines: "obeys (py_for xs f) (\<lambda>r b. \<not> b)" if "\<And>x. obeys (f x) (\<lambda>r b. \<not> b)" for xs :: "string list" and f
    using that by (induction xs) (auto intro!: obeys_ret obeys_seq)
  show ?thesis unfolding report_removal_def py_when_def
    by (auto intro!: obeys_seq lines obeys_log obeys_ret)
qed

lemma remove_obeys: "obeys (remove_image busy fuel tag) heeds"
  unfolding remove_image_def
proof (rule obeys_try [where P = heeds], goal_cases)
  case 1
  show ?case
  proof (rule obeys_bind [OF obeys_run [where Q = "\<lambda>r b. \<not> b"]], goal_cases)
    case (2 x)
    obtain n out err where x: "x = (n, out, err)" by (cases x)
    show ?case unfolding x prod.case
    proof (rule obeys_bind [OF await_obeys], goal_cases)
      case (1 c)
      then show ?case by (auto simp: heeds_def intro!: obeys_seq report_obeys obeys_ret)
    next
      case (2 c)
      then show ?case by (auto simp: heeds_def intro!: halts_ret)
    qed (simp add: heeds_def)
  qed (auto simp: heeds_def)
qed (auto simp: heeds_def is_Exception_def intro!: obeys_seq obeys_log obeys_ret)

lemma removal_loop_obeys: "obeys (removal_loop busy fuel tags) (\<lambda>_ _. True)"
proof (induction tags)
  case (Cons tag tags)
  show ?case unfolding removal_loop.simps
    by (rule obeys_bind [OF obeys_poll [where Q = "\<lambda>r b. r = Ok b"]])
      (auto simp: heeds_def intro!: obeys_seq obeys_log obeys_bind [OF remove_obeys] halts_ret Cons)
qed (simp add: obeys_ret)

lemma batch_obeys: "obeys (cleanup_images_batch busy fuel imgs) (\<lambda>_ _. True)"
  unfolding cleanup_images_batch_def by (auto intro!: obeys_ret obeys_seq obeys_log removal_loop_obeys)

lemma wait_obeys: "obeys (event_wait timeout) (\<lambda>r b. case r of Ok c \<Rightarrow> c = b | Exc e \<Rightarrow> \<not> b)"
  unfolding event_wait_def
  by (rule obeys_bind [OF obeys_poll [where Q = "\<lambda>r b. r = Ok b"]]) (auto intro!: obeys_ret obeys_raise halts_ret)

lemma wait_halts: "halts (py_bind (event_wait timeout) (\<lambda>c. if c then py_ret () else k)) (\<lambda>_. True)"
  by (auto simp: halts_def does_def event_wait_def poll_cancel_def py_bind_def py_ret_def Let_def)

lemma batch_loop_obeys: "obeys (batch_loop busy fuel interval batches) (\<lambda>_ _. True)"
proof (induction batches)
  case (Cons b bs)
  show ?case unfolding batch_loop.simps py_seq_def
  proof (rule obeys_bind [OF batch_obeys], goal_cases)
    case 1
    show ?case by (rule obeys_bind [OF wait_obeys]) (auto intro!: halts_ret Cons)
  qed (auto intro!: wait_halts)
qed (simp add: obeys_ret)


section \<open>Computing the candidates does not look at the event\<close>

text \<open>Neither a command nor a look that finds the event set.\<close>

definition unnoticed :: "event \<Rightarrow> bool" where
  "unnoticed e = (e \<noteq> CancelSeen True \<and> (\<forall>c. e \<noteq> Spawn c))"

interpretation cm: script_frame "adds unnoticed" unnoticed
  by unfold_locales (auto simp: unnoticed_def intro: adds_laws)

abbreviation calm :: "'a py \<Rightarrow> bool" where
  "calm m \<equiv> keeps (adds unnoticed) m"

lemma list_all_unnoticed: "list_all unnoticed t = (spawned t = [] \<and> \<not> seen t)"
  by (induction t rule: spawned.induct) (auto simp: unnoticed_def seen_def)

lemma calm_obeys: "calm m \<Longrightarrow> (\<And>r. Q r False) \<Longrightarrow> obeys m Q"
  unfolding obeys_def keeps_adds list_all_unnoticed
  by (intro allI impI, rule does_mono, erule spec) (auto intro: stops_quiet)

lemma images_obeys: "obeys (get_images image_prefix days) (\<lambda>r b. \<not> b)"
  unfolding get_images_def run_checked_def
  by (intro obeys_try [where P = "\<lambda>r b. \<not> b"] obeys_bind [where P = "\<lambda>r b. \<not> b"] obeys_run)
    (auto intro!: calm_obeys cm.script_rules cm.frame_filter cm.frame_ignored)

lemma candidates_obeys: "obeys (get_images_to_cleanup R config_path search_paths days) (\<lambda>r b. \<not> b)"
  unfolding get_images_to_cleanup_def Let_def
  by (rule obeys_bind [where P = "\<lambda>r b. \<not> b"], rule calm_obeys, rule cm.frame_image_prefix, simp,
      rule obeys_bind [OF images_obeys]) (auto intro!: calm_obeys cm.script_rules cm.frame_filter cm.frame_ignored)

text \<open>
  C18. Once the cleanup task has seen its cancel event set, it starts no further program: whatever
  follows in its trace, no image is listed or removed any more.
\<close>
theorem cleanup_stops_when_cancelled:
  assumes "sticky w"
    and "cleanup_images R busy fuel config_path search_paths delay interval batch_size days w = (r, w')"
  shows "\<exists>t. w_trace w' = w_trace w @ t \<and> (\<forall>u v. t = u @ CancelSeen True # v \<longrightarrow> spawned v = [])"
proof -
  have "obeys (cleanup_images R busy fuel config_path search_paths delay interval batch_size days) (\<lambda>_ _. True)"
    unfolding cleanup_images_def
    by (rule obeys_bind [OF wait_obeys])
      (auto intro!: obeys_bind [OF candidates_obeys] batch_loop_obeys obeys_raise obeys_ret halts_ret)
  from obeysD [OF this assms] show ?thesis using stops_split by metis
qed


text \<open>Two old images; the task is cancelled while the first removal runs, which ends only when it is terminated.\<close>

definition cancelled_images :: world where
  "cancelled_images = old_images\<lparr>w_cancel := \<lambda>t. Spawn (rmi_command (sample_image ''dev-env'' (CHR ''0''))) \<in> set t\<rparr>"

definition until_terminated :: "event list \<Rightarrow> bool" where
  "until_terminated t = (\<not> list_ex (\<lambda>e. case e of Terminate _ \<Rightarrow> True | _ \<Rightarrow> False) t)"

theorem cleanup_stops_when_cancelled_witness:
  "\<exists>w' u v. cleanup_images (plain_runtime id) until_terminated 2 (path_of ''/c'') [path_of ''/i''] (Fin 0) (Fin 0) 4 7 cancelled_images = (Ok (), w') \<and>
     w_trace w' = u @ CancelSeen True # v \<and> last (spawned u) = rmi_command (sample_image ''dev-env'' (CHR ''0'')) \<and> spawned v = []"
proof -
  let ?m = "cleanup_images (plain_runtime id) until_terminated 2 (path_of ''/c'') [path_of ''/i''] (Fin 0) (Fin 0) 4 7"
  have "case ?m cancelled_images of (r, w') \<Rightarrow> r = Ok () \<and> CancelSeen True \<in> set (w_trace w') \<and>
      last (spawned (w_trace w')) = rmi_command (sample_image ''dev-env'' (CHR ''0''))"
    by code_simp
  then obtain w' u v where m: "?m cancelled_images = (Ok (), w')" "w_trace w' = u @ CancelSeen True # v"
    "last (spawned (w_trace w')) = rmi_command (sample_image ''dev-env'' (CHR ''0''))"
    by (auto split: prod.splits dest!: split_list)
  have "sticky cancelled_images" "w_trace cancelled_images = []"
    by (simp_all add: sticky_def cancelled_images_def old_images_def world_of_def)
  with cleanup_stops_when_cancelled [OF _ m(1)] m show ?thesis by auto
qed

section \<open>Without cancellation every candidate is removed\<close>

text \<open>A started removal is over after fewer than \<open>fuel\<close> looks.\<close>

definition settles :: "(event list \<Rightarrow> bool) \<Rightarrow> nat \<Rightarrow> bool" where
  "settles busy fuel = (\<forall>t c. \<exists>j < fuel. \<not> busy (t @ Spawn c # replicate j (CancelSeen False)))"

text \<open>No one cancels, and a program that cannot be started raises an \<open>Exception\<close>.\<close>

definition undisturbed :: "world \<Rightarrow> bool" where
  "undisturbed w = (w_cancel w = (\<lambda>_. False) \<and> (\<forall>t c e. w_proc w t c = LaunchFailed e \<longrightarrow> is_Exception e))"

lemma undisturbed_outside: "same_outside w w' \<Longrightarrow> undisturbed w' = undisturbed w"
  by (simp add: undisturbed_def same_outside_def)

lemma does_poll: "undisturbed w \<Longrightarrow> does poll_cancel w Q = Q (Ok False) (traced w (CancelSeen False)) [CancelSeen False]"
  by (simp add: does_def poll_cancel_def undisturbed_def traced_def)

definition runs :: "'a py \<Rightarrow> world \<Rightarrow> 'a \<Rightarrow> string list list \<Rightarrow> bool" where
  "runs m w x cs = does m w (\<lambda>r w' t. r = Ok x \<and> spawned t = cs \<and> same_outside w w')"

lemma runs_bind:
  assumes "runs m w x cs" "\<And>w'. same_outside w w' \<Longrightarrow> runs (f x) w' y ds"
  shows "runs (py_bind m f) w y (cs @ ds)"
  unfolding runs_def
  by (rule does_bind, rule does_mono [OF assms(1) [unfolded runs_def]])
    (auto simp: same_outside_def intro!: does_mono [OF assms(2) [unfolded runs_def]])

lemma runs_seq:
  assumes "runs m w () cs" "\<And>w'. same_outside w w' \<Longrightarrow> runs k w' y ds"
  shows "runs (py_seq m k) w y (cs @ ds)"
  unfolding py_seq_def by (rule runs_bind [OF assms])

lemma runs_basic: "runs (py_ret x) w x []" "runs (log_info f xs) w () []" "runs (log_warning f xs) w () []"
  by (simp_all add: runs_def)

lemma runs_quiet_seq: "runs m w () [] \<Longrightarrow> (\<And>w'. same_outside w w' \<Longrightarrow> runs k w' y ds) \<Longrightarrow> runs (py_seq m k) w y ds"
  by (rule runs_seq [of m w "[]" k y ds, unfolded append_Nil])

lemma runs_wait:
  assumes "undisturbed w" "\<not> f_less timeout_max timeout"
  shows "runs (event_wait timeout) w False []"
  using assms unfolding runs_def event_wait_def
  by (intro does_bind) (simp add: does_poll)

lemma await_runs:
  assumes "undisturbed w" "j < fuel" "\<not> busy (w_trace w @ replicate j (CancelSeen False))"
  shows "runs (await_removal busy fuel tag) w False []"
  using assms
proof (induction fuel arbitrary: w j)
  case (Suc fuel)
  show ?case
  proof (cases "busy (w_trace w)")
    case True
    with Suc.prems(3) obtain i where i: "j = Suc i" by (cases j) auto
    have "undisturbed (traced w (CancelSeen False))" using Suc.prems(1) by (simp add: undisturbed_def)
    from Suc.IH [OF this, of i] Suc.prems i
    have "runs (await_removal busy fuel tag) (traced w (CancelSeen False)) False []" by simp
    with True Suc.prems(1) show ?thesis
      by (auto simp: runs_def does_poll same_outside_def intro!: does_bind elim!: does_mono)
  next
    case False
    then show ?thesis by (auto simp: runs_def intro!: does_bind)
  qed
qed simp

lemma report_runs: "runs (report_removal tag n out err) w () []"
proof -
  have lines: "runs (py_for xs f) w () []" if "\<And>x w. runs (f x) w () []" for xs :: "string list" and f w
    using that by (induction xs arbitrary: w) (auto intro!: runs_basic runs_quiet_seq)
  show ?thesis unfolding report_removal_def py_when_def
    by (auto intro!: runs_quiet_seq lines runs_basic)
qed

lemma remove_runs:
  assumes "undisturbed w" "settles busy fuel"
  shows "runs (remove_image busy fuel tag) w False [rmi_command tag]"
proof (cases "w_proc w (w_trace w) (rmi_command tag)")
  case (Exited n out err)
  let ?w = "traced w (Spawn (rmi_command tag))"
  from assms(2) obtain j where "j < fuel" "\<not> busy (w_trace ?w @ replicate j (CancelSeen False))"
    unfolding settles_def by (metis append.assoc append_Cons append_Nil traced_simps(1))
  moreover have "undisturbed ?w" using assms(1) by (simp add: undisturbed_def)
  ultimately have "runs (await_removal busy fuel tag) ?w False []" by (intro await_runs)
  then have "runs (py_bind (await_removal busy fuel tag) (\<lambda>cancelled.
      if cancelled then py_ret True else py_seq (report_removal tag n out err) (py_ret False))) ?w False ([] @ [])"
    by (rule runs_bind) (auto intro!: runs_quiet_seq report_runs runs_basic)
  then show ?thesis unfolding runs_def remove_image_def
    by (intro does_try does_bind) (simp add: does_proc Exited, erule does_mono, simp add: same_outside_def)
next
  case (LaunchFailed e)
  with assms(1) have "is_Exception e" by (auto simp: undisturbed_def)
  with LaunchFailed show ?thesis unfolding runs_def remove_image_def
    by (intro does_try does_bind) (simp add: does_proc, auto intro!: does_seq)
qed

lemma removal_loop_runs:
  assumes "undisturbed w" "settles busy fuel"
  shows "runs (removal_loop busy fuel tags) w () (map rmi_command tags)"
  using assms(1)
proof (induction tags arbitrary: w)
  case (Cons tag tags)
  have poll: "runs poll_cancel w False []" using Cons.prems by (simp add: runs_def does_poll)
  have "runs (py_bind (remove_image busy fuel tag) (\<lambda>stop. if stop then py_ret () else removal_loop busy fuel tags)) w' ()
      ([rmi_command tag] @ map rmi_command tags)" if "undisturbed w'" for w'
    by (rule runs_bind [OF remove_runs [OF that assms(2)]])
      (use that Cons.IH undisturbed_outside in auto)
  then have "runs (py_seq (log_info ''Removing image: %s'' [tag]) (py_bind (remove_image busy fuel tag)
      (\<lambda>stop. if stop then py_ret () else removal_loop busy fuel tags))) w' () (map rmi_command (tag # tags))" if "undisturbed w'" for w'
    using that undisturbed_outside by (auto intro!: runs_quiet_seq runs_basic)
  with Cons.prems undisturbed_outside have "runs (removal_loop busy fuel (tag # tags)) w () ([] @ map rmi_command (tag # tags))"
    unfolding removal_loop.simps by (intro runs_bind [OF poll]) auto
  then show ?case by simp
qed (simp add: runs_basic)


lemma batch_runs:
  assumes "undisturbed w" "settles busy fuel"
  shows "runs (cleanup_images_batch busy fuel imgs) w () (map rmi_command imgs)"
  unfolding cleanup_images_batch_def
  using assms undisturbed_outside by (auto intro!: runs_basic runs_quiet_seq removal_loop_runs)

lemma batch_loop_runs:
  assumes "undisturbed w" "settles busy fuel" "\<not> f_less timeout_max interval"
  shows "runs (batch_loop busy fuel interval batches) w () (map rmi_command (concat batches))"
  using assms(1)
proof (induction batches arbitrary: w)
  case (Cons b bs)
  have "runs (py_bind (event_wait interval) (\<lambda>c. if c then py_ret () else batch_loop busy fuel interval bs)) w' ()
      ([] @ map rmi_command (concat bs))" if "undisturbed w'" for w'
    by (rule runs_bind [OF runs_wait [OF that assms(3)]]) (use that Cons.IH undisturbed_outside in auto)
  with Cons.prems undisturbed_outside
  have "runs (batch_loop busy fuel interval (b # bs)) w () (map rmi_command b @ map rmi_command (concat bs))"
    unfolding batch_loop.simps by (intro runs_seq [OF batch_runs [OF Cons.prems assms(2)]]) auto
  then show ?case by simp
qed (simp add: runs_basic)

lemma concat_batches: "0 < n \<Longrightarrow> concat (batches_of n xs) = xs"
proof (induction n xs rule: batches_of.induct)
  case (1 n xs)
  then show ?case by (cases "xs = []") (simp_all add: batches_of.simps [of n])
qed

text \<open>
  C19. Left alone, the task starts the removal of every candidate, each once and in the order of the
  list, whatever the size of the batches and whether or not single removals fail.
\<close>
theorem cleanup_removes_every_candidate:
  assumes "undisturbed w" "settles busy fuel" "\<not> f_less timeout_max delay" "\<not> f_less timeout_max interval" "0 < batch_size"
    and "get_images_to_cleanup R config_path search_paths days (traced w (CancelSeen False)) = (Ok imgs, w1)"
  shows "\<exists>w' t. cleanup_images R busy fuel config_path search_paths delay interval batch_size days w = (Ok (), w') \<and>
     w_trace w' = w_trace w1 @ t \<and> spawned t = map rmi_command imgs"
proof -
  let ?w = "traced w (CancelSeen False)"
  have wait: "event_wait delay w = (Ok False, ?w)"
    using assms(1,3) by (simp add: event_wait_def poll_cancel_def undisturbed_def traced_def py_simps)
  have "sticky ?w" using assms(1) by (simp add: sticky_def undisturbed_def)
  from obeysD [OF candidates_obeys this assms(6)] have "same_outside ?w w1" .
  then have w1: "undisturbed w1" using assms(1) by (simp add: undisturbed_def same_outside_def)
  from batch_loop_runs [OF this assms(2,4), of "batches_of (nat batch_size) imgs"] concat_batches [of "nat batch_size" imgs] assms(5)
  obtain w' t where "batch_loop busy fuel interval (batches_of (nat batch_size) imgs) w1 = (Ok (), w')"
    "w_trace w' = w_trace w1 @ t" "spawned t = map rmi_command imgs"
    unfolding runs_def does_def by (auto simp: prod_eq_iff)
  then show ?thesis using wait assms(5,6) by (simp add: cleanup_images_def py_bind_def)
qed

theorem cleanup_removes_every_candidate_witness:
  "\<exists>imgs w1 w' t. get_images_to_cleanup (plain_runtime id) (path_of ''/c'') [path_of ''/i''] 7 (traced old_images (CancelSeen False)) = (Ok imgs, w1) \<and>
     cleanup_images (plain_runtime id) (\<lambda>_. False) 1 (path_of ''/c'') [path_of ''/i''] (Fin 0) (Fin 0) 4 7 old_images = (Ok (), w') \<and>
     w_trace w' = w_trace w1 @ t \<and> spawned t = map rmi_command imgs"
proof -
  let ?w = "traced old_images (CancelSeen False)"
  have t: "fst (get_all_docker_image_tags (plain_runtime id) (path_of ''/c'') [path_of ''/i''] [] ?w) = Ok [sample_image ''a'' (CHR ''0'')]"
    by code_simp
  have p: "fst (get_image_prefix (rt_repr (plain_runtime id)) (path_of ''/c'') ?w) = Ok ''devkit''" by code_simp
  have l: "\<And>t. w_proc ?w t (list_images_command ''devkit'' 7) =
      Exited 0 (sample_image ''dev-env'' (CHR ''0'') @ [CHR 0x0A] @ sample_image ''tool-env'' (CHR ''1'')) []"
    by (simp add: old_images_def world_of_def lists_two_def)
  from candidates_eq [OF p l ignored_eq(1) [OF t]] obtain imgs w1
    where m: "get_images_to_cleanup (plain_runtime id) (path_of ''/c'') [path_of ''/i''] 7 ?w = (Ok imgs, w1)"
    by (metis prod.collapse)
  have "undisturbed old_images" "settles (\<lambda>_. False) 1" "\<not> f_less timeout_max (Fin 0)"
    by (simp_all add: undisturbed_def old_images_def world_of_def lists_two_def settles_def timeout_max_def)
  from cleanup_removes_every_candidate [OF this(1,2,3,3) _ m, of 4] m show ?thesis by auto
qed

end
