(* ===== verification/Docker_Cleanup_End.thy ===== *)
theory Docker_Cleanup_End
  imports Docker_Cleanup_Task
begin

text \<open>
  The cleanup task (\<open>.devkit/scripts/docker_cleanup.py\<close>) comes to an end: no loop of it runs on once its cancel event is
  set, provided that a removal obeys its termination. A computation that ends never has the result \<open>Diverges\<close>, whose only source is a loop that ran out of its bound.
\<close>

section \<open>Computations that end\<close>

text \<open>Starting a program ends, one way or the other.\<close>

definition programs_end :: "world \<Rightarrow> bool" where
  "programs_end w = (\<forall>t c. w_proc w t c \<noteq> LaunchFailed Diverges)"

text \<open>The result is not \<open>Diverges\<close>, in every world that satisfies \<open>A\<close>, a condition on what the script cannot decide.\<close>

definition ends :: "(world \<Rightarrow> bool) \<Rightarrow> 'a py \<Rightarrow> bool" where
  "ends A m = (\<forall>w. A w \<longrightarrow> wp m (\<lambda>_. A) (\<lambda>e w'. e \<noteq> Diverges \<and> A w') w)"

definition settled :: "'a result \<Rightarrow> bool" where
  "settled r = (r \<noteq> Exc Diverges)"

named_theorems ends_intros

lemma endsD: "ends A m \<Longrightarrow> A w \<Longrightarrow> fst (m w) \<noteq> Exc Diverges"
  by (cases "m w") (auto simp: ends_def wp_def split: prod.splits result.splits)

lemma ends_bind [ends_intros]: "ends A m \<Longrightarrow> (\<And>x. ends A (f x)) \<Longrightarrow> ends A (py_bind m f)"
  unfolding ends_def wp_bind by (auto intro: wp_mono)

lemma ends_seq [ends_intros]: "ends A m \<Longrightarrow> ends A k \<Longrightarrow> ends A (py_seq m k)"
  unfolding py_seq_def by (rule ends_bind)

lemma ends_try [ends_intros]: "ends A m \<Longrightarrow> (\<And>e. ends A (h e)) \<Longrightarrow> ends A (py_try m c h)"
  unfolding ends_def wp_try by (auto intro: wp_mono)

lemma ends_pure [ends_intros]:
  "ends A (py_ret x)" "e \<noteq> Diverges \<Longrightarrow> ends A (py_raise e)" "ends A (sys_exit n)" "ends A (py_get g)"
  "settled r \<Longrightarrow> ends A (of_result r)" "e \<noteq> Diverges \<Longrightarrow> ends A (of_opt e y)"
  by (auto simp: ends_def settled_def wp_of_result wp_of_opt split: result.split option.split)

lemma ends_files [ends_intros]:
  "ends A (path_exists p)" "ends A (os_path_exists p)" "ends A (read_file p)" "ends A (json_load p)"
  by (auto simp: ends_def wp_def path_exists_def lift_probe_def os_path_exists_def read_file_def json_load_def of_opt_def py_simps
      split: sum.split option.split fs_error.split)

lemma ends_when [ends_intros]: "ends A m \<Longrightarrow> ends A (py_when b m)"
  by (simp add: py_when_def ends_pure)

lemma ends_for [ends_intros]: "(\<And>x. x \<in> set xs \<Longrightarrow> ends A (f x)) \<Longrightarrow> ends A (py_for xs f)"
  by (induction xs) (auto intro!: ends_intros)

lemma ends_fold [ends_intros]: "(\<And>x s. x \<in> set xs \<Longrightarrow> ends A (f x s)) \<Longrightarrow> ends A (py_fold f xs s)"
  by (induction xs arbitrary: s) (auto intro!: ends_intros)

text \<open>Results of reading the configuration.\<close>

lemma settled_bind [ends_intros]: "settled r \<Longrightarrow> (\<And>x. settled (f x)) \<Longrightarrow> settled (r_bind r f)"
  by (cases r) (auto simp: settled_def)

lemma settled_basic [ends_intros]: "settled (Ok x)" "settled (py_in k v)" "settled (py_getitem v k)" "settled (py_items v)"
  by (auto simp: settled_def py_in_def py_getitem_def py_items_def split: json.split option.split)

lemma settled_validate [ends_intros]: "settled (validate_config v s path)"
  using validate_config_error [of v s path Diverges] by (auto simp: settled_def)

lemma settled_registry [ends_intros]: "settled (parse_registry_config rep config)"
  unfolding parse_registry_config_def parse_registry_def registry_repo_def by (auto intro!: ends_intros)

lemma settled_deps [ends_intros]: "settled (image_deps conf)"
proof -
  have "settled (string_values kvs)" for kvs
    by (induction kvs rule: string_values.induct) (auto intro!: ends_intros simp: settled_def [of "Exc TypeError"] split: json.split)
  then show ?thesis by (auto simp: image_deps_def intro!: ends_intros)
qed

lemma settled_graph [ends_intros]: "settled (full_graph cs)"
  by (induction cs rule: full_graph.induct) (auto intro!: ends_intros)

text \<open>Conditions that depend on the world outside only.\<close>

locale outside =
  fixes A :: "world \<Rightarrow> bool"
  assumes outside_kept: "same_outside w w' \<Longrightarrow> A w \<Longrightarrow> A w'"
    and outside_programs: "A w \<Longrightarrow> programs_end w"
begin

lemma ends_emit: "ends A (emit e)"
  by (auto simp: ends_def intro: outside_kept [rotated])

lemma ends_log: "ends A (log_info f xs)" "ends A (log_warning f xs)" "ends A (log_error f xs)"
  unfolding log_info_def log_warning_def log_error_def by (rule ends_emit)+

lemma ends_proc: "ends A (run_proc cmd)"
  using outside_programs unfolding ends_def wp_proc programs_end_def
  by (auto intro: outside_kept [rotated] split: proc_outcome.split)

lemma ends_checked: "ends A (run_checked capture cmd)"
  unfolding run_checked_def by (auto intro!: ends_intros ends_proc)

lemma ends_poll: "ends A poll_cancel"
  by (auto simp: ends_def wp_def poll_cancel_def Let_def intro: outside_kept [rotated])

lemmas outside_intros = ends_intros ends_log ends_proc ends_checked ends_poll ends_emit

end

section \<open>Choosing the candidates\<close>

context outside
begin

lemma ends_tags: "ends A (get_all_docker_image_tags R config_path search_paths targets)"
proof -
  have find: "ends A (find_dockerfile paths name)" for paths name
    by (induction paths) (auto intro!: outside_intros)
  have tag: "ends A (calculate_tag_for_image R k n b)" for k n b
  proof (induction k arbitrary: n b)
    case (Suc k)
    show ?case unfolding calculate_tag_for_image.simps calculate_sha256_def os_realpath_def Let_def
      by (auto intro!: outside_intros find Suc.IH split: option.split)
  qed (simp add: ends_intros)
  have config: "ends A (load_config R b)" for b
    unfolding load_config_def load_images_config_def load_image_settings_def load_packages_def Let_def
    by (intro outside_intros | simp add: outside_intros split: prod.split option.split)+
  have configs: "ends A (load_image_configs paths)" for paths
    unfolding load_image_configs_def Let_def by (intro outside_intros | simp add: outside_intros split: json.split)+
  have order: "ends A (get_build_order R b targets)" for b
    unfolding get_build_order_def builder_dependency_subgraph_def get_dependency_subgraph_def Let_def
    by (auto intro!: outside_intros split: option.split)
  show ?thesis unfolding get_all_docker_image_tags_def DockerBuilder_def calculate_tags_def
    by (auto intro!: outside_intros config configs order tag)
qed

lemma ends_candidates: "ends A (get_images_to_cleanup R config_path search_paths days)"
  unfolding get_images_to_cleanup_def get_image_prefix_def get_images_def filter_allowed_images_def get_ignored_images_def Let_def
  by (auto intro!: outside_intros ends_tags split: option.split)

end

section \<open>The cancelled task\<close>

text \<open>From the \<open>n\<close>-th event on the cancel event is set.\<close>

definition doomed :: "nat \<Rightarrow> world \<Rightarrow> bool" where
  "doomed n w = (programs_end w \<and> (\<forall>t. n \<le> length t \<longrightarrow> w_cancel w t))"

interpretation dm: outside "doomed n" for n
  by unfold_locales (auto simp: doomed_def programs_end_def same_outside_def)

lemma wp_look: "wp poll_cancel Q E w = Q (w_cancel w (w_trace w)) (traced w (CancelSeen (w_cancel w (w_trace w))))"
  by (simp add: wp_def poll_cancel_def traced_def Let_def)

text \<open>The wait for a removal: every look at the event makes the trace longer.\<close>

text \<open>A removal that was terminated is over after at most \<open>m\<close> moments.\<close>

definition yields :: "nat \<Rightarrow> (event list \<Rightarrow> bool) \<Rightarrow> bool" where
  "yields m busy = (\<forall>t c. \<exists>k \<le> m. \<not> busy (t @ Terminate c # replicate k Waited))"

lemma terminated_wp:
  assumes "doomed n w" "yields m busy" "m < fuel"
  shows "wp (proc_wait busy fuel) (\<lambda>_. doomed n) E (traced w (Terminate c))"
proof -
  obtain k where k: "k \<le> m" "\<not> busy (w_trace w @ Terminate c # replicate k Waited)" using assms(2) unfolding yields_def by blast
  show ?thesis unfolding proc_wait_def
    by (rule wp_await [of k]) (use k assms in \<open>auto simp: wp_of_result doomed_def programs_end_def split: if_splits\<close>)
qed

lemma await_wp:
  assumes "yields m busy" "doomed n w" "Suc (n + m) < length (w_trace w) + fuel" "Suc m < fuel"
  shows "wp (await_removal busy fuel tag) (\<lambda>_. doomed n) (\<lambda>e w'. e \<noteq> Diverges \<and> doomed n w') w"
  using assms(2-4)
proof (induction fuel arbitrary: w)
  case (Suc fuel)
  let ?b = "w_cancel w (w_trace w)"
  have dm: "doomed n (traced w e)" for e using Suc.prems(1) by (simp add: doomed_def programs_end_def)
  have short: "\<not> ?b \<Longrightarrow> length (w_trace w) < n" using Suc.prems(1) by (auto simp: doomed_def not_le [symmetric])
  show ?case
  proof (cases "busy (w_trace w) \<and> \<not> ?b")
    case True
    with Suc.IH [OF dm [of "CancelSeen ?b"]] Suc.prems short show ?thesis by (simp add: wp_simps wp_look)
  next
    case False
    have "doomed n (traced (traced w (CancelSeen True)) e)" for e using Suc.prems(1) by (simp add: doomed_def programs_end_def)
    from terminated_wp [OF this assms(1), of fuel] False Suc.prems show ?thesis
      by (auto simp: wp_simps ext [OF wp_ret] wp_look)
  qed
qed simp

lemma ends_removal:
  assumes "yields m busy" "Suc (n + m) < fuel"
  shows "ends (doomed n) (batch_loop busy fuel interval batches)"
proof -
  have await: "ends (doomed n) (await_removal busy fuel tag)" for tag
    unfolding ends_def using assms by (auto intro: await_wp)
  have remove: "ends (doomed n) (remove_image busy fuel tag)" for tag
    unfolding remove_image_def report_removal_def by (auto intro!: dm.outside_intros await)
  have "ends (doomed n) (removal_loop busy fuel tags)" for tags
    by (induction tags) (auto intro!: dm.outside_intros remove)
  then have "ends (doomed n) (cleanup_images_batch busy fuel batch)" for batch
    unfolding cleanup_images_batch_def by (auto intro!: dm.outside_intros)
  then show ?thesis
    by (induction batches) (auto simp: event_wait_def intro!: dm.outside_intros)
qed

lemma cleanup_ends:
  assumes "yields m busy" "Suc (n + m) < fuel"
  shows "ends (doomed n) (cleanup_images R busy fuel config_path search_paths delay interval batch_size days)"
  unfolding cleanup_images_def event_wait_def
  by (auto intro!: dm.outside_intros dm.ends_candidates ends_removal [OF assms])

end
