(* ===== verification/Py_Text.thy ===== *)
theory Py_Text
  imports Py_Float
begin

text \<open>
  Text at the borders of the scripts: UTF-8 decoding with replacement, and points in time.
\<close>

section \<open>\<open>bytes.decode(errors="replace")\<close>\<close>

text \<open>The ranges of the bytes that continue a sequence begun by \<open>b\<close>.\<close>

definition utf8_ranges :: "nat \<Rightarrow> (nat \<times> nat) list option" where
  "utf8_ranges b =
     (let c = (0x80, 0xBF) in
      if b < 0x80 then Some []
      else if 0xC2 \<le> b \<and> b \<le> 0xDF then Some [c]
      else if b = 0xE0 then Some [(0xA0, 0xBF), c]
      else if b = 0xED then Some [(0x80, 0x9F), c]
      else if 0xE1 \<le> b \<and> b \<le> 0xEF then Some [c, c]
      else if b = 0xF0 then Some [(0x90, 0xBF), c, c]
      else if 0xF1 \<le> b \<and> b \<le> 0xF3 then Some [c, c, c]
      else if b = 0xF4 then Some [(0x80, 0x8F), c, c]
      else None)"

fun utf8_follows :: "(nat \<times> nat) list \<Rightarrow> string \<Rightarrow> nat" where
  "utf8_follows ((lo, hi) # rs) (c # cs) =
     (if lo \<le> of_char c \<and> of_char c \<le> hi then Suc (utf8_follows rs cs) else 0)"
| "utf8_follows _ _ = 0"

text \<open>The characters of the model are the code points below 256. U+FFFD and every other code point above
  is represented by one character, \<open>other_char\<close>, which is neither a space, a digit nor a separator.\<close>

definition other_char :: char where
  "other_char = CHR 0xFF"

definition utf8_char :: "char \<Rightarrow> string \<Rightarrow> char" where
  "utf8_char c follow =
     (let b = (of_char c :: nat) in
      if follow = [] then c
      else if b \<le> 0xC3 then char_of ((b - 0xC0) * 64 + (of_char (hd follow) - 0x80))
      else other_char)"

function decode_replace :: "string \<Rightarrow> string" where
  "decode_replace [] = []"
| "decode_replace (c # cs) =
     (case utf8_ranges (of_char c) of
        None \<Rightarrow> other_char # decode_replace cs
      | Some rs \<Rightarrow>
          let n = utf8_follows rs cs
          in (if n = length rs then utf8_char c (take n cs) else other_char) # decode_replace (drop n cs))"
  by pat_completeness auto
termination
  by (relation "measure length") auto

declare decode_replace.simps(2) [simp del]

lemma decode_ascii: "\<forall>c \<in> set s. (of_char c :: nat) < 0x80 \<Longrightarrow> decode_replace s = s"
  by (induction s) (auto simp: decode_replace.simps(2) utf8_ranges_def utf8_char_def Let_def)

lemma decode_length: "length (decode_replace s) \<le> length s"
proof (induction s rule: decode_replace.induct)
  case (2 c cs)
  show ?case
  proof (cases "utf8_ranges (of_char c)")
    case (Some rs)
    from 2(2) [OF Some refl] show ?thesis by (auto simp: decode_replace.simps(2) [of c cs] Some Let_def)
  qed (use 2(1) in \<open>simp add: decode_replace.simps(2) [of c cs]\<close>)
qed simp

section \<open>\<open>datetime.fromtimestamp(ts / 1000, timezone.utc)\<close>\<close>

text \<open>The date \<open>d\<close> days after 1970-01-01 in the proleptic Gregorian calendar.\<close>

definition civil_from_days :: "int \<Rightarrow> int \<times> int \<times> int" where
  "civil_from_days d =
     (let z = d + 719468;
          era = z div 146097;
          doe = z mod 146097;
          yoe = (doe - doe div 1460 + doe div 36524 - doe div 146096) div 365;
          doy = doe - (365 * yoe + yoe div 4 - yoe div 100);
          mp = (5 * doy + 2) div 153;
          day = doy - (153 * mp + 2) div 5 + 1;
          month = (if mp < 10 then mp + 3 else mp - 9)
      in (yoe + era * 400 + (if month \<le> 2 then 1 else 0), month, day))"

definition zero_pad :: "nat \<Rightarrow> int \<Rightarrow> string" where
  "zero_pad w n = replicate (w - length (str_int n)) (CHR ''0'') @ str_int n"

text \<open>\<open>isoformat()\<close> of a date and time in UTC.\<close>

definition iso_utc :: "int \<Rightarrow> int \<Rightarrow> string" where
  "iso_utc secs us =
     (let (y, m, d) = civil_from_days (secs div 86400); s = secs mod 86400
      in zero_pad 4 y @ ''-'' @ zero_pad 2 m @ ''-'' @ zero_pad 2 d @ ''T'' @
         zero_pad 2 (s div 3600) @ '':'' @ zero_pad 2 (s mod 3600 div 60) @ '':'' @ zero_pad 2 (s mod 60) @
         (if us = 0 then [] else ''.'' @ zero_pad 6 us) @ ''+00:00'')"

text \<open>A float of seconds as whole seconds and microseconds, rounded half to even.\<close>

definition split_seconds :: "rat \<Rightarrow> int \<times> int" where
  "split_seconds x =
     (let n = \<lfloor>x\<rfloor>; us = round_even (rnd ((x - of_int n) * 1000000))
      in if us \<ge> 1000000 then (n + 1, us - 1000000) else (n, us))"

text \<open>The ways the conversion fails: the quotient or the time exceed a C type, the year exceeds
  \<open>int\<close> in \<open>gmtime\<close>, the year exceeds 9999.\<close>

datatype time_error = TOverflow | TOSError | TValueError

definition fromtimestamp_ms :: "int \<Rightarrow> time_error + string" where
  "fromtimestamp_ms ts =
     (case int_truediv ts 1000 of
        None \<Rightarrow> Inl TOverflow
      | Some x \<Rightarrow>
          let (secs, us) = split_seconds x
          in if secs \<ge> 2 ^ 63 then Inl TOverflow
             else if secs > 67768036191676799 then Inl TOSError
             else if secs \<ge> 253402300800 then Inl TValueError
             else Inr (iso_utc secs us))"


section \<open>Which times are representable\<close>

lemma rnd_relative_error:
  assumes "1 / 1000 \<le> x" shows "\<bar>rnd x - x\<bar> \<le> x / 2 ^ 53"
proof -
  have pos: "0 < x" using assms by linarith
  have "pow2 (- 10) \<le> 1 / 1000" by (simp add: pow2_def)
  then have "pow2 (- 10) < pow2 (floor_log2 x + 1)" using floor_log2_bounds(2) [OF pos] assms by linarith
  then have "- 10 < floor_log2 x + 1" by (rule pow2_less_imp)
  then have u: "ulp_exp x = floor_log2 x - 52" using pos by (simp add: ulp_exp_def)
  have "pow2 (floor_log2 x) = 2 ^ 52 * pow2 (ulp_exp x)" using pow2_53(2) [of "ulp_exp x"] u by simp
  then have "2 ^ 52 * pow2 (ulp_exp x) \<le> x" using floor_log2_bounds(1) [OF pos] by simp
  then show ?thesis using rnd_error [of x] by (simp add: field_simps)
qed

lemma rnd_pow2_63: "rnd (2 ^ 63) = 2 ^ 63"
proof -
  have p: "pow2 63 = 2 ^ 63" "pow2 64 = 2 ^ 64" by (simp_all add: pow2_def)
  have b: "pow2 (floor_log2 (2 ^ 63)) \<le> 2 ^ 63" "2 ^ 63 < pow2 (floor_log2 (2 ^ 63) + 1)"
    using floor_log2_bounds [of "2 ^ 63"] by simp_all
  have "63 < floor_log2 (2 ^ 63) + 1" using b(2) p(1) by (intro pow2_less_imp) simp
  moreover have "floor_log2 (2 ^ 63) < 64" using b(1) p(2) by (intro pow2_less_imp) simp
  ultimately have "floor_log2 (2 ^ 63) = 63" by linarith
  then have "ulp_exp (2 ^ 63) = 11" by (simp add: ulp_exp_def)
  then have "rnd (2 ^ 63) = of_int (round_even (of_int (2 ^ 52))) * pow2 11"
    unfolding rnd_eq by (simp add: pow2_def)
  then show ?thesis unfolding round_even_of_int by (simp add: pow2_def)
qed

lemma time_overflow:
  assumes "1000 * 2 ^ 63 \<le> ts" shows "fromtimestamp_ms ts = Inl TOverflow"
proof -
  let ?x = "rnd (of_int ts / 1000)"
  have "of_int (1000 * 2 ^ 63) \<le> (of_int ts :: rat)" using assms by (simp only: of_int_le_iff)
  then have "(2 ^ 63 :: rat) \<le> of_int ts / 1000" by simp
  then have x: "2 ^ 63 \<le> ?x" using rnd_mono [of "2 ^ 63"] rnd_pow2_63 by simp
  then have "2 ^ 63 \<le> \<lfloor>?x\<rfloor>" by (simp add: le_floor_iff)
  then show ?thesis
    by (auto simp: fromtimestamp_ms_def int_truediv_def split_seconds_def Let_def split: option.split)
qed

lemma time_in_range:
  assumes "0 \<le> ts" "ts \<le> 253402300799999" shows "\<exists>s. fromtimestamp_ms ts = Inr s"
proof -
  let ?y = "of_int ts / 1000 :: rat"
  let ?x = "rnd ?y"
  let ?n = "\<lfloor>?x\<rfloor>"
  let ?f = "?x - of_int ?n"
  have y: "0 \<le> ?y" "?y \<le> 253402300799999 / 1000" using assms by (simp_all add: divide_right_mono)
  have err: "\<bar>rnd z - z\<bar> \<le> z / 2 ^ 53" if "z = 0 \<or> 1 / 1000 \<le> z" for z using that rnd_relative_error [of z] by auto
  have "?y = 0 \<or> 1 / 1000 \<le> ?y" using assms(1) by (cases "ts = 0") auto
  from err [OF this] have "?x \<le> ?y + ?y / 2 ^ 53" by (simp only: abs_le_iff) linarith
  moreover have "?y / 2 ^ 53 \<le> 253402300799999 / 1000 / 2 ^ 53" using y(2) by (rule divide_right_mono) simp
  ultimately have "?x \<le> 253402300799999 / 1000 + 253402300799999 / 1000 / 2 ^ 53" using y(2) by linarith
  then have x: "0 \<le> ?x" "?x \<le> 25340230079999904 / 100000" using rnd_nonneg [OF y(1)] by simp_all
  have fl: "of_int ?n \<le> ?x" "?x < of_int ?n + 1" using floor_correct [of ?x] by simp_all
  have n: "?n \<le> 253402300799" using x(2) by (simp add: floor_le_iff)
  have us: "round_even (rnd (?f * 1000000)) < 1000000" if "?n = 253402300799"
  proof -
    have "?f * 1000000 \<le> 999040" using x(2) that by simp
    moreover have "0 \<le> ?f * 1000000" using fl(1) by simp
    ultimately have "rnd (?f * 1000000) \<le> rnd 999040" by (intro rnd_mono)
    moreover have "rnd 999040 \<le> 999041"
    proof -
      have "\<bar>rnd 999040 - 999040\<bar> \<le> 999040 / 2 ^ 53" by (rule err) simp
      moreover have "(999040 / 2 ^ 53 :: rat) \<le> 1" by simp
      ultimately show ?thesis by linarith
    qed
    ultimately have "of_int (round_even (rnd (?f * 1000000))) < (1000000 :: rat)"
      using round_even_bounds(1) [of "rnd (?f * 1000000)"] by linarith
    then show ?thesis by linarith
  qed
  have "?x < pow2 1024"
  proof -
    have "?x < 2 ^ 64" using x(2) by simp
    also have "(2 ^ 64 :: rat) = pow2 64" by (simp add: pow2_def)
    also have "\<dots> \<le> pow2 1024" by (rule pow2_mono) simp
    finally show ?thesis .
  qed
  with x(1) have d: "int_truediv ts 1000 = Some ?x" by (simp add: int_truediv_def Let_def)
  have "fst (split_seconds ?x) < 253402300800"
  proof (cases "?n = 253402300799")
    case True
    have "\<not> 1000000 \<le> round_even (rnd (?f * 1000000))" using us [OF True] by linarith
    then show ?thesis unfolding split_seconds_def Let_def using True by (simp only: if_False fst_conv)
  next
    case False
    have "fst (split_seconds z) \<le> \<lfloor>z\<rfloor> + 1" for z by (simp add: split_seconds_def Let_def)
    from this [of ?x] False n show ?thesis by linarith
  qed
  then show ?thesis unfolding fromtimestamp_ms_def d by (auto simp: Let_def split: prod.split)
qed

end
