(* ===== verification/Container_Events.thy ===== *)
theory Container_Events
  imports Py_Text Py_Conversation
begin

text \<open>
  \<open>.devkit/scripts/container_event_handler.py\<close>: a thread that listens on a local TCP port for
  events of the container, and the variant of \<open>mbs/api/.devkit/scripts\<close> that also emits a latency
  metric. The sockets are a parameter: what \<open>listen\<close>, \<open>accept\<close> and \<open>recv\<close> answer, and at which moment, may depend on
  everything that happened before. \<open>accept\<close> and \<open>recv\<close> block: they wait as long as there is no answer. The loop of the
  listener and each wait are bounded by \<open>fuel\<close>.
\<close>

section \<open>Sockets and threads\<close>

text \<open>\<open>net_accept\<close> and \<open>net_recv\<close> say at every moment whether the call still waits (\<^const>\<open>None\<close>), has returned a
  connection or the bytes of it, or has raised.\<close>

record network =
  net_bind :: "event list \<Rightarrow> exn option"
  net_port :: int
  net_listen :: "event list \<Rightarrow> exn option"
  net_accept :: "event list \<Rightarrow> unit result option"
  net_recv :: "event list \<Rightarrow> string result option"
  net_shutdown :: "event list \<Rightarrow> exn option"

definition net_call :: "(event list \<Rightarrow> exn option) \<Rightarrow> unit py" where
  "net_call f = py_bind (py_get (\<lambda>w. f (w_trace w))) (\<lambda>r. case r of None \<Rightarrow> py_ret () | Some e \<Rightarrow> py_raise e)"

text \<open>\<open>SocketCancelEvent\<close>: \<open>set\<close> sets the event and shuts the socket down; errors of the socket are
  ignored.\<close>

definition socket_cancel_is_set :: "bool py" where
  "socket_cancel_is_set = poll_cancel"

definition socket_cancel_set :: "network \<Rightarrow> unit py" where
  "socket_cancel_set N =
     py_seq (emit (EventSet ''container_event''))
     (py_try (py_seq (net_call (net_shutdown N)) (emit SocketShutdown)) is_OSError (\<lambda>_. py_ret ()))"

section \<open>Events\<close>

text \<open>\<open>int(s)\<close>; the text of its \<open>ValueError\<close> is shortened.\<close>

definition to_int :: "string \<Rightarrow> int py" where
  "to_int s = of_opt (ValueError ''invalid literal for int() with base 10'') (py_int s)"

definition fromtimestamp :: "int \<Rightarrow> string py" where
  "fromtimestamp ts =
     (case fromtimestamp_ms ts of
        Inl TOverflow \<Rightarrow> py_raise OverflowError
      | Inl TOSError \<Rightarrow> py_raise (OSError ''Value too large for defined data type'')
      | Inl TValueError \<Rightarrow> py_raise (ValueError ''year is out of range'')
      | Inr s \<Rightarrow> py_ret s)"

text \<open>The inner \<open>try\<close>: \<open>metric\<close> is what happens after the latency has been logged.\<close>

definition report_latency :: "(string \<Rightarrow> unit py) \<Rightarrow> int \<Rightarrow> unit py" where
  "report_latency metric ts_end =
     py_bind (getenv ''DEVKIT_START_TIME_MS'') (\<lambda>start_time_env.
     case start_time_env of
       Some s \<Rightarrow>
         if s \<noteq> [] then
           py_try
             (py_bind (to_int s) (\<lambda>ts_start.
              py_seq (log_info ''Calculated latency until entrypoint end: %d ms'' [str_int (ts_end - ts_start)])
                (metric s)))
             is_ValueError
             (\<lambda>_. log_warning ''DEVKIT_START_TIME_MS is not a valid integer: %s'' [s])
         else log_warning ''DEVKIT_START_TIME_MS environment variable not found.'' []
     | None \<Rightarrow> log_warning ''DEVKIT_START_TIME_MS environment variable not found.'' [])"

definition handle_end_time :: "(string \<Rightarrow> string \<Rightarrow> unit py) \<Rightarrow> string \<Rightarrow> unit py" where
  "handle_end_time metric val =
     py_try
       (py_bind (to_int (py_strip val)) (\<lambda>ts_end.
        if ts_end < 0 then py_raise (ValueError ''Timestamp cannot be negative.'')
        else
          py_bind (fromtimestamp ts_end) (\<lambda>dt_end.
          py_seq (log_info ''Successfully parsed entrypoint end time: %s'' [dt_end])
            (report_latency (\<lambda>s. metric s val) ts_end))))
       is_ValueError
       (\<lambda>e. log_error ''Failed to parse entrypoint_end_time_ms: %s'' [exn_str e])"

definition handle_entrypoint_end_time_ms :: "string \<Rightarrow> unit py" where
  "handle_entrypoint_end_time_ms val = handle_end_time (\<lambda>_ _. py_ret ()) val"

definition dispatch_event :: "(string \<Rightarrow> unit py) \<Rightarrow> string \<Rightarrow> unit py" where
  "dispatch_event handle data =
     (let decoded_data = py_strip (decode_replace data) in
      py_seq (log_info ''Container event data: %s'' [decoded_data])
      (if CHR '':'' \<in> set decoded_data then
         (case split_once (CHR '':'') decoded_data of (event_name, event_value) \<Rightarrow>
          if event_name = ''entrypoint_end_time_ms'' then handle event_value
          else log_warning ''Unknown container event: %s'' [event_name])
       else log_warning ''Malformed container event: %s'' [decoded_data]))"

definition process_container_event :: "string \<Rightarrow> unit py" where
  "process_container_event data = dispatch_event handle_entrypoint_end_time_ms data"

section \<open>The listener\<close>

definition serve_data :: "(string \<Rightarrow> unit py) \<Rightarrow> string \<Rightarrow> bool py" where
  "serve_data process data =
     (if data = [] then py_ret True
      else py_seq (log_info ''Received event from container'' []) (py_seq (process data) (py_ret True)))"

definition serve_connection :: "(string \<Rightarrow> unit py) \<Rightarrow> network \<Rightarrow> nat \<Rightarrow> bool py" where
  "serve_connection process N fuel =
     py_seq (py_await fuel (net_accept N))
     (py_bind (py_await fuel (net_recv N)) (serve_data process))"

text \<open>The two \<open>except\<close> clauses; both leave the loop.\<close>

definition listener_failed :: "exn \<Rightarrow> bool py" where
  "listener_failed e =
     py_bind socket_cancel_is_set (\<lambda>is_set.
     py_seq (py_when (\<not> is_set)
       (if is_OSError e then log_error ''Error in container event listener: %s'' [exn_str e]
        else log_error ''Unexpected error in container event listener: %s'' [exn_str e]))
     (py_ret False))"

fun listen_loop :: "(string \<Rightarrow> unit py) \<Rightarrow> network \<Rightarrow> nat \<Rightarrow> unit py" where
  "listen_loop process N 0 = py_raise Diverges"
| "listen_loop process N (Suc fuel) =
     py_bind socket_cancel_is_set (\<lambda>is_set.
     if is_set then py_ret ()
     else
       py_bind (py_try (serve_connection process N fuel) is_Exception listener_failed) (\<lambda>again.
       if again then listen_loop process N fuel else py_ret ()))"

definition event_listener :: "(string \<Rightarrow> unit py) \<Rightarrow> network \<Rightarrow> nat \<Rightarrow> unit py" where
  "event_listener process N fuel =
     py_finally
       (py_try
         (py_seq (net_call (net_listen N))
         (py_seq (log_info ''Container event handler listening on TCP %s:%d'' [''127.0.0.1'', str_int (net_port N)])
           (listen_loop process N fuel)))
         is_Exception
         (\<lambda>e. log_error ''Failed in container event listener: %s'' [exn_str e]))
       (emit SocketClosed)"

definition container_event_listener :: "network \<Rightarrow> nat \<Rightarrow> unit py" where
  "container_event_listener N fuel = event_listener process_container_event N fuel"

definition start_handler :: "(network \<Rightarrow> nat \<Rightarrow> unit py) \<Rightarrow> network \<Rightarrow> nat \<Rightarrow> (thread \<times> int) py" where
  "start_handler listener N fuel =
     py_seq (net_call (net_bind N))
     (let th = \<lparr>th_name = ''ContainerEventHandler-'' @ str_int (net_port N), th_target = listener N fuel\<rparr>
      in py_seq (emit (ThreadStart (th_name th))) (py_ret (th, net_port N)))"

definition start_container_event_handler :: "network \<Rightarrow> nat \<Rightarrow> (thread \<times> int) py" where
  "start_container_event_handler N fuel = start_handler container_event_listener N fuel"

section \<open>The variant with metrics\<close>

text \<open>\<open>emit_metric\<close> is not part of the repository: a parameter, called with the name of the metric, the
  times and the fields.\<close>

type_synonym metric_sink = "string \<Rightarrow> (string \<times> string) list \<Rightarrow> (string \<times> string) list \<Rightarrow> unit py"

definition env_or_unknown :: "string \<Rightarrow> string py" where
  "env_or_unknown k = py_bind (getenv k) (\<lambda>v. py_ret (case v of Some s \<Rightarrow> s | None \<Rightarrow> ''unknown''))"

definition emit_latency_metric :: "metric_sink \<Rightarrow> string \<Rightarrow> string \<Rightarrow> unit py" where
  "emit_latency_metric emit_metric start_time end_time =
     py_try
       (py_bind (env_or_unknown ''METRICS_DEVKIT_COMMAND'') (\<lambda>command.
        py_bind (env_or_unknown ''METRICS_PROJECT_ID'') (\<lambda>project_id.
        emit_metric ''/corp/private_compute_infra_toolkit/devkit/latency''
          [(''start_time'', start_time), (''end_time'', end_time)]
          [(''command'', command), (''project_id'', project_id)])))
       is_Exception
       (\<lambda>e. log_warning ''Failed to emit metrics: %s'' [exn_str e])"

definition handle_entrypoint_end_time_metric :: "metric_sink \<Rightarrow> string \<Rightarrow> unit py" where
  "handle_entrypoint_end_time_metric emit_metric val = handle_end_time (emit_latency_metric emit_metric) val"

definition process_container_event_metric :: "metric_sink \<Rightarrow> string \<Rightarrow> unit py" where
  "process_container_event_metric emit_metric data =
     dispatch_event (handle_entrypoint_end_time_metric emit_metric) data"

definition container_event_listener_metric :: "metric_sink \<Rightarrow> network \<Rightarrow> nat \<Rightarrow> unit py" where
  "container_event_listener_metric emit_metric N fuel = event_listener (process_container_event_metric emit_metric) N fuel"

definition start_container_event_handler_metric :: "metric_sink \<Rightarrow> network \<Rightarrow> nat \<Rightarrow> (thread \<times> int) py" where
  "start_container_event_handler_metric emit_metric N fuel = start_handler (container_event_listener_metric emit_metric) N fuel"

end
