(* ===== verification/Container_Events_Spec.thy ===== *)
theory Container_Events_Spec
  imports Container_Events
begin

text \<open>
  What the event handler of \<open>.devkit/scripts/container_event_handler.py\<close> does with an event, and
  that its listener ends cleanly.
\<close>

section \<open>One event\<close>

text \<open>
  C30. An end time between 1970 and the end of the year 9999 is always accepted: it is logged as a
  date, and with a valid start time in the environment the difference of the two is logged as the latency.
\<close>
theorem end_time_reports_latency:
  assumes "py_int (py_strip val) = Some ts" "0 \<le> ts" "ts \<le> 253402300799999"
    and "map_of (w_environ w) ''DEVKIT_START_TIME_MS'' = Some s" "s \<noteq> []" "py_int s = Some start"
  shows "\<exists>date. handle_entrypoint_end_time_ms val w =
     (Ok (), w\<lparr>w_trace := w_trace w @
        [Log INFO ''Successfully parsed entrypoint end time: %s'' [date],
         Log INFO ''Calculated latency until entrypoint end: %d ms'' [str_int (ts - start)]]\<rparr>)"
proof -
  from time_in_range [OF assms(2,3)] obtain date where "fromtimestamp_ms ts = Inr date" ..
  with assms show ?thesis
    by (auto simp: handle_entrypoint_end_time_ms_def handle_end_time_def to_int_def fromtimestamp_def report_latency_def py_simps)
qed


definition started_world :: world where
  "started_world = world_of (FDir []) [(''DEVKIT_START_TIME_MS'', ''13'')] (\<lambda>_ _. Exited 0 [] [])"

theorem end_time_reports_latency_witness:
  "\<exists>date. handle_entrypoint_end_time_ms '' 25'' started_world =
     (Ok (), started_world\<lparr>w_trace :=
        [Log INFO ''Successfully parsed entrypoint end time: %s'' [date],
         Log INFO ''Calculated latency until entrypoint end: %d ms'' [''12'']]\<rparr>)"
proof -
  have "py_int (py_strip '' 25'') = Some 25" "py_int ''13'' = Some 13"
    "str_int (25 - 13) = ''12''" by code_simp+
  with end_time_reports_latency [of "'' 25''" 25 started_world "''13''" 13]
  show ?thesis by (simp add: started_world_def world_of_def)
qed

section \<open>The listener\<close>

text \<open>What the sockets raise is an \<open>Exception\<close>.\<close>

definition network_ok :: "network \<Rightarrow> bool" where
  "network_ok N = ((\<forall>t e. net_listen N t = Some e \<longrightarrow> is_Exception e) \<and>
     (\<forall>t e. net_accept N t = Some (Exc e) \<longrightarrow> is_Exception e) \<and> (\<forall>t e. net_recv N t = Some (Exc e) \<longrightarrow> is_Exception e))"

text \<open>Every connection sends something, is closed or fails before \<open>recv\<close> has waited for more than \<open>m\<close> moments.\<close>

definition talkative :: "nat \<Rightarrow> network \<Rightarrow> bool" where
  "talkative m N = (\<forall>t. \<exists>k \<le> m. net_recv N (t @ replicate k Waited) \<noteq> None)"

definition listening :: "network \<Rightarrow> event" where
  "listening N = Log INFO ''Container event handler listening on TCP %s:%d'' [''127.0.0.1'', str_int (net_port N)]"

lemma wp_poll: "wp socket_cancel_is_set Q E w = Q (w_cancel w (w_trace w)) (traced w (CancelSeen (w_cancel w (w_trace w))))"
  by (simp add: socket_cancel_is_set_def wp_def poll_cancel_def Let_def traced_def)

text \<open>The world after a computation that only adds to the trace.\<close>

definition later :: "world \<Rightarrow> world \<Rightarrow> bool" where
  "later w w' = (same_outside w w' \<and> length (w_trace w) \<le> length (w_trace w'))"

lemma starts_later:
  assumes "starts_only P m" "wp m Q E w"
  shows "wp m (\<lambda>x w'. Q x w' \<and> later w w') (\<lambda>e w'. E e w' \<and> later w w') w"
  using assms unfolding starts_only_does later_def
  by (elim allE [of _ w]) (auto simp: does_def wp_def split: prod.splits result.splits)

text \<open>What the listener relies on when it hands the data of an event over: only an \<open>Exception\<close> is raised, and
  the trace only grows.\<close>

locale event_processor =
  fixes process :: "string \<Rightarrow> unit py"
  assumes process_errors: "wp (process data) (\<lambda>_ _. True) (\<lambda>e _. is_Exception e) w"
    and process_grows: "starts_only (\<lambda>_. True) (process data)"
begin

lemma wp_serve:
  "wp (serve_connection process N fuel) Q E w = wp (py_await fuel (net_accept N))
     (\<lambda>_. wp (py_await fuel (net_recv N)) (\<lambda>data. wp (serve_data process data) Q E) E) E w"
  by (simp add: serve_connection_def wp_seq ext [OF wp_bind])

lemma data_errors:
  "wp (serve_data process data) (\<lambda>_ _. True) (\<lambda>e _. is_Exception e) w"
  by (auto simp: serve_data_def wp_simps intro: wp_mono [OF process_errors])

lemma serve_grows: "starts_only (\<lambda>_. True) (serve_connection process N fuel)"
  unfolding serve_connection_def serve_data_def by (auto intro!: so.script_rules so.frame_await process_grows simp: only_spawns_def)

lemma serve_errors:
  assumes "network_ok N"
  shows "wp (serve_connection process N fuel) (\<lambda>_ w'. later w w') (\<lambda>e w'. (is_Exception e \<or> e = Diverges) \<and> later w w') w"
proof -
  have "wp (serve_connection process N fuel) (\<lambda>_ _. True) (\<lambda>e _. is_Exception e \<or> e = Diverges) w"
    unfolding wp_serve using assms
    by (auto simp: network_ok_def wp_of_result intro!: wp_await_any wp_mono [OF data_errors] split: result.split)
  from starts_later [OF serve_grows this] show ?thesis by (rule wp_mono) auto
qed

text \<open>A call of \<open>accept\<close> that is over by moment \<open>n\<close>, and one of \<open>recv\<close> that waits for at most \<open>m\<close> moments.\<close>

lemma serve_returns:
  assumes "network_ok N" "talkative m N" "\<And>t. n \<le> length t \<Longrightarrow> net_accept N t \<noteq> None"
    and "n < length (w_trace w) + fuel" "m < fuel"
  shows "wp (serve_connection process N fuel) (\<lambda>_ w'. later w w') (\<lambda>e w'. is_Exception e \<and> later w w') w"
proof -
  have recv: "wp (py_await fuel (net_recv N)) (\<lambda>data. wp (serve_data process data) (\<lambda>_ _. True) (\<lambda>e _. is_Exception e))
      (\<lambda>e _. is_Exception e) w'" for w'
  proof -
    obtain k where "k \<le> m" "net_recv N (w_trace w' @ replicate k Waited) \<noteq> None" using assms(2) unfolding talkative_def by blast
    with assms(1,5) show ?thesis
      by (intro wp_await [of k]) (auto simp: network_ok_def wp_of_result intro!: data_errors split: result.split)
  qed
  have "net_accept N (w_trace w @ replicate (n - length (w_trace w)) Waited) \<noteq> None" by (intro assms(3)) simp
  moreover have "n - length (w_trace w) < fuel" using assms(4,5) by simp
  ultimately have "wp (serve_connection process N fuel) (\<lambda>_ _. True) (\<lambda>e _. is_Exception e) w"
    unfolding wp_serve using assms(1) recv
    by (intro wp_await [of "n - length (w_trace w)"]) (auto simp: network_ok_def wp_of_result split: result.split)
  from starts_later [OF serve_grows this] show ?thesis by (rule wp_mono) auto
qed

lemma failed_ends: "wp (listener_failed e) (\<lambda>again. wp (if again then listen_loop process N fuel else py_ret ())
    (\<lambda>_ _. True) E) E w"
  by (simp add: listener_failed_def wp_simps wp_poll)

lemma loop_errors:
  assumes "network_ok N"
  shows "wp (listen_loop process N fuel) (\<lambda>_ _. True) (\<lambda>e _. e = Diverges) w"
proof (induction fuel arbitrary: w)
  case (Suc fuel)
  show ?case
    unfolding listen_loop.simps wp_bind wp_poll wp_try
    using Suc.IH failed_ends
    by (auto simp: wp_simps is_Exception_def intro!: wp_mono [OF serve_errors [OF assms]])
qed simp

lemma loop_ends:
  assumes "\<And>t. n \<le> length t \<Longrightarrow> w_cancel w t" "\<And>t. n \<le> length t \<Longrightarrow> net_accept N t \<noteq> None"
    and "network_ok N" "talkative m N" "Suc (n + m) < length (w_trace w) + fuel" "m < fuel"
  shows "wp (listen_loop process N fuel) (\<lambda>_ _. True) (\<lambda>_ _. False) w"
  using assms(1,5,6)
proof (induction fuel arbitrary: w)
  case (Suc fuel)
  show ?case
  proof (cases "w_cancel w (w_trace w)")
    case True
    then show ?thesis by (simp add: wp_bind wp_poll)
  next
    case False
    let ?w = "traced w (CancelSeen False)"
    from False Suc.prems(1) have short: "length (w_trace w) < n" by (meson not_le)
    have again: "wp (if again then listen_loop process N fuel else py_ret ()) (\<lambda>_ _. True) (\<lambda>_ _. False) w'"
      if "later ?w w'" for again w'
    proof -
      have "w_cancel w' = w_cancel w" "length (w_trace w) < length (w_trace w')"
        using that by (auto simp: later_def same_outside_def)
      with Suc.IH [of w'] Suc.prems short show ?thesis by simp
    qed
    have serve: "wp (serve_connection process N fuel) (\<lambda>_ w'. later ?w w') (\<lambda>e w'. is_Exception e \<and> later ?w w') ?w"
      by (rule serve_returns [OF assms(3,4,2)]) (use Suc.prems(2) short in \<open>simp_all, linarith+\<close>)
    show ?thesis
      unfolding listen_loop.simps wp_bind wp_poll wp_try using False
      by (simp only: if_False wp_bind wp_try)
        (rule wp_mono [OF serve], rule again, assumption, simp only: if_True failed_ends)
  qed
qed simp

lemma listener_end:
  assumes "wp (listen_loop process N fuel) (\<lambda>_ _. True) (\<lambda>e _. E e) (traced w (listening N))"
    and "network_ok N" "\<And>e. E e \<Longrightarrow> \<not> is_Exception e" "event_listener process N fuel w = (r, w')"
  shows "(r = Ok () \<or> (\<exists>e. r = Exc e \<and> E e)) \<and> last (w_trace w') = SocketClosed"
proof -
  let ?inner = "py_try (py_seq (net_call (net_listen N)) (py_seq (log_info ''Container event handler listening on TCP %s:%d''
      [''127.0.0.1'', str_int (net_port N)]) (listen_loop process N fuel)))
    is_Exception (\<lambda>e. log_error ''Failed in container event listener: %s'' [exn_str e])"
  have "wp ?inner (\<lambda>_ _. True) (\<lambda>e _. E e) w"
    using assms(1-3) by (auto simp: wp_simps net_call_def network_ok_def listening_def split: option.split elim!: wp_mono)
  moreover obtain r1 w1 where "?inner w = (r1, w1)" by fastforce
  ultimately show ?thesis using assms(4)
    by (cases r1) (auto simp: wp_def event_listener_def py_finally_def emit_def)
qed

lemma closes_socket:
  assumes "network_ok N" "event_listener process N fuel w = (r, w')"
  shows "(r = Ok () \<or> r = Exc Diverges) \<and> last (w_trace w') = SocketClosed"
  using listener_end [OF loop_errors [OF assms(1)] assms(1) _ assms(2)] by (auto simp: is_Exception_def)

lemma ends_when_cancelled:
  assumes "\<And>t. n \<le> length t \<Longrightarrow> w_cancel w t \<and> net_accept N t \<noteq> None"
    and "network_ok N" "talkative m N" "Suc (n + m) < fuel" "event_listener process N fuel w = (r, w')"
  shows "r = Ok () \<and> last (w_trace w') = SocketClosed"
proof -
  have "wp (listen_loop process N fuel) (\<lambda>_ _. True) (\<lambda>e _. False) (traced w (listening N))"
    by (rule loop_ends [of n _ _ m]) (use assms(1-4) in auto)
  from listener_end [OF this assms(2) _ assms(5)] show ?thesis by simp
qed

end

text \<open>Both variants of the handler are such processors; the one with metrics, whatever \<open>emit_metric\<close> raises, as
  long as it is an \<open>Exception\<close>.\<close>

lemma handle_errors:
  assumes "\<And>s v w. wp (metric s v) (\<lambda>_ _. True) (\<lambda>e _. is_Exception e) w"
  shows "wp (dispatch_event (handle_end_time metric) data) (\<lambda>_ _. True) (\<lambda>e _. is_Exception e) w"
  by (auto simp: dispatch_event_def handle_end_time_def to_int_def fromtimestamp_def report_latency_def
      getenv_def wp_simps is_Exception_def is_ValueError_def Let_def intro!: wp_mono [OF assms]
      split: option.split sum.split time_error.split prod.split)

lemma handle_grows:
  assumes "\<And>s v. starts_only P (metric s v)"
  shows "starts_only P (dispatch_event (handle_end_time metric) data)"
  unfolding dispatch_event_def handle_end_time_def to_int_def fromtimestamp_def report_latency_def Let_def
  by (auto intro!: so.script_rules assms split: option.split sum.split time_error.split prod.split)

lemma process_container_event_eq: "process_container_event data = dispatch_event (handle_end_time (\<lambda>_ _. py_ret ())) data"
  unfolding process_container_event_def handle_entrypoint_end_time_ms_def [abs_def] ..

interpretation pe: event_processor process_container_event
  by unfold_locales (auto simp: process_container_event_eq intro!: handle_errors handle_grows so.frame_basic)




definition steady_network :: "unit result option \<Rightarrow> string result option \<Rightarrow> network" where
  "steady_network accepted received = \<lparr>net_bind = (\<lambda>_. None), net_port = 4000, net_listen = (\<lambda>_. None),
     net_accept = (\<lambda>_. accepted), net_recv = (\<lambda>_. received), net_shutdown = (\<lambda>_. None)\<rparr>"


text \<open>
  C40. A timestamp that does not fit the platform's time type is not reported as a parse error:
  \<open>OverflowError\<close> escapes the handler of the event and ends the listener, although nobody cancelled it.
\<close>
theorem oversized_timestamp_ends_listener:
  assumes "data \<noteq> []" "py_strip (decode_replace data) = ''entrypoint_end_time_ms'' @ CHR '':'' # val"
    and "py_int (py_strip val) = Some ts" "1000 * 2 ^ 63 \<le> ts"
    and "net_listen N (w_trace w) = None" "\<And>t. net_accept N t = Some (Ok ())" "\<And>t. net_recv N t = Some (Ok data)"
    and "w_cancel w = (\<lambda>_. False)" "1 < fuel"
  shows "container_event_listener N fuel w = (Ok (), w\<lparr>w_trace := w_trace w @
     [Log INFO ''Container event handler listening on TCP %s:%d'' [''127.0.0.1'', str_int (net_port N)],
      CancelSeen False, Log INFO ''Received event from container'' [],
      Log INFO ''Container event data: %s'' [''entrypoint_end_time_ms'' @ CHR '':'' # val],
      CancelSeen False, Log ERROR ''Unexpected error in container event listener: %s'' [''OverflowError''],
      SocketClosed]\<rparr>)"
proof -
  obtain k where fuel: "fuel = Suc (Suc k)" using assms(9) by (cases fuel; cases "fuel - 1") auto
  have neg: "\<not> ts < 0" using assms(4) by simp
  have handle: "handle_entrypoint_end_time_ms val w1 = (Exc OverflowError, w1)" for w1
    using assms(3) neg time_overflow [OF assms(4)]
    by (simp add: handle_entrypoint_end_time_ms_def handle_end_time_def to_int_def fromtimestamp_def py_simps is_ValueError_def)
  have split: "split_once (CHR '':'') (''entrypoint_end_time_ms'' @ CHR '':'' # val) = (''entrypoint_end_time_ms'', val)"
    by (rule split_once_append) simp
  have "process_container_event data w1 = (Exc OverflowError, w1\<lparr>w_trace := w_trace w1 @
      [Log INFO ''Container event data: %s'' [''entrypoint_end_time_ms'' @ CHR '':'' # val]]\<rparr>)" for w1
    unfolding process_container_event_def dispatch_event_def assms(2) split Let_def prod.case
    by (simp add: py_simps handle)
  then show ?thesis
    by (simp add: container_event_listener_def event_listener_def fuel net_call_def socket_cancel_is_set_def poll_cancel_def
        serve_connection_def serve_data_def listener_failed_def py_finally_def py_simps of_result_def assms(1,5,6,7,8) is_Exception_def is_OSError_def exn_str_def)
qed

definition huge_event :: string where
  "huge_event = ''entrypoint_end_time_ms:9223372036854775808000''"

theorem oversized_timestamp_ends_listener_witness:
  "\<exists>w'. container_event_listener (steady_network (Some (Ok ())) (Some (Ok huge_event))) 5 started_world = (Ok (), w') \<and>
     Log ERROR ''Unexpected error in container event listener: %s'' [''OverflowError''] \<in> set (w_trace w')"
proof -
  let ?v = "''9223372036854775808000''" and ?N = "steady_network (Some (Ok ())) (Some (Ok huge_event))"
  have v: "str_int (1000 * 2 ^ 63) = ?v" by (simp add: str_int_def str_nat.simps digit_char_def, code_simp)
  have i: "py_int (py_strip ?v) = Some (1000 * 2 ^ 63)"
    using py_int_str_int [of "1000 * 2 ^ 63"] unfolding py_strip_str_int [of "1000 * 2 ^ 63", unfolded v] v by simp
  have d: "py_strip (decode_replace huge_event) = ''entrypoint_end_time_ms'' @ CHR '':'' # ?v" by code_simp
  have n: "huge_event \<noteq> []" "net_listen ?N (w_trace started_world) = None" "\<And>t. net_accept ?N t = Some (Ok ())"
    "\<And>t. net_recv ?N t = Some (Ok huge_event)" "w_cancel started_world = (\<lambda>_. False)"
    by (simp_all add: huge_event_def steady_network_def started_world_def world_of_def)
  show ?thesis
    unfolding oversized_timestamp_ends_listener [OF n(1) d i order_refl n(2,3,4,5), of 5, simplified] by simp
qed

section \<open>Cancelling ends the listener\<close>

text \<open>
  The listener runs beside the thread that cancels it. \<open>M t\<close> is what that thread has done at the moment at which the trace
  of the listener is \<open>t\<close>. The listener sees the event set when that thread has set it, and a socket that was shut down
  wakes the \<open>accept\<close> that waits on it.
\<close>

definition observes :: "string \<Rightarrow> (event list \<Rightarrow> event list) \<Rightarrow> world \<Rightarrow> bool" where
  "observes name M w = (\<forall>t. w_cancel w t = (EventSet name \<in> set (M t)))"

definition wakes :: "network \<Rightarrow> (event list \<Rightarrow> event list) \<Rightarrow> bool" where
  "wakes N M = (\<forall>t. SocketShutdown \<in> set (M t) \<longrightarrow> net_accept N t \<noteq> None)"

text \<open>From the \<open>n\<close>-th moment on the other thread has done \<open>es\<close>.\<close>

definition done_by :: "nat \<Rightarrow> event list \<Rightarrow> (event list \<Rightarrow> event list) \<Rightarrow> bool" where
  "done_by n es M = (\<forall>t. n \<le> length t \<longrightarrow> prefix es (M t))"

lemma done_by_sees: "done_by n es M \<Longrightarrow> e \<in> set es \<Longrightarrow> n \<le> length t \<Longrightarrow> e \<in> set (M t)"
  using set_mono_prefix unfolding done_by_def by blast

lemma cancelled_moments:
  assumes "done_by n es M" "observes ''container_event'' M w" "wakes N M"
    and "EventSet ''container_event'' \<in> set es" "SocketShutdown \<in> set es" "n \<le> length t"
  shows "w_cancel w t \<and> net_accept N t \<noteq> None"
  using assms(2,3) done_by_sees [OF assms(1) _ assms(6)] assms(4,5) unfolding observes_def wakes_def by blast


lemma listener_ends_when_cancelled:
  assumes "done_by n es M" "observes ''container_event'' M w" "wakes N M"
    and "EventSet ''container_event'' \<in> set es" "SocketShutdown \<in> set es"
    and "network_ok N" "talkative m N" "Suc (n + m) < fuel" "container_event_listener N fuel w = (r, w')"
  shows "r = Ok () \<and> last (w_trace w') = SocketClosed"
  using pe.ends_when_cancelled [OF cancelled_moments [OF assms(1-5)] assms(6-8)] assms(9) by (simp add: container_event_listener_def)










end
