(* ===== verification/Coverage_Report.thy ===== *)
theory Coverage_Report
  imports Project_Root Py_Argparse
begin

text \<open>
  \<open>.devkit/scripts/coverage_report.py\<close>: reads the LCOV report of a coverage run, prints a summary
  and checks it against thresholds; and the variant of \<open>container-tools/.devkit/scripts\<close>, which looks
  for the report below the project root only.
\<close>

section \<open>Coverage of a file\<close>

record file_coverage =
  file_path :: string
  lines_found :: int
  lines_hit :: int
  branches_found :: int
  branches_hit :: int
  uncovered_lines :: "int list"
  uncovered_branches :: "(int \<times> int \<times> int) list"

definition FileCoverage :: "string \<Rightarrow> file_coverage" where
  "FileCoverage p = \<lparr>file_path = p, lines_found = 0, lines_hit = 0, branches_found = 0, branches_hit = 0,
     uncovered_lines = [], uncovered_branches = []\<rparr>"

definition coverage_ratio :: "int \<Rightarrow> int \<Rightarrow> pyfloat result" where
  "coverage_ratio hit found =
     (if found = 0 then Ok (Fin 1)
      else case int_truediv hit found of Some x \<Rightarrow> Ok (Fin x) | None \<Rightarrow> Exc OverflowError)"

definition line_coverage_percent :: "file_coverage \<Rightarrow> pyfloat result" where
  "line_coverage_percent fc = coverage_ratio (lines_hit fc) (lines_found fc)"

definition branch_coverage_percent :: "file_coverage \<Rightarrow> pyfloat result" where
  "branch_coverage_percent fc = coverage_ratio (branches_hit fc) (branches_found fc)"

text \<open>\<open>s[i:]\<close>\<close>

definition slice_from :: "int \<Rightarrow> string \<Rightarrow> string" where
  "slice_from i s = (if 0 \<le> i then drop (nat i) s else drop (nat (max 0 (int (length s) + i))) s)"

definition fit_to_column :: "string \<Rightarrow> int \<Rightarrow> string" where
  "fit_to_column filepath max_width =
     (if int (length filepath) > max_width then ''...'' @ slice_from (- (max_width - 3)) filepath
      else filepath @ replicate (nat (max_width - int (length filepath))) (CHR '' ''))"

definition generate_summary_line :: "file_coverage \<Rightarrow> pyfloat \<Rightarrow> pyfloat \<Rightarrow> string result" where
  "generate_summary_line fc target_lines target_branch =
     r_bind (line_coverage_percent fc) (\<lambda>l.
     r_bind (branch_coverage_percent fc) (\<lambda>b.
     Ok (fit_to_column (file_path fc) 50 @ '' | '' @ percent7_2 l @ '' / '' @ percent7_2 target_lines @ '' | '' @
         percent7_2 b @ '' / '' @ percent7_2 target_branch)))"

definition branch_text :: "int \<times> int \<times> int \<Rightarrow> string" where
  "branch_text = (\<lambda>(line, block, branch).
     ''Line '' @ str_int line @ '': (block: '' @ str_int block @ '', branch: '' @ str_int branch @ '')'')"

definition get_missing_branches_str :: "file_coverage \<Rightarrow> string" where
  "get_missing_branches_str fc = py_join [CHR 0x0A] (map branch_text (uncovered_branches fc))"

definition range_text :: "int \<Rightarrow> int \<Rightarrow> string" where
  "range_text a b = (if a = b then str_int a else str_int a @ ''-'' @ str_int b)"

text \<open>The loop of \<open>group_consecutive_numbers\<close>: the range begun at \<open>start\<close> has reached \<open>prev\<close>.\<close>

fun group_loop :: "int \<Rightarrow> int \<Rightarrow> int list \<Rightarrow> string list" where
  "group_loop start prev [] = [range_text start prev]"
| "group_loop start prev (n # ns) =
     (if n \<noteq> prev + 1 then range_text start prev # group_loop n n ns else group_loop start n ns)"

definition group_consecutive_numbers :: "int list \<Rightarrow> string" where
  "group_consecutive_numbers numbers =
     (case sort numbers of [] \<Rightarrow> [] | n # ns \<Rightarrow> py_join '', '' (group_loop n n ns))"

definition generate_missing_coverage_report :: "file_coverage \<Rightarrow> string" where
  "generate_missing_coverage_report fc =
     (if uncovered_lines fc = [] \<and> uncovered_branches fc = [] then []
      else
        (let uncovered_lines_str = group_consecutive_numbers (uncovered_lines fc);
             uncovered_branches_str = get_missing_branches_str fc
         in [CHR 0x0A] @ ''File: '' @ file_path fc @ [CHR 0x0A] @
            (if uncovered_lines_str \<noteq> [] then ''Lines to test: '' @ uncovered_lines_str @ [CHR 0x0A] else []) @
            (if uncovered_branches_str \<noteq> [] then ''Branches to test:'' @ [CHR 0x0A] @ uncovered_branches_str else [])))"

section \<open>The report\<close>

type_synonym coverage_map = "(string \<times> file_coverage) list"
type_synonym thresholds = "(string \<times> pyfloat) list"

definition threshold_for :: "thresholds \<Rightarrow> pyfloat \<Rightarrow> string \<Rightarrow> pyfloat" where
  "threshold_for ts dflt p = (case map_of ts p of Some t \<Rightarrow> t | None \<Rightarrow> dflt)"

text \<open>One turn of the first loop: the state is the verdict and the two overall sums.\<close>

definition report_file ::
  "pyfloat \<Rightarrow> pyfloat \<Rightarrow> thresholds \<Rightarrow> thresholds \<Rightarrow> nat \<Rightarrow> string \<times> file_coverage \<Rightarrow>
   bool \<times> pyfloat \<times> pyfloat \<Rightarrow> (bool \<times> pyfloat \<times> pyfloat) py" where
  "report_file lines_threshold branch_threshold file_lines_thresholds file_branch_thresholds n_files entry st =
     (case entry of (_, fc) \<Rightarrow>
      case st of (is_coverage_valid, overall_lines, overall_branch) \<Rightarrow>
      py_bind (of_result (line_coverage_percent fc)) (\<lambda>lines_cov.
      py_bind (of_result (branch_coverage_percent fc)) (\<lambda>branch_cov.
      let target_lines = threshold_for file_lines_thresholds lines_threshold (file_path fc);
          target_branch = threshold_for file_branch_thresholds branch_threshold (file_path fc);
          n = rnd (of_nat n_files)
      in py_bind (of_result (generate_summary_line fc target_lines target_branch)) (\<lambda>line.
         py_seq (py_print line)
         (py_ret (is_coverage_valid \<and> \<not> (f_less lines_cov target_lines \<or> f_less branch_cov target_branch),
            f_add overall_lines (f_div_pos lines_cov n), f_add overall_branch (f_div_pos branch_cov n)))))))"

definition report_missing :: "string \<times> file_coverage \<Rightarrow> bool \<Rightarrow> bool py" where
  "report_missing entry any_missing_coverage =
     (let report = generate_missing_coverage_report (snd entry)
      in if report \<noteq> [] then py_seq (py_print report) (py_ret True) else py_ret any_missing_coverage)"

definition print_and_validate_report ::
  "coverage_map \<Rightarrow> pyfloat \<Rightarrow> pyfloat \<Rightarrow> thresholds \<Rightarrow> thresholds \<Rightarrow> bool py" where
  "print_and_validate_report coverage_data lines_threshold branch_threshold file_lines_thresholds file_branch_thresholds =
     py_seq (py_print (pad_right 50 ''file'' @ '' | '' @ pad_right 17 ''Lines %'' @ '' | Branches %''))
     (py_seq (py_print (replicate 90 (CHR ''-'')))
     (py_bind (py_fold
        (report_file lines_threshold branch_threshold file_lines_thresholds file_branch_thresholds (length coverage_data))
        coverage_data (True, Fin 0, Fin 0)) (\<lambda>(is_coverage_valid, overall_lines, overall_branch).
      py_seq (py_print (replicate 90 (CHR ''-'')))
      (py_seq (py_print (pad_right 50 ''Total'' @ '' | '' @ pad_right 17 (percent7_2 overall_lines) @ '' | '' @ percent7_2 overall_branch))
      (py_seq (py_print ([CHR 0x0A] @ ''--- Missing Coverage ---''))
      (py_bind (py_fold report_missing coverage_data False) (\<lambda>any_missing_coverage.
       py_seq (py_when (\<not> any_missing_coverage) (py_print ''All covered!''))
       (py_ret is_coverage_valid))))))))"

section \<open>Parsing\<close>

definition lcov_int :: "string \<Rightarrow> int result" where
  "lcov_int s = (case py_int s of Some n \<Rightarrow> Ok n | None \<Rightarrow> Exc (ValueError ''invalid literal for int() with base 10''))"

definition part :: "string list \<Rightarrow> nat \<Rightarrow> string result" where
  "part parts i = (if i < length parts then Ok (parts ! i) else Exc IndexError)"

definition parse_lcov_data_line :: "string \<Rightarrow> file_coverage \<Rightarrow> file_coverage result" where
  "parse_lcov_data_line line fc =
     (if py_startswith line ''LF:'' then r_bind (lcov_int (py_replace ''LF:'' [] line)) (\<lambda>n. Ok (fc\<lparr>lines_found := n\<rparr>))
      else if py_startswith line ''LH:'' then r_bind (lcov_int (py_replace ''LH:'' [] line)) (\<lambda>n. Ok (fc\<lparr>lines_hit := n\<rparr>))
      else if py_startswith line ''BRF:'' then r_bind (lcov_int (py_replace ''BRF:'' [] line)) (\<lambda>n. Ok (fc\<lparr>branches_found := n\<rparr>))
      else if py_startswith line ''BRH:'' then r_bind (lcov_int (py_replace ''BRH:'' [] line)) (\<lambda>n. Ok (fc\<lparr>branches_hit := n\<rparr>))
      else if py_startswith line ''DA:'' then
        (let parts = split_on (CHR '','') line in
         r_bind (r_bind (part parts 0) (\<lambda>p. lcov_int (py_replace ''DA:'' [] p))) (\<lambda>line_number.
         r_bind (r_bind (part parts 1) lcov_int) (\<lambda>hit_count.
         Ok (if hit_count = 0 then fc\<lparr>uncovered_lines := uncovered_lines fc @ [line_number]\<rparr> else fc))))
      else if py_startswith line ''BRDA'' then
        (let parts = split_on (CHR '','') line in
         r_bind (r_bind (part parts 0) (\<lambda>p. lcov_int (py_replace ''BRDA:'' [] p))) (\<lambda>line_number.
         r_bind (r_bind (part parts 1) lcov_int) (\<lambda>block_id.
         r_bind (r_bind (part parts 2) lcov_int) (\<lambda>branch_id.
         r_bind (part parts 3) (\<lambda>hit_marker.
         Ok (if hit_marker = ''-''
             then fc\<lparr>uncovered_branches := uncovered_branches fc @ [(line_number, block_id, branch_id)]\<rparr> else fc))))))
      else Ok fc)"

text \<open>One line of the file: the records so far and the current source file.\<close>

definition lcov_line :: "string \<Rightarrow> coverage_map \<times> string option \<Rightarrow> (coverage_map \<times> string option) result" where
  "lcov_line raw st =
     (case st of (coverage_data, current_file_path) \<Rightarrow>
      let line = py_strip raw in
      if py_startswith line ''SF:'' then
        (let p = py_replace ''SF:'' [] line in Ok (dict_put p (FileCoverage p) coverage_data, Some p))
      else if line = ''end_of_record'' then Ok (coverage_data, None)
      else
        (case current_file_path of
           Some p \<Rightarrow>
             if p \<noteq> [] then
               (case map_of coverage_data p of
                  Some fc \<Rightarrow> r_bind (parse_lcov_data_line line fc) (\<lambda>fc'. Ok (dict_put p fc' coverage_data, Some p))
                | None \<Rightarrow> Ok (coverage_data, current_file_path))
             else Ok (coverage_data, current_file_path)
         | None \<Rightarrow> Ok (coverage_data, current_file_path)))"

fun parse_lcov :: "string list \<Rightarrow> coverage_map \<times> string option \<Rightarrow> (coverage_map \<times> string option) result" where
  "parse_lcov [] st = Ok st"
| "parse_lcov (l # ls) st = r_bind (lcov_line l st) (parse_lcov ls)"

definition generate_lcov_report :: "path \<Rightarrow> pyfloat \<Rightarrow> pyfloat \<Rightarrow> thresholds \<Rightarrow> thresholds \<Rightarrow> bool py" where
  "generate_lcov_report p lines_threshold branch_threshold file_lines_thresholds file_branch_thresholds =
     py_try
       (py_bind (read_file p) (\<lambda>content.
        py_bind (of_result (parse_lcov (file_lines content) ([], None))) (\<lambda>(coverage_data, _).
        print_and_validate_report coverage_data lines_threshold branch_threshold file_lines_thresholds file_branch_thresholds)))
       is_FileNotFound
       (\<lambda>_. py_seq (py_print (''File not found: '' @ path_str p)) (py_ret False))"

section \<open>Running the coverage\<close>

definition report_below :: "path \<Rightarrow> path" where
  "report_below d = path_sub (path_sub (path_sub d ''bazel-out'') ''_coverage'') ''_coverage_report.dat''"

definition coverage_command :: "path \<Rightarrow> string \<Rightarrow> string list" where
  "coverage_command project_root target =
     [path_str (path_sub (path_sub project_root ''devkit'') ''build''), ''bazel'', ''coverage'', ''--combined_report=lcov'', target]"

definition bazel_failed :: "exn \<Rightarrow> path py" where
  "bazel_failed e =
     (case e of
        CalledProcessError cmd n out err \<Rightarrow>
          py_seq (py_eprint (''Error: Bazel coverage failed with exit code '' @ str_int n @ ''.''))
          (py_seq (py_when (out \<noteq> []) (py_eprint (''STDOUT:'' @ [CHR 0x0A] @ out)))
          (py_seq (py_when (err \<noteq> []) (py_eprint (''STDERR:'' @ [CHR 0x0A] @ err)))
          (sys_exit 1)))
      | _ \<Rightarrow> py_raise e)"

text \<open>
  What bazel does to the files is a parameter: the files it leaves behind when it was started with a command on the files it found,
  whether it then succeeds or not.
\<close>

type_synonym bazel = "string list \<Rightarrow> fnode \<Rightarrow> fnode"

definition run_bazel :: "bazel \<Rightarrow> string list \<Rightarrow> unit py" where
  "run_bazel B cmd =
     py_bind (run_proc cmd) (\<lambda>(n, _). \<lambda>w.
       (if n = 0 then Ok () else Exc (CalledProcessError cmd n '''' ''''), w\<lparr>w_fs := B cmd (w_fs w)\<rparr>))"

definition run_bazel_coverage :: "bazel \<Rightarrow> string \<Rightarrow> path py" where
  "run_bazel_coverage B target =
     py_bind find_project_root (\<lambda>project_root.
     py_try
       (py_bind (run_bazel B (coverage_command project_root target)) (\<lambda>_.
        py_bind (py_get cwd_path) (\<lambda>cwd.
        py_bind (path_exists (report_below cwd)) (\<lambda>e.
        if e then py_ret (report_below cwd) else py_ret (report_below project_root)))))
       is_CalledProcess bazel_failed)"

text \<open>The variant of \<open>container-tools\<close>.\<close>

definition run_bazel_coverage_root :: "bazel \<Rightarrow> string \<Rightarrow> path py" where
  "run_bazel_coverage_root B target =
     py_bind find_project_root (\<lambda>project_root.
     py_try
       (py_bind (run_bazel B (coverage_command project_root target)) (\<lambda>_. py_ret (report_below project_root)))
       is_CalledProcess bazel_failed)"

section \<open>Thresholds\<close>

text \<open>\<open>float(v)\<close> of a JSON value.\<close>

definition json_float :: "json \<Rightarrow> pyfloat result" where
  "json_float v =
     (case v of
        JInt n \<Rightarrow> (case int_truediv n 1 of Some x \<Rightarrow> Ok (Fin x) | None \<Rightarrow> Exc OverflowError)
      | JFloat x \<Rightarrow> Ok x
      | JBool b \<Rightarrow> Ok (Fin (if b then 1 else 0))
      | JStr s \<Rightarrow> (case py_float s of Some x \<Rightarrow> Ok x | None \<Rightarrow> Exc (ValueError ''could not convert string to float''))
      | _ \<Rightarrow> Exc TypeError)"

definition in_percent :: "pyfloat \<Rightarrow> bool" where
  "in_percent x = (f_le (Fin 0) x \<and> f_le x (Fin 100))"

text \<open>The two blocks \<open>if "lines" in values\<close> and \<open>if "branch" in values\<close>.\<close>

definition threshold_entry :: "string \<Rightarrow> string \<Rightarrow> string \<Rightarrow> (string \<times> json) list \<Rightarrow> thresholds \<Rightarrow> thresholds result" where
  "threshold_entry key label filepath d ts =
     (case map_of d key of
        None \<Rightarrow> Ok ts
      | Some v \<Rightarrow>
          r_bind (json_float v) (\<lambda>x.
          if \<not> in_percent x then Exc (ValueError (label @ '' for '' @ filepath @ '' must be in [0.0, 100.0]''))
          else Ok (dict_put filepath (f_div_pos x 100) ts)))"

fun threshold_entries :: "(string \<times> json) list \<Rightarrow> thresholds \<times> thresholds \<Rightarrow> (thresholds \<times> thresholds) result" where
  "threshold_entries [] st = Ok st"
| "threshold_entries ((filepath, values) # es) (line_min, branch_min) =
     (case values of
        JObj d \<Rightarrow>
          r_bind (threshold_entry ''lines'' ''Lines'' filepath d line_min) (\<lambda>line_min.
          r_bind (threshold_entry ''branch'' ''Branch'' filepath d branch_min) (\<lambda>branch_min.
          threshold_entries es (line_min, branch_min)))
      | _ \<Rightarrow> Exc (ValueError (''Values for '' @ filepath @ '' must be a JSON object.'')))"

definition parse_thresholds_file :: "path \<Rightarrow> (thresholds \<times> thresholds) py" where
  "parse_thresholds_file p =
     py_try
       (py_bind (json_load p) (\<lambda>thresholds_data.
        case thresholds_data of
          JObj d \<Rightarrow> of_result (threshold_entries d ([], []))
        | _ \<Rightarrow> py_raise (ValueError ''Root element must be a JSON object.'')))
       (\<lambda>e. is_FileNotFound e \<or> is_ValueError e)
       (\<lambda>e. py_seq (py_print (''Error reading thresholds file: '' @ exn_str e)) (sys_exit 1))"

section \<open>The program\<close>

definition coverage_parser :: parser where
  "coverage_parser = \<lparr>p_opts =
     [help_opt,
      mk_opt [''--target''] ''target'' NOne,
      (mk_opt [''--lines''] ''lines'' NOne)\<lparr>o_type := is_float\<rparr>,
      (mk_opt [''--branch''] ''branch'' NOne)\<lparr>o_type := is_float\<rparr>,
      mk_opt [''--thresholds-file''] ''thresholds_file'' NOne,
      mk_opt [''--devkit-log-file''] ''devkit_log_file'' NOne],
     p_positional = None\<rparr>"

definition percent_arg :: "namespace \<Rightarrow> string \<Rightarrow> pyfloat" where
  "percent_arg args d = (case Option.bind (arg_value args d) py_float of Some x \<Rightarrow> x | None \<Rightarrow> Fin 100)"

definition check_percent :: "string \<Rightarrow> pyfloat \<Rightarrow> unit py" where
  "check_percent name x =
     py_when (\<not> in_percent x)
       (py_seq (py_print (''Error: '' @ name @ '' threshold value must be in range [0.0, 100.0]'')) (sys_exit 1))"

definition load_thresholds :: "namespace \<Rightarrow> (thresholds \<times> thresholds) py" where
  "load_thresholds args =
     (case arg_value args ''thresholds_file'' of
        Some f \<Rightarrow> parse_thresholds_file (path_of f) | None \<Rightarrow> py_ret ([], []))"

definition coverage_program :: "(string \<Rightarrow> path py) \<Rightarrow> string list \<Rightarrow> unit py" where
  "coverage_program run argv =
     py_bind (parse_args coverage_parser argv) (\<lambda>args.
     py_seq (basic_config (arg_value args ''devkit_log_file''))
     (py_seq (check_percent ''Branch'' (percent_arg args ''branch''))
     (py_seq (check_percent ''Lines'' (percent_arg args ''lines''))
     (py_bind (load_thresholds args) (\<lambda>(line_min, branch_min).
      py_seq (log_info ''Running Bazel Coverage'' [])
      (py_bind (run (arg_default args ''target'' ''//...'')) (\<lambda>report_path.
       py_seq (log_info ''Generating coverage report'' [])
       (py_bind (generate_lcov_report report_path (f_div_pos (percent_arg args ''lines'') 100)
                   (f_div_pos (percent_arg args ''branch'') 100) line_min branch_min) (\<lambda>coverage_passed.
        if coverage_passed then py_print ''Coverage check passed.''
        else py_seq (py_print ''Coverage check failed.'') (sys_exit 1))))))))))"

definition coverage_main :: "bazel \<Rightarrow> string list \<Rightarrow> unit py" where
  "coverage_main B argv = coverage_program (run_bazel_coverage B) argv"

definition coverage_main_root :: "bazel \<Rightarrow> string list \<Rightarrow> unit py" where
  "coverage_main_root B argv = coverage_program (run_bazel_coverage_root B) argv"

end
