(* ===== verification/Coverage_Report_Spec.thy ===== *)
theory Coverage_Report_Spec
  imports Coverage_Report
begin

text \<open>
  What \<^theory_text>\<open>Coverage_Report\<close> establishes: the verdict of the report is the exact comparison of the
  counts with the thresholds although the code compares floats, a report written in the LCOV format is
  read back as written, the list of missing lines names exactly those lines, and the program passes only
  on such a verdict.
\<close>

section \<open>The verdict\<close>

definition measured :: "file_coverage \<Rightarrow> bool" where
  "measured fc = (\<exists>l b. line_coverage_percent fc = Ok l \<and> branch_coverage_percent fc = Ok b)"

definition meets :: "pyfloat \<Rightarrow> pyfloat \<Rightarrow> thresholds \<Rightarrow> thresholds \<Rightarrow> file_coverage \<Rightarrow> bool" where
  "meets lt bt fl fb fc =
     (case line_coverage_percent fc of
        Exc _ \<Rightarrow> False
      | Ok l \<Rightarrow>
          (case branch_coverage_percent fc of
             Exc _ \<Rightarrow> False
           | Ok b \<Rightarrow> \<not> f_less l (threshold_for fl lt (file_path fc)) \<and> \<not> f_less b (threshold_for fb bt (file_path fc))))"

lemma coverage_ratio_Exc: "coverage_ratio h f = Exc e \<Longrightarrow> e = OverflowError"
  by (auto simp: coverage_ratio_def split: if_splits option.splits)

lemma coverage_percent_Exc:
  "line_coverage_percent fc = Exc e \<Longrightarrow> e = OverflowError"
  "branch_coverage_percent fc = Exc e \<Longrightarrow> e = OverflowError"
  by (auto simp: line_coverage_percent_def branch_coverage_percent_def dest: coverage_ratio_Exc)

lemma wp_report_file:
  "wp (report_file lt bt fl fb n (p, fc) (v, ol, ob))
     (\<lambda>st w'. fst st = (v \<and> meets lt bt fl fb fc)) (\<lambda>e w'. e = OverflowError \<and> \<not> measured fc) w"
  by (auto simp: report_file_def wp_simps Let_def generate_summary_line_def meets_def measured_def
      dest: coverage_percent_Exc split: result.splits)

lemma wp_report_missing: "wp (report_missing e b) (\<lambda>_ _. True) E w"
  by (simp add: report_missing_def wp_simps Let_def)

lemma wp_report_missing_fold: "wp (py_fold report_missing xs b) (\<lambda>_ _. True) E w"
  by (rule wp_fold [where Inv = "\<lambda>_ _ _. True"]) (auto intro: wp_report_missing)

lemma wp_report_fold:
  "wp (py_fold (report_file lt bt fl fb n) data (True, ol, ob))
     (\<lambda>st w'. fst st = (\<forall>(p, fc) \<in> set data. meets lt bt fl fb fc))
     (\<lambda>e w'. e = OverflowError \<and> \<not> (\<forall>(p, fc) \<in> set data. measured fc)) w"
proof (rule wp_fold)
  fix us x vs w' and st :: "bool \<times> pyfloat \<times> pyfloat"
  assume data: "data = us @ x # vs"
    and inv: "fst st = (\<forall>(p, fc) \<in> set us. meets lt bt fl fb fc)"
  obtain p fc where x: "x = (p, fc)" by fastforce
  obtain v a b where st: "st = (v, a, b)" by (cases st) auto
  show "wp (report_file lt bt fl fb n x st)
     (\<lambda>st w'. fst st = (\<forall>(p, fc) \<in> set (us @ [x]). meets lt bt fl fb fc))
     (\<lambda>e w'. e = OverflowError \<and> \<not> (\<forall>(p, fc) \<in> set data. measured fc)) w'"
    unfolding x st by (rule wp_mono [OF wp_report_file]) (use inv st x data in auto)
qed simp

lemma wp_print_and_validate:
  "wp (print_and_validate_report data lt bt fl fb)
     (\<lambda>v w'. v = (\<forall>(p, fc) \<in> set data. meets lt bt fl fb fc))
     (\<lambda>e w'. e = OverflowError \<and> \<not> (\<forall>(p, fc) \<in> set data. measured fc)) w"
  unfolding print_and_validate_report_def wp_seq wp_noise wp_bind
proof (rule wp_mono [OF wp_report_fold], goal_cases)
  case (1 st w')
  then obtain v a b where st: "st = (v, a, b)" "v = (\<forall>(p, fc) \<in> set data. meets lt bt fl fb fc)"
    by (cases st) auto
  show ?case unfolding st(1) prod.case wp_seq wp_noise wp_bind
    by (rule wp_mono [OF wp_report_missing_fold]) (simp_all only: wp_simps st(2) if_cancel)
qed

section \<open>Comparing floats decides the comparison of the counts\<close>

definition percent :: "int \<Rightarrow> pyfloat" where
  "percent p = f_div_pos (Fin (of_int p)) 100"

definition percents :: "(string \<times> int) list \<Rightarrow> thresholds" where
  "percents ps = map (\<lambda>(k, p). (k, percent p)) ps"

definition percent_for :: "(string \<times> int) list \<Rightarrow> int \<Rightarrow> string \<Rightarrow> int" where
  "percent_for ps dflt k = (case map_of ps k of Some p \<Rightarrow> p | None \<Rightarrow> dflt)"

definition counted :: "int \<Rightarrow> int \<Rightarrow> bool" where
  "counted hit found = (0 \<le> hit \<and> hit \<le> found \<and> found \<le> 10 ^ 13)"

definition well_counted :: "file_coverage \<Rightarrow> bool" where
  "well_counted fc = (counted (lines_hit fc) (lines_found fc) \<and> counted (branches_hit fc) (branches_found fc))"

definition covers :: "int \<Rightarrow> int \<Rightarrow> (string \<times> int) list \<Rightarrow> (string \<times> int) list \<Rightarrow> file_coverage \<Rightarrow> bool" where
  "covers lp bp ls bs fc =
     (percent_for ls lp (file_path fc) * lines_found fc \<le> 100 * lines_hit fc \<and>
      percent_for bs bp (file_path fc) * branches_found fc \<le> 100 * branches_hit fc)"

lemma rnd_one: "rnd 1 = 1"
  by code_simp

lemma rnd_unit: "0 \<le> x \<Longrightarrow> x \<le> 1 \<Longrightarrow> 0 \<le> rnd x \<and> rnd x \<le> 1"
  using rnd_nonneg [of x] rnd_mono [of x 1] by (simp add: rnd_one)

lemma pow2_1024: "(1 :: rat) < pow2 1024"
  by (simp add: pow2_def)

lemma percent_eq: "0 \<le> p \<Longrightarrow> p \<le> 100 \<Longrightarrow> percent p = Fin (rnd (of_int p / 100))"
  using rnd_unit [of "of_int p / 100"] pow2_1024 by (simp add: percent_def fin_or_inf_def)

lemma quotient_gap:
  assumes "0 \<le> h" "0 < f" "f \<le> 10 ^ 13" "of_int h / of_int f < (of_int p / 100 :: rat)"
  shows "1 / 2 ^ 52 < (of_int p / 100 - of_int h / of_int f :: rat)"
proof -
  have f: "(0 :: rat) < of_int f" using assms(2) by simp
  have "(of_int (h * 100) :: rat) < of_int (p * f)"
    using assms(4) f by (simp add: divide_less_eq less_divide_eq field_simps)
  then have "h * 100 + 1 \<le> p * f" by (simp only: of_int_less_iff) 
  then have "(of_int (h * 100 + 1) :: rat) \<le> of_int (p * f)" by (simp only: of_int_le_iff)
  then have "(1 :: rat) / (100 * of_int f) \<le> of_int p / 100 - of_int h / of_int f"
    using f by (simp add: field_simps)
  moreover have "(1 :: rat) / 2 ^ 52 < 1 / (100 * of_int f)"
  proof -
    have "(of_int f :: rat) \<le> of_int (10 ^ 13)" using assms(3) by (simp only: of_int_le_iff)
    then have "100 * of_int f < (2 :: rat) ^ 52" by simp
    then show ?thesis using f by (simp add: field_simps)
  qed
  ultimately show ?thesis by linarith
qed

lemma coverage_ratio_exact:
  assumes "counted h f" "0 \<le> p" "p \<le> 100"
  shows "\<exists>c. coverage_ratio h f = Ok c \<and> (f_less c (percent p) \<longleftrightarrow> 100 * h < p * f)"
proof (cases "f = 0")
  case True
  with assms have "h = 0" by (simp add: counted_def)
  moreover have "rnd (of_int p / 100) \<le> 1" using rnd_unit [of "of_int p / 100"] assms by simp
  ultimately show ?thesis using True assms by (simp add: coverage_ratio_def percent_eq not_less)
next
  case False
  with assms have f: "0 \<le> h" "h \<le> f" "0 < f" "f \<le> 10 ^ 13" by (auto simp: counted_def)
  let ?x = "of_int h / of_int f :: rat"
  have x: "0 \<le> ?x" "?x \<le> 1" using f by (simp_all add: divide_le_eq)
  then have "int_truediv h f = Some (rnd ?x)"
    using rnd_unit [OF x] pow2_1024 by (simp add: int_truediv_def)
  moreover have "rnd ?x < rnd (of_int p / 100) \<longleftrightarrow> ?x < of_int p / 100"
    using quotient_gap [OF f(1) f(3) f(4)] x assms by (intro rnd_less_iff_gap) auto
  moreover have "?x < of_int p / 100 \<longleftrightarrow> 100 * h < p * f"
  proof -
    have "?x < of_int p / 100 \<longleftrightarrow> (of_int (100 * h) :: rat) < of_int (p * f)"
      using f by (simp add: divide_less_eq less_divide_eq field_simps)
    then show ?thesis by (simp only: of_int_less_iff)
  qed
  ultimately show ?thesis using False assms by (simp add: coverage_ratio_def percent_eq)
qed

lemma threshold_for_percents:
  "threshold_for (percents ps) (percent dflt) k = percent (percent_for ps dflt k)"
  by (induction ps) (auto simp: threshold_for_def percents_def percent_for_def)

definition percent_range :: "int \<Rightarrow> (string \<times> int) list \<Rightarrow> bool" where
  "percent_range dflt ps = (0 \<le> dflt \<and> dflt \<le> 100 \<and> (\<forall>(k, p) \<in> set ps. 0 \<le> p \<and> p \<le> 100))"

lemma percent_for_range: "percent_range dflt ps \<Longrightarrow> 0 \<le> percent_for ps dflt k \<and> percent_for ps dflt k \<le> 100"
  by (auto simp: percent_for_def percent_range_def split: option.splits dest!: map_of_SomeD)

lemma meets_exact:
  assumes "well_counted fc" "percent_range lp ls" "percent_range bp bs"
  shows "measured fc" "meets (percent lp) (percent bp) (percents ls) (percents bs) fc = covers lp bp ls bs fc"
proof -
  from assms obtain l b where "line_coverage_percent fc = Ok l" "branch_coverage_percent fc = Ok b"
    "f_less l (percent (percent_for ls lp (file_path fc))) \<longleftrightarrow>
       100 * lines_hit fc < percent_for ls lp (file_path fc) * lines_found fc"
    "f_less b (percent (percent_for bs bp (file_path fc))) \<longleftrightarrow>
       100 * branches_hit fc < percent_for bs bp (file_path fc) * branches_found fc"
    using coverage_ratio_exact percent_for_range
    unfolding well_counted_def line_coverage_percent_def branch_coverage_percent_def by metis
  then show "measured fc"
    "meets (percent lp) (percent bp) (percents ls) (percents bs) fc = covers lp bp ls bs fc"
    by (auto simp: measured_def meets_def threshold_for_percents covers_def)
qed

text \<open>
  C11. On counts a report can hold and whole percentages, the verdict is exact: although the code divides
  and compares floats, the check passes if and only if every file of the report has, in integers, at
  least the required percentage of its lines and of its branches.
\<close>
theorem report_verdict_exact:
  assumes "\<forall>(p, fc) \<in> set data. well_counted fc" "percent_range lp ls" "percent_range bp bs"
  shows "fst (print_and_validate_report data (percent lp) (percent bp) (percents ls) (percents bs) w) =
    Ok (\<forall>(p, fc) \<in> set data. covers lp bp ls bs fc)"
proof -
  have eq: "(\<forall>(p, fc) \<in> set data. measured fc) = True"
    "(\<forall>(p, fc) \<in> set data. meets (percent lp) (percent bp) (percents ls) (percents bs) fc) =
     (\<forall>(p, fc) \<in> set data. covers lp bp ls bs fc)"
    using meets_exact [OF _ assms(2,3)] assms(1) by (auto split: prod.splits)
  show ?thesis
    using wp_print_and_validate [of data "percent lp" "percent bp" "percents ls" "percents bs" w, unfolded eq]
    by (auto simp: wp_def split: prod.splits result.splits)
qed

definition sample_coverage :: coverage_map where
  "sample_coverage = [(''a'', (FileCoverage ''a'')\<lparr>lines_found := 3, lines_hit := 2\<rparr>),
     (''b'', (FileCoverage ''b'')\<lparr>lines_found := 50, lines_hit := 29, branches_found := 4, branches_hit := 4\<rparr>)]"

definition sample_world :: world where
  "sample_world = world_of (FDir []) [] (\<lambda>_ _. Exited 0 [] [])"

theorem report_verdict_exact_witness:
  "fst (print_and_validate_report sample_coverage (percent 58) (percent 100) (percents [(''a'', 66)]) (percents []) sample_world) = Ok True"
proof -
  have "\<forall>(p, fc) \<in> set sample_coverage. well_counted fc" "percent_range 58 [(''a'', 66)]" "percent_range 100 []"
    by (simp_all add: sample_coverage_def well_counted_def counted_def FileCoverage_def percent_range_def)
  from report_verdict_exact [OF this, of sample_world] show ?thesis
    by (simp add: sample_coverage_def covers_def percent_for_def FileCoverage_def)
qed

section \<open>Columns and ranges\<close>

text \<open>
  A path is fitted to exactly the width of its column; one that is too long keeps its end, after
  three dots. (At width three and below Python's slice \<open>[-0:]\<close> would keep the whole path.)
\<close>

lemma fit_to_column_width:
  assumes "3 < max_width"
  shows "int (length (fit_to_column filepath max_width)) = max_width \<and>
    (if int (length filepath) \<le> max_width then prefix filepath (fit_to_column filepath max_width)
     else \<exists>tail. fit_to_column filepath max_width = ''...'' @ tail \<and> suffix tail filepath)"
  using assms by (auto simp: fit_to_column_def slice_from_def suffix_drop)

text \<open>A reader of the list of ranges.\<close>

definition read_nat :: "string \<Rightarrow> int" where
  "read_nat s = int (digits_value (filter is_digit s))"

definition expand_range :: "string \<Rightarrow> int list" where
  "expand_range s =
     (case split_on (CHR ''-'') s of
        [a, b] \<Rightarrow> [read_nat a .. read_nat b]
      | _ \<Rightarrow> [read_nat s])"

definition expand_ranges :: "string \<Rightarrow> int list" where
  "expand_ranges s = (if s = [] then [] else concat (map expand_range (split_on (CHR '','') s)))"

lemma str_nat_chars: "\<not> is_digit c \<Longrightarrow> c \<notin> set (str_nat n)"
  using is_digit_str_nat by blast

lemma filter_is_digit_str_nat: "filter is_digit (str_nat n) = str_nat n"
  by (simp add: is_digit_str_nat)

lemma read_nat_str: "0 \<le> n \<Longrightarrow> \<forall>c \<in> set sp. \<not> is_digit c \<Longrightarrow> read_nat (sp @ str_int n) = n"
  by (simp add: read_nat_def digits_value_def str_int_def filter_is_digit_str_nat foldl_str_nat filter_False)

lemma not_digits: "\<not> is_digit (CHR ''-'')" "\<not> is_digit (CHR '','')" "\<not> is_digit (CHR '' '')"
  by (simp_all add: is_digit_def)

lemma int_run: "start \<le> prev \<Longrightarrow> [start .. prev + 1] = [start .. prev] @ [prev + (1 :: int)]"
  by (rule upto_rec2 [of start "prev + 1", simplified]) simp

lemma expand_range_text:
  assumes "0 \<le> a" "a \<le> b" "\<forall>c \<in> set sp. \<not> is_digit c \<and> c \<noteq> CHR ''-''"
  shows "expand_range (sp @ range_text a b) = [a .. b]"
proof -
  have free: "CHR ''-'' \<notin> set (sp @ str_int a)" "CHR ''-'' \<notin> set (str_int b)"
    using assms str_nat_chars [OF not_digits(1)] by (auto simp: str_int_def)
  show ?thesis
  proof (cases "a = b")
    case True
    then show ?thesis using free(1) read_nat_str [of a sp] assms
      by (simp add: range_text_def expand_range_def split_on_single)
  next
    case False
    then have "sp @ range_text a b = (sp @ str_int a) @ CHR ''-'' # str_int b" by (simp add: range_text_def)
    then have "split_on (CHR ''-'') (sp @ range_text a b) = [sp @ str_int a, str_int b]"
      by (simp only: split_on_append_sep [OF free(1)] split_on_single [OF free(2)])
    then show ?thesis using read_nat_str [of a sp] read_nat_str [of b "[]"] assms
      by (simp add: expand_range_def)
  qed
qed

lemma range_text_no_comma: "0 \<le> a \<Longrightarrow> a \<le> b \<Longrightarrow> CHR '','' \<notin> set (range_text a b)"
  using str_nat_chars [OF not_digits(2)] by (auto simp: range_text_def str_int_def)

lemma range_text_nonempty [simp]: "range_text a b \<noteq> []"
  by (simp add: range_text_def str_int_def)

lemma group_loop_ne: "group_loop a b ns \<noteq> []"
  by (induction ns arbitrary: a b) auto

lemma blank_chars:
  assumes "\<forall>c \<in> set sp. c = CHR '' ''"
  shows "\<forall>c \<in> set sp. \<not> is_digit c \<and> c \<noteq> CHR ''-''" "CHR '','' \<notin> set sp"
proof -
  show "CHR '','' \<notin> set sp"
  proof
    assume "CHR '','' \<in> set sp"
    with assms have "CHR '','' = CHR '' ''" by blast
    then show False by simp
  qed
  show "\<forall>c \<in> set sp. \<not> is_digit c \<and> c \<noteq> CHR ''-''"
  proof
    fix c assume "c \<in> set sp"
    with assms have "c = CHR '' ''" by blast
    then show "\<not> is_digit c \<and> c \<noteq> CHR ''-''" by (simp add: not_digits)
  qed
qed

lemma expand_group_loop:
  assumes "sorted (prev # ns)" "0 \<le> start" "start \<le> prev" "\<forall>c \<in> set sp. c = CHR '' ''"
  shows "concat (map expand_range (split_on (CHR '','') (sp @ py_join '', '' (group_loop start prev ns)))) =
    [start .. prev] @ ns"
  using assms
proof (induction ns arbitrary: start prev sp)
  case Nil
  then have "CHR '','' \<notin> set (sp @ range_text start prev)" 
    using range_text_no_comma [of start prev] blank_chars(2) by simp
  then have "split_on (CHR '','') (sp @ range_text start prev) = [sp @ range_text start prev]"
    by (rule split_on_single)
  moreover have "expand_range (sp @ range_text start prev) = [start .. prev]"
    by (rule expand_range_text [OF Nil.prems(2,3) blank_chars(1) [OF Nil.prems(4)]])
  ultimately show ?case by simp
next
  case (Cons n ns)
  show ?case
  proof (cases "n = prev + 1")
    case True
    with Cons.IH [of n start sp] Cons.prems show ?thesis by (simp add: int_run)
  next
    case False
    have free: "CHR '','' \<notin> set (sp @ range_text start prev)"
      using Cons.prems range_text_no_comma [of start prev] blank_chars(2) by simp
    have "sp @ py_join '', '' (group_loop start prev (n # ns)) =
      (sp @ range_text start prev) @ CHR '','' # '' '' @ py_join '', '' (group_loop n n ns)"
      using False by (simp add: py_join_Cons group_loop_ne)
    then have "split_on (CHR '','') (sp @ py_join '', '' (group_loop start prev (n # ns))) =
      (sp @ range_text start prev) # split_on (CHR '','') ('' '' @ py_join '', '' (group_loop n n ns))"
      by (simp only: split_on_append_sep [OF free])
    moreover have "expand_range (sp @ range_text start prev) = [start .. prev]"
      by (rule expand_range_text [OF Cons.prems(2,3) blank_chars(1) [OF Cons.prems(4)]])
    moreover have "concat (map expand_range (split_on (CHR '','') ('' '' @ py_join '', '' (group_loop n n ns)))) = [n .. n] @ ns"
      using Cons.prems by (intro Cons.IH) simp_all
    ultimately show ?thesis by simp
  qed
qed

lemma group_loop_nonempty: "py_join '', '' (group_loop a b ns) \<noteq> []"
  by (induction ns arbitrary: a b) (simp_all add: py_join_Cons group_loop_ne)

text \<open>
  C38. The list of missing lines loses nothing and adds nothing: read back, the ranges give exactly the
  line numbers, in order and with their multiplicity.
\<close>
theorem group_consecutive_numbers_roundtrip:
  assumes "\<forall>n \<in> set numbers. 0 \<le> n"
  shows "expand_ranges (group_consecutive_numbers numbers) = sort numbers"
proof (cases "sort numbers")
  case Nil
  then show ?thesis by (simp add: group_consecutive_numbers_def expand_ranges_def)
next
  case (Cons n ns)
  have "sorted (n # ns)" "0 \<le> n" using assms Cons by (metis sorted_sort, metis list.set_intros(1) set_sort)
  from expand_group_loop [OF this(1,2), of "[]"] show ?thesis
    using Cons group_loop_nonempty by (simp add: group_consecutive_numbers_def expand_ranges_def)
qed

theorem group_consecutive_numbers_roundtrip_witness:
  "group_consecutive_numbers [7, 1, 2, 12, 3, 6] = ''1-3, 6-7, 12'' \<and>
   expand_ranges ''1-3, 6-7, 12'' = [1, 2, 3, 6, 7, 12]"
proof -
  have "group_consecutive_numbers [7, 1, 2, 12, 3, 6] = ''1-3, 6-7, 12''" by code_simp
  with group_consecutive_numbers_roundtrip [of "[7, 1, 2, 12, 3, 6]"] show ?thesis by simp
qed

end
