(* ===== verification/Coverage_Lcov.thy ===== *)
theory Coverage_Lcov
  imports Coverage_Report_Spec
begin

text \<open>
  The LCOV reader of \<^theory_text>\<open>Coverage_Report\<close> against a writer of the format.
\<close>

section \<open>Writing and reading a report\<close>

text \<open>
  The data lines of a record, in any order and number. The count of a branch is missing when its block was never entered;
  a line may have a checksum; the lines that describe functions or tests, comments and empty lines are of no
  interest to the reader.
\<close>

datatype lcov_item =
    LF int | LH int | BRF int | BRH int
  | DA int int "string option"
  | BRDA int int int "int option"
  | Other string

fun item_line :: "lcov_item \<Rightarrow> string" where
  "item_line (LF n) = ''LF:'' @ str_int n"
| "item_line (LH n) = ''LH:'' @ str_int n"
| "item_line (BRF n) = ''BRF:'' @ str_int n"
| "item_line (BRH n) = ''BRH:'' @ str_int n"
| "item_line (DA l c ck) = ''DA:'' @ str_int l @ '','' @ str_int c @ (case ck of None \<Rightarrow> [] | Some x \<Rightarrow> '','' @ x)"
| "item_line (BRDA l b r taken) =
     ''BRDA:'' @ str_int l @ '','' @ str_int b @ '','' @ str_int r @ '','' @ (case taken of None \<Rightarrow> ''-'' | Some c \<Rightarrow> str_int c)"
| "item_line (Other x) = x"

text \<open>A record, with the lines that precede it.\<close>

record lcov_record =
  lr_before :: "string list"
  lr_path :: string
  lr_items :: "lcov_item list"

definition record_lines :: "lcov_record \<Rightarrow> string list" where
  "record_lines r = lr_before r @ [''SF:'' @ lr_path r] @ map item_line (lr_items r) @ [''end_of_record'']"

definition lcov_text :: "lcov_record list \<Rightarrow> string" where
  "lcov_text rs = concat (map (\<lambda>l. l @ [CHR 0x0A]) (concat (map record_lines rs)))"

text \<open>What a record says: of each count the last one written (0 when there is none), the lines with count 0, and the
  branches without a count.\<close>

definition last_count :: "int list \<Rightarrow> int" where
  "last_count ns = last (0 # ns)"

definition coverage_of :: "lcov_record \<Rightarrow> file_coverage" where
  "coverage_of r = \<lparr>file_path = lr_path r,
     lines_found = last_count [n. LF n \<leftarrow> lr_items r], lines_hit = last_count [n. LH n \<leftarrow> lr_items r],
     branches_found = last_count [n. BRF n \<leftarrow> lr_items r], branches_hit = last_count [n. BRH n \<leftarrow> lr_items r],
     uncovered_lines = [l. DA l c _ \<leftarrow> lr_items r, c = 0],
     uncovered_branches = [(l, b, i). BRDA l b i taken \<leftarrow> lr_items r, taken = None]\<rparr>"

definition small :: "int \<Rightarrow> bool" where
  "small n = (length (str_int n) \<le> 4300)"

definition plain_path :: "string \<Rightarrow> bool" where
  "plain_path p = (p \<noteq> [] \<and> \<not> py_isspace (last p) \<and> CHR 0x0A \<notin> set p \<and> CHR 0x0D \<notin> set p \<and> \<not> py_contains ''SF:'' p)"

text \<open>A line the reader has no use for.\<close>

definition unread :: "string \<Rightarrow> bool" where
  "unread x = (CHR 0x0A \<notin> set x \<and> CHR 0x0D \<notin> set x \<and> py_strip x \<noteq> ''end_of_record'' \<and>
     (\<forall>k \<in> {''SF:'', ''LF:'', ''LH:'', ''BRF:'', ''BRH:'', ''DA:'', ''BRDA''}. \<not> py_startswith (py_strip x) k))"

text \<open>A checksum: the end of its line.\<close>

definition checksum :: "string \<Rightarrow> bool" where
  "checksum x = (x \<noteq> [] \<and> \<not> py_isspace (last x) \<and> CHR 0x0A \<notin> set x \<and> CHR 0x0D \<notin> set x)"

fun item_ok :: "lcov_item \<Rightarrow> bool" where
  "item_ok (LF n) = small n" | "item_ok (LH n) = small n" | "item_ok (BRF n) = small n" | "item_ok (BRH n) = small n"
| "item_ok (DA l c ck) = (small l \<and> small c \<and> (case ck of None \<Rightarrow> True | Some x \<Rightarrow> checksum x))"
| "item_ok (BRDA l b i taken) = (small l \<and> small b \<and> small i)"
| "item_ok (Other x) = unread x"

definition record_ok :: "lcov_record \<Rightarrow> bool" where
  "record_ok r = (plain_path (lr_path r) \<and> list_all unread (lr_before r) \<and> list_all item_ok (lr_items r))"

text \<open>The lines of the file, and the text of a line.\<close>

lemma universal_newlines_id: "CHR 0x0D \<notin> set s \<Longrightarrow> universal_newlines s = s"
  by (induction s rule: universal_newlines.induct) auto

lemma file_lines_aux_line:
  "CHR 0x0A \<notin> set l \<Longrightarrow> file_lines_aux acc (l @ CHR 0x0A # s) = (rev acc @ l @ [CHR 0x0A]) # file_lines_aux [] s"
  by (induction l arbitrary: acc) auto

lemma file_lines_concat:
  assumes "\<forall>l \<in> set ls. CHR 0x0A \<notin> set l \<and> CHR 0x0D \<notin> set l"
  shows "file_lines (concat (map (\<lambda>l. l @ [CHR 0x0A]) ls)) = map (\<lambda>l. l @ [CHR 0x0A]) ls"
proof -
  have "CHR 0x0D \<notin> set (concat (map (\<lambda>l. l @ [CHR 0x0A]) ls))" using assms by auto
  moreover have "file_lines_aux [] (concat (map (\<lambda>l. l @ [CHR 0x0A]) ls)) = map (\<lambda>l. l @ [CHR 0x0A]) ls"
    using assms by (induction ls) (auto simp: file_lines_aux_line)
  ultimately show ?thesis by (simp add: file_lines_def universal_newlines_id)
qed

lemma py_strip_line:
  assumes "l \<noteq> []" "\<not> py_isspace (hd l)" "\<not> py_isspace (last l)"
  shows "py_strip (l @ [CHR 0x0A]) = l"
proof -
  have nl: "py_isspace (CHR 0x0A)" by (simp add: py_isspace_def)
  have "dropWhile py_isspace (l @ [CHR 0x0A]) = l @ [CHR 0x0A]" using assms by (cases l) auto
  moreover have "dropWhile py_isspace (rev l) = rev l"
    using assms by (cases "rev l") (auto simp: hd_rev [symmetric])
  ultimately show ?thesis using nl by (simp add: py_strip_def)
qed

lemma py_replace_absent: "\<not> py_contains old s \<Longrightarrow> py_replace old new s = s"
proof (induction s)
  case (Cons c cs)
  then show ?case by (subst py_replace.simps) auto
qed (simp add: py_replace.simps)

lemma py_replace_head:
  assumes "old \<noteq> []" "\<not> py_contains old s"
  shows "py_replace old [] (old @ s) = s"
  using assms by (subst py_replace.simps) (simp add: py_startswith_def py_replace_absent)

lemma py_contains_char: "c \<in> set old \<Longrightarrow> c \<notin> set s \<Longrightarrow> \<not> py_contains old s"
  by (auto simp: py_contains_iff)

definition num_char :: "char \<Rightarrow> bool" where
  "num_char c = (is_digit c \<or> c = CHR ''-'')"

lemma str_int_chars: "c \<in> set (str_int n) \<Longrightarrow> num_char c"
  using is_digit_str_nat by (auto simp: str_int_def num_char_def split: if_splits)

lemma num_char_not: "num_char c \<Longrightarrow> c \<noteq> CHR '':'' \<and> c \<noteq> CHR '','' \<and> c \<noteq> CHR 0x0A \<and> c \<noteq> CHR 0x0D \<and> \<not> py_isspace c"
  by (auto simp: num_char_def is_digit_def py_isspace_def)

lemma str_int_ne [simp]: "str_int n \<noteq> []"
  by (simp add: str_int_def)

lemma str_int_free: "CHR '':'' \<notin> set (str_int n)" "CHR '','' \<notin> set (str_int n)"
  "CHR 0x0A \<notin> set (str_int n)" "CHR 0x0D \<notin> set (str_int n)" "\<not> py_isspace (last (str_int n))"
  using str_int_chars num_char_not last_in_set [OF str_int_ne] by blast+

lemma lcov_int_field:
  assumes "small n" "CHR '':'' \<in> set old"
  shows "lcov_int (py_replace old [] (old @ str_int n)) = Ok n" "lcov_int (str_int n) = Ok n"
proof -
  have "old \<noteq> []" using assms(2) by auto
  then have "py_replace old [] (old @ str_int n) = str_int n"
    using py_contains_char [OF assms(2) str_int_free(1)] by (rule py_replace_head)
  with assms(1) show "lcov_int (py_replace old [] (old @ str_int n)) = Ok n" "lcov_int (str_int n) = Ok n"
    by (simp_all add: lcov_int_def small_def py_int_str_int)
qed

lemma parse_count_lines:
  assumes "small n"
  shows "parse_lcov_data_line (''LF:'' @ str_int n) fc = Ok (fc\<lparr>lines_found := n\<rparr>)"
    "parse_lcov_data_line (''LH:'' @ str_int n) fc = Ok (fc\<lparr>lines_hit := n\<rparr>)"
    "parse_lcov_data_line (''BRF:'' @ str_int n) fc = Ok (fc\<lparr>branches_found := n\<rparr>)"
    "parse_lcov_data_line (''BRH:'' @ str_int n) fc = Ok (fc\<lparr>branches_hit := n\<rparr>)"
  using lcov_int_field(1) [OF assms, of "''LF:''"] lcov_int_field(1) [OF assms, of "''LH:''"]
    lcov_int_field(1) [OF assms, of "''BRF:''"] lcov_int_field(1) [OF assms, of "''BRH:''"]
  by (simp_all add: parse_lcov_data_line_def py_startswith_def)

lemma parse_da_line:
  assumes "small l" "small c"
  shows "parse_lcov_data_line (item_line (DA l c ck)) fc =
    Ok (fc\<lparr>uncovered_lines := uncovered_lines fc @ (if c = 0 then [l] else [])\<rparr>)"
proof -
  have "CHR '','' \<notin> set (''DA:'' @ str_int l)" using str_int_free(2) by simp
  then have "split_on (CHR '','') (item_line (DA l c ck)) =
      (''DA:'' @ str_int l) # str_int c # (case ck of None \<Rightarrow> [] | Some x \<Rightarrow> split_on (CHR '','') x)"
    using split_on_append_sep [of "CHR '',''" "''DA:'' @ str_int l"] split_on_append_sep [OF str_int_free(2)]
      split_on_single [OF str_int_free(2)] by (simp split: option.split)
  moreover have "py_startswith (item_line (DA l c ck)) ''DA:''" "\<not> py_startswith (item_line (DA l c ck)) ''LF:''"
    "\<not> py_startswith (item_line (DA l c ck)) ''LH:''" "\<not> py_startswith (item_line (DA l c ck)) ''BRF:''"
    "\<not> py_startswith (item_line (DA l c ck)) ''BRH:''"
    by (simp_all add: py_startswith_def)
  moreover have "lcov_int (py_replace ''DA:'' [] (''DA:'' @ str_int l)) = Ok l" "lcov_int (str_int c) = Ok c"
    using lcov_int_field [OF assms(1), of "''DA:''"] lcov_int_field(2) [OF assms(2), of "''DA:''"] by simp_all
  ultimately show ?thesis
    by (cases "c = 0") (simp_all add: parse_lcov_data_line_def part_def Let_def del: append_Cons item_line.simps)
qed

lemma str_nat_dash: "str_nat n \<noteq> ''-''"
  using str_nat_chars [OF not_digits(1), of n] by auto

lemma parse_brda_line:
  assumes "small l" "small b" "small i"
  shows "parse_lcov_data_line (item_line (BRDA l b i t)) fc =
    Ok (fc\<lparr>uncovered_branches := uncovered_branches fc @ (if t = None then [(l, b, i)] else [])\<rparr>)"
proof -
  let ?mark = "case t of None \<Rightarrow> ''-'' | Some c \<Rightarrow> str_int c"
  have "CHR '','' \<notin> set (''BRDA:'' @ str_int l)" "CHR '','' \<notin> set ?mark"
    using str_int_free(2) by (simp_all split: option.splits)
  then have "split_on (CHR '','') (item_line (BRDA l b i t)) = [''BRDA:'' @ str_int l, str_int b, str_int i, ?mark]"
    using split_on_append_sep [of "CHR '',''" "''BRDA:'' @ str_int l"] split_on_append_sep [OF str_int_free(2)]
      split_on_single [of "CHR '',''" ?mark] by simp
  moreover have "py_startswith (item_line (BRDA l b i t)) ''BRDA''" "\<not> py_startswith (item_line (BRDA l b i t)) ''LF:''"
    "\<not> py_startswith (item_line (BRDA l b i t)) ''LH:''" "\<not> py_startswith (item_line (BRDA l b i t)) ''BRF:''"
    "\<not> py_startswith (item_line (BRDA l b i t)) ''BRH:''" "\<not> py_startswith (item_line (BRDA l b i t)) ''DA:''"
    by (simp_all add: py_startswith_def)
  moreover have "lcov_int (py_replace ''BRDA:'' [] (''BRDA:'' @ str_int l)) = Ok l" "lcov_int (str_int b) = Ok b"
    "lcov_int (str_int i) = Ok i"
    using lcov_int_field [OF assms(1), of "''BRDA:''"] lcov_int_field(2) [OF assms(2), of "''DA:''"]
      lcov_int_field(2) [OF assms(3), of "''DA:''"] by simp_all
  moreover have "(?mark = ''-'') = (t = None)"
  proof (cases t)
    case (Some c)
    have "str_int c \<noteq> ''-''" by (auto simp: str_int_def str_nat_dash)
    with Some show ?thesis by simp
  qed simp
  ultimately show ?thesis
    by (simp add: parse_lcov_data_line_def part_def Let_def del: append_Cons)
qed

text \<open>A line of a record changes the coverage of the current file only.\<close>

lemma dict_put_put [simp]: "dict_put p v (dict_put p u d) = dict_put p v d"
  by (induction d) auto

lemma parse_lcov_append: "parse_lcov (xs @ ys) st = r_bind (parse_lcov xs st) (parse_lcov ys)"
proof (induction xs arbitrary: st)
  case (Cons x xs)
  then show ?case by (cases "lcov_line x st") simp_all
qed simp

lemma lcov_line_data:
  assumes "\<not> py_startswith l ''SF:''" "l \<noteq> ''end_of_record''" "p \<noteq> []" "parse_lcov_data_line l fc = Ok fc'" "py_strip x = l"
  shows "lcov_line x (dict_put p fc d, Some p) = Ok (dict_put p fc' d, Some p)"
  using assms by (simp add: lcov_line_def)

lemma strip_newline: "py_strip (x @ [CHR 0x0A]) = py_strip x"
proof -
  have nl: "py_isspace (CHR 0x0A)" by (simp add: py_isspace_def)
  show ?thesis
  proof (cases "\<forall>c \<in> set x. py_isspace c")
    case True
    then have "dropWhile py_isspace (x @ [CHR 0x0A]) = []" "dropWhile py_isspace x = []" using nl by simp_all
    then show ?thesis by (simp only: py_strip_def)
  next
    case False
    then obtain c where "c \<in> set x" "\<not> py_isspace c" by blast
    from dropWhile_append1 [of c x py_isspace, OF this] show ?thesis using nl by (simp add: py_strip_def)
  qed
qed

lemma item_line_shape:
  assumes "item_ok x" "\<forall>y. x \<noteq> Other y"
  shows "py_strip (item_line x @ [CHR 0x0A]) = item_line x" "\<not> py_startswith (item_line x) ''SF:''" "item_line x \<noteq> ''end_of_record''"
proof -
  have "item_line x \<noteq> []" "\<not> py_isspace (hd (item_line x))" "\<not> py_isspace (last (item_line x))"
    using assms str_int_free(5) by (cases x; auto simp: py_isspace_def checksum_def split: option.splits)+
  then show "py_strip (item_line x @ [CHR 0x0A]) = item_line x" by (rule py_strip_line)
  show "\<not> py_startswith (item_line x) ''SF:''" "item_line x \<noteq> ''end_of_record''"
    using assms by (cases x; simp add: py_startswith_def)+
qed

text \<open>What a data line adds to the coverage.\<close>

fun add_item :: "lcov_item \<Rightarrow> file_coverage \<Rightarrow> file_coverage" where
  "add_item (LF n) fc = fc\<lparr>lines_found := n\<rparr>"
| "add_item (LH n) fc = fc\<lparr>lines_hit := n\<rparr>"
| "add_item (BRF n) fc = fc\<lparr>branches_found := n\<rparr>"
| "add_item (BRH n) fc = fc\<lparr>branches_hit := n\<rparr>"
| "add_item (DA l c _) fc = fc\<lparr>uncovered_lines := uncovered_lines fc @ (if c = 0 then [l] else [])\<rparr>"
| "add_item (BRDA l b i t) fc = fc\<lparr>uncovered_branches := uncovered_branches fc @ (if t = None then [(l, b, i)] else [])\<rparr>"
| "add_item (Other _) fc = fc"

lemma parse_item:
  assumes "item_ok x" "p \<noteq> []"
  shows "lcov_line (item_line x @ [CHR 0x0A]) (dict_put p fc d, Some p) = Ok (dict_put p (add_item x fc) d, Some p)"
proof (cases "\<exists>y. x = Other y")
  case True
  then obtain y where x: "x = Other y" by blast
  with assms(1) have "parse_lcov_data_line (py_strip y) fc = Ok fc" by (simp add: unread_def parse_lcov_data_line_def)
  with x assms show ?thesis using lcov_line_data [of "py_strip y" p fc fc] by (simp add: strip_newline unread_def)
next
  case False
  then have other: "\<forall>y. x \<noteq> Other y" by simp
  have "parse_lcov_data_line (item_line x) fc = Ok (add_item x fc)"
  proof (cases x)
    case (DA l c k)
    with assms(1) show ?thesis unfolding DA add_item.simps by (intro parse_da_line) simp_all
  next
    case (BRDA l b i t)
    with assms(1) show ?thesis unfolding BRDA add_item.simps by (intro parse_brda_line) simp_all
  qed (use assms(1) other parse_count_lines in \<open>simp_all add: parse_count_lines del: append_Cons\<close>)
  then show ?thesis using item_line_shape [OF assms(1) other] assms(2) by (intro lcov_line_data [of "item_line x"]) simp_all
qed

lemma parse_items:
  assumes "list_all item_ok xs" "p \<noteq> []"
  shows "parse_lcov (map (\<lambda>l. l @ [CHR 0x0A]) (map item_line xs)) (dict_put p fc d, Some p) = Ok (dict_put p (fold add_item xs fc) d, Some p)"
  using assms(1) by (induction xs arbitrary: fc) (simp_all add: parse_item assms(2))

text \<open>Line by line, the reader has collected what the record says.\<close>

lemma fold_add_item:
  "fold add_item xs fc = fc\<lparr>lines_found := last (lines_found fc # [n. LF n \<leftarrow> xs]), lines_hit := last (lines_hit fc # [n. LH n \<leftarrow> xs]),
     branches_found := last (branches_found fc # [n. BRF n \<leftarrow> xs]), branches_hit := last (branches_hit fc # [n. BRH n \<leftarrow> xs]),
     uncovered_lines := uncovered_lines fc @ [l. DA l c _ \<leftarrow> xs, c = 0],
     uncovered_branches := uncovered_branches fc @ [(l, b, i). BRDA l b i taken \<leftarrow> xs, taken = None]\<rparr>"
proof (induction xs arbitrary: fc)
  case (Cons x xs)
  show ?case unfolding fold_Cons comp_def Cons by (cases x) simp_all
qed simp

lemma fold_items_coverage: "fold add_item (lr_items r) (FileCoverage (lr_path r)) = coverage_of r"
  unfolding fold_add_item by (simp add: coverage_of_def FileCoverage_def last_count_def)

lemma parse_source_line:
  assumes "plain_path p"
  shows "lcov_line (''SF:'' @ p @ [CHR 0x0A]) (d, cur) = Ok (dict_put p (FileCoverage p) d, Some p)"
proof -
  have "py_strip ((''SF:'' @ p) @ [CHR 0x0A]) = ''SF:'' @ p"
    using assms(1) by (intro py_strip_line) (simp_all add: plain_path_def py_isspace_def)
  moreover have "py_replace ''SF:'' [] (''SF:'' @ p) = p"
    using assms(1) by (intro py_replace_head) (simp_all add: plain_path_def)
  moreover have "py_startswith (''SF:'' @ p) ''SF:''" by (simp add: py_startswith_def)
  ultimately show ?thesis by (simp add: lcov_line_def Let_def del: append_Cons append_assoc flip: append_assoc)
qed

lemma parse_end_line: "lcov_line (''end_of_record'' @ [CHR 0x0A]) (d, cur) = Ok (d, None)"
proof -
  have "py_strip (''end_of_record'' @ [CHR 0x0A]) = ''end_of_record''"
    by (intro py_strip_line) (simp_all add: py_isspace_def)
  then show ?thesis by (simp add: lcov_line_def py_startswith_def)
qed

lemma parse_before: "list_all unread xs \<Longrightarrow> parse_lcov (map (\<lambda>l. l @ [CHR 0x0A]) xs) (d, None) = Ok (d, None)"
  by (induction xs) (simp_all add: lcov_line_def strip_newline unread_def)

lemma parse_record:
  assumes "record_ok r"
  shows "parse_lcov (map (\<lambda>l. l @ [CHR 0x0A]) (record_lines r)) (d, None) = Ok (dict_put (lr_path r) (coverage_of r) d, None)"
proof -
  have ok: "plain_path (lr_path r)" "lr_path r \<noteq> []" "list_all unread (lr_before r)" "list_all item_ok (lr_items r)"
    using assms by (simp_all add: record_ok_def plain_path_def)
  show ?thesis
    unfolding record_lines_def map_append parse_lcov_append list.map
    by (simp only: parse_before [OF ok(3)] parse_lcov.simps append_assoc parse_source_line [OF ok(1)] r_bind_simps
        parse_items [OF ok(4,2), unfolded list.map] parse_end_line fold_items_coverage)
qed

lemma record_lines_plain:
  assumes "record_ok r" "l \<in> set (record_lines r)"
  shows "CHR 0x0A \<notin> set l \<and> CHR 0x0D \<notin> set l"
proof -
  have "CHR 0x0A \<notin> set (item_line x) \<and> CHR 0x0D \<notin> set (item_line x)" if "item_ok x" for x
    using that str_int_free(3,4) by (cases x) (auto simp: unread_def checksum_def split: option.splits)
  with assms show ?thesis
    by (auto simp: record_lines_def record_ok_def plain_path_def list_all_iff unread_def)
qed

lemma parse_records:
  assumes "\<forall>r \<in> set rs. record_ok r"
  shows "parse_lcov (map (\<lambda>l. l @ [CHR 0x0A]) (concat (map record_lines rs))) (d, None) =
    Ok (fold (\<lambda>r. dict_put (lr_path r) (coverage_of r)) rs d, None)"
  using assms by (induction rs arbitrary: d) (simp_all add: parse_lcov_append parse_record)

text \<open>
  C13. A report in the LCOV format, its records with data lines in any order and any lines the reader does not know among and
  before them, is read as the records say: each file has the counts of its record, as its missing lines exactly the
  lines with count 0, and as its missing branches exactly the branches written with \<open>-\<close> instead of a count (a branch with
  count 0 is not among them); of two records for one path the later one counts.
\<close>
theorem lcov_roundtrip:
  assumes "\<forall>r \<in> set rs. record_ok r"
  shows "parse_lcov (file_lines (lcov_text rs)) ([], None) = Ok (fold (\<lambda>r. dict_put (lr_path r) (coverage_of r)) rs [], None)"
proof -
  have "\<forall>l \<in> set (concat (map record_lines rs)). CHR 0x0A \<notin> set l \<and> CHR 0x0D \<notin> set l"
    using record_lines_plain assms(1) by fastforce
  then show ?thesis
    using parse_records [OF assms, of "[]"] unfolding lcov_text_def by (simp only: file_lines_concat)
qed

text \<open>The sample of the program's own test, and a report as lcov writes it.\<close>

definition test_record :: lcov_record where
  "test_record = \<lparr>lr_before = [''''], lr_path = ''source/main.py'',
     lr_items = [LF 10, LH 8, BRF 2, BRH 1, DA 3 0 None, DA 5 0 None]\<rparr>"

definition sample_record :: lcov_record where
  "sample_record = \<lparr>lr_before = [''TN:''], lr_path = ''a.py'', lr_items = [Other ''FN:1,f'', Other ''FNDA:4,f'',
     BRDA 1 0 0 None, BRDA 1 0 1 (Some 0), BRDA 2 0 0 (Some 3), BRF 3, BRH 1, DA 1 4 None, DA 2 0 (Some ''x''), LH 1, LF 2]\<rparr>"

theorem lcov_roundtrip_witness:
  "parse_lcov (file_lines (lcov_text [test_record, sample_record])) ([], None) =
   Ok ([(''source/main.py'', \<lparr>file_path = ''source/main.py'', lines_found = 10, lines_hit = 8, branches_found = 2, branches_hit = 1,
       uncovered_lines = [3, 5], uncovered_branches = []\<rparr>),
     (''a.py'', \<lparr>file_path = ''a.py'', lines_found = 2, lines_hit = 1, branches_found = 3, branches_hit = 1,
       uncovered_lines = [2], uncovered_branches = [(1, 0, 0)]\<rparr>)], None)"
proof -
  have "record_ok test_record" "record_ok sample_record" by code_simp+
  then show ?thesis using lcov_roundtrip [of "[test_record, sample_record]"]
    by (simp add: coverage_of_def last_count_def sample_record_def test_record_def)
qed

end
