(* ===== verification/Coverage_Program.thy ===== *)
theory Coverage_Program
  imports Coverage_Report_Spec Py_Conversation Py_Reads
begin

text \<open>
  The program of \<open>coverage_report.py\<close> passes only after a successful coverage run, on the report among the files that run
  has left, in which every file meets its thresholds.
\<close>

lemma reads_load_thresholds: "reads_only (load_thresholds args)"
  unfolding load_thresholds_def parse_thresholds_file_def json_load_def
  by (auto intro!: reads_intros split: json.split option.split)

lemma check_percent_Ok: "check_percent n x w = (Ok u, w') \<Longrightarrow> in_percent x"
  by (auto simp: check_percent_def py_simps split: if_splits)

lemma generate_passed:
  assumes "generate_lcov_report p lt bt fl fb w = (Ok True, w')"
  shows "\<exists>content data cur. fs_read (w_fs w) (w_cwd w) p = Some content \<and>
    parse_lcov (file_lines content) ([], None) = Ok (data, cur) \<and> (\<forall>(p, fc) \<in> set data. meets lt bt fl fb fc)"
proof (cases "fs_read (w_fs w) (w_cwd w) p")
  case None
  then show ?thesis using assms
    by (auto simp: generate_lcov_report_def read_file_def py_simps split: sum.splits fs_error.splits if_splits)
next
  case (Some content)
  show ?thesis
  proof (cases "parse_lcov (file_lines content) ([], None)")
    case (Exc e)
    then show ?thesis using assms Some
      by (auto simp: generate_lcov_report_def read_file_def of_result_def py_simps split: if_splits)
  next
    case (Ok dc)
    obtain data cur where dc: "dc = (data, cur)" by fastforce
    obtain r w1 where run: "print_and_validate_report data lt bt fl fb w = (r, w1)" by fastforce
    have "r = Ok True" using assms Some Ok dc run
      by (cases r) (auto simp: generate_lcov_report_def read_file_def of_result_def py_simps split: if_splits)
    with run wp_Ok [OF wp_print_and_validate] have "\<forall>(p, fc) \<in> set data. meets lt bt fl fb fc" by blast
    with Some Ok dc show ?thesis by blast
  qed
qed

lemma generate_passes:
  assumes "fs_read (w_fs w) (w_cwd w) p = Some content" "parse_lcov (file_lines content) ([], None) = Ok (data, cur)"
    and "\<forall>(p, fc) \<in> set data. measured fc \<and> meets lt bt fl fb fc"
  shows "wp (generate_lcov_report p lt bt fl fb) (\<lambda>v _. v) (\<lambda>_ _. False) w"
proof -
  have "wp (print_and_validate_report data lt bt fl fb) (\<lambda>v _. v) (\<lambda>_ _. False) w"
    by (rule wp_mono [OF wp_print_and_validate]) (use assms(3) in auto)
  then show ?thesis using assms(1,2)
    by (auto simp: generate_lcov_report_def read_file_def of_result_def py_simps wp_def split: prod.splits result.splits)
qed

section \<open>Running bazel\<close>

text \<open>The trace has grown, by something else than a command; nothing else has changed.\<close>

definition calmly :: "world \<Rightarrow> world \<Rightarrow> bool" where
  "calmly w w' = (\<exists>t. w' = w\<lparr>w_trace := w_trace w @ t\<rparr> \<and> spawned t = [])"

lemma calmly_fields:
  "calmly w w' \<Longrightarrow> w_fs w' = w_fs w \<and> w_cwd w' = w_cwd w \<and> w_environ w' = w_environ w"
  by (auto simp: calmly_def)

lemma calmly_files: "calmly w w' \<Longrightarrow> same_files w w'"
  by (auto simp: calmly_def same_files_def)

lemma calmly_talk: "calmly w w' \<Longrightarrow> talk w [] w'"
  by (auto simp: calmly_def talk_def) (metis replies_spawned map_is_Nil_conv)

interpretation cm: event_frame calmly "\<lambda>e. spawned [e] = []"
proof
  show "calmly w w" for w by (simp add: calmly_def exI [of _ "[]"])
  show "calmly w w1 \<Longrightarrow> calmly w1 w2 \<Longrightarrow> calmly w w2" for w w1 w2 by (auto simp: calmly_def)
qed (auto simp: calmly_def traced_def)

lemma calm_parts:
  "keeps calmly (check_percent n x)" "keeps calmly (load_thresholds args)" "keeps calmly (generate_lcov_report p lt bt fl fb)"
  unfolding check_percent_def load_thresholds_def parse_thresholds_file_def generate_lcov_report_def print_and_validate_report_def
    report_file_def report_missing_def Let_def
  by (auto intro!: cm.event_rules split: option.split json.split prod.split)

lemma find_project_root_stable:
  assumes "calmly w w'"
  shows "fst (find_project_root w') = fst (find_project_root w)"
proof -
  have "reads_only (search_root ps)" for ps by (induction ps) (auto intro!: reads_intros)
  then have "fst (search_root ps w') = fst (search_root ps w)" for ps using reads_onlyD calmly_files [OF assms] by blast
  moreover have "current_dir w' = current_dir w" using calmly_fields [OF assms] by (simp add: current_dir_def cwd_path_def split: option.split)
  ultimately show ?thesis unfolding find_project_root_eq by (simp del: search_root.simps)
qed

text \<open>The directories the two variants look for the report in, when bazel has run.\<close>

definition cwd_or_root :: "path \<Rightarrow> world \<Rightarrow> path" where
  "cwd_or_root project_root w = (if fst (path_exists (report_below (cwd_path w)) w) = Ok True then cwd_path w else project_root)"

definition root_only :: "path \<Rightarrow> world \<Rightarrow> path" where
  "root_only project_root w = project_root"

text \<open>The world bazel leaves.\<close>

definition after_bazel :: "bazel \<Rightarrow> string list \<Rightarrow> world \<Rightarrow> world" where
  "after_bazel B cmd w = (traced w (Spawn cmd))\<lparr>w_fs := B cmd (w_fs w)\<rparr>"

lemma run_bazel_Ok:
  assumes "run_bazel B cmd w = (Ok u, w')"
  obtains out err where "w_proc w (w_trace w) cmd = Exited 0 out err" "w' = after_bazel B cmd w"
  using assms by (auto simp: run_bazel_def run_proc_def py_bind_def after_bazel_def traced_def Let_def split: proc_outcome.splits if_splits)

lemma bazel_failed_Exc: "bazel_failed e w \<noteq> (Ok p, w')"
  by (cases e) (auto simp: bazel_failed_def py_simps split: if_splits)

text \<open>A run of bazel and what follows it: only a successful one has a result.\<close>

lemma bazel_then_Ok:
  assumes "py_bind find_project_root (\<lambda>project_root.
      py_try (py_bind (run_bazel B (coverage_command project_root target)) (rest project_root)) is_CalledProcess bazel_failed) w = (Ok p, w')"
  obtains project_root out err where "fst (find_project_root w) = Ok project_root"
    "w_proc w (w_trace w) (coverage_command project_root target) = Exited 0 out err"
    "rest project_root () (after_bazel B (coverage_command project_root target) w) = (Ok p, w')"
proof -
  from assms obtain project_root where root: "find_project_root w = (Ok project_root, w)"
    and run: "py_try (py_bind (run_bazel B (coverage_command project_root target)) (rest project_root)) is_CalledProcess bazel_failed w = (Ok p, w')"
    by (elim py_bind_OkE) (metis find_project_root_pure snd_conv)
  from run bazel_failed_Exc have "py_bind (run_bazel B (coverage_command project_root target)) (rest project_root) w = (Ok p, w')"
    by (auto simp: py_try_def split: prod.splits result.splits if_splits)
  with root that show ?thesis by (elim py_bind_OkE run_bazel_Ok) auto
qed

text \<open>
  What the program relies on: the path of a report is returned only after a run of bazel that succeeded, from the project root,
  and it is the one below the place where the variant looks for it among the files bazel has left.
\<close>

locale coverage_runner =
  fixes run :: "string \<Rightarrow> path py" and B :: bazel and place :: "path \<Rightarrow> world \<Rightarrow> path"
  assumes runner: "run target w = (Ok p, w') \<Longrightarrow> \<exists>project_root out err.
      fst (find_project_root w) = Ok project_root \<and>
      w_proc w (w_trace w) (coverage_command project_root target) = Exited 0 out err \<and>
      w' = after_bazel B (coverage_command project_root target) w \<and> p = report_below (place project_root w')"
    and place_stable: "same_files w w' \<Longrightarrow> place p w' = place p w"
begin

lemma program_sound:
  assumes "coverage_program run argv w = (Ok (), w')"
  shows "\<exists>args w0 t project_root cmd out err content data cur fl fb.
    fst (parse_args coverage_parser argv w) = Ok args \<and>
    in_percent (percent_arg args ''lines'') \<and> in_percent (percent_arg args ''branch'') \<and>
    basic_config (arg_value args ''devkit_log_file'') w = (Ok (), w0) \<and>
    fst (load_thresholds args w0) = Ok (fl, fb) \<and>
    fst (find_project_root w0) = Ok project_root \<and>
    cmd = coverage_command project_root (arg_default args ''target'' ''//...'') \<and>
    w_trace w' = w_trace w @ t \<and> replies (w_proc w) (w_trace w) t = [(cmd, Exited 0 out err)] \<and>
    w_fs w' = B cmd (w_fs w0) \<and> w_cwd w' = w_cwd w0 \<and>
    fs_read (w_fs w') (w_cwd w') (report_below (place project_root w')) = Some content \<and>
    parse_lcov (file_lines content) ([], None) = Ok (data, cur) \<and>
    (\<forall>(p, fc) \<in> set data. meets (f_div_pos (percent_arg args ''lines'') 100)
       (f_div_pos (percent_arg args ''branch'') 100) fl fb fc)"
proof -
  from assms obtain args w1 w2 w3 w4 w5 w6 w7 w8 w9 fl fb p v where
    steps: "parse_args coverage_parser argv w = (Ok args, w1)"
      "basic_config (arg_value args ''devkit_log_file'') w1 = (Ok (), w2)"
      "check_percent ''Branch'' (percent_arg args ''branch'') w2 = (Ok (), w3)"
      "check_percent ''Lines'' (percent_arg args ''lines'') w3 = (Ok (), w4)"
      "load_thresholds args w4 = (Ok (fl, fb), w5)"
      "log_info ''Running Bazel Coverage'' [] w5 = (Ok (), w6)"
      "run (arg_default args ''target'' ''//...'') w6 = (Ok p, w7)"
      "log_info ''Generating coverage report'' [] w7 = (Ok (), w8)"
      "generate_lcov_report p (f_div_pos (percent_arg args ''lines'') 100)
         (f_div_pos (percent_arg args ''branch'') 100) fl fb w8 = (Ok v, w9)"
    and last: "(if v then py_print ''Coverage check passed.''
        else py_seq (py_print ''Coverage check failed.'') (sys_exit 1)) w9 = (Ok (), w')"
    unfolding coverage_program_def
    by (elim py_bind_OkE py_seq_OkE) (auto simp only: prod.case split: prod.splits elim!: py_bind_OkE py_seq_OkE)
  from last have v: "v = True" and w': "py_print ''Coverage check passed.'' w9 = (Ok (), w')" by (auto simp: py_simps split: if_splits)
  have w1: "w1 = w" using steps(1) by (auto simp: parse_args_def parse_known_args_def py_simps split: parse_outcome.splits if_splits prod.splits list.splits)
  obtain project_root out err where b: "fst (find_project_root w6) = Ok project_root"
    "w_proc w6 (w_trace w6) (coverage_command project_root (arg_default args ''target'' ''//...'')) = Exited 0 out err"
    "w7 = after_bazel B (coverage_command project_root (arg_default args ''target'' ''//...'')) w6" "p = report_below (place project_root w7)"
    using runner [OF steps(7)] by blast
  let ?cmd = "coverage_command project_root (arg_default args ''target'' ''//...'')"
  have "calmly w2 w3" "calmly w3 w4" "calmly w4 w5" "calmly w5 w6" and w8: "calmly w7 w8" and "calmly w8 w9" "calmly w9 w'"
    using steps(3) steps(4) steps(5) steps(6) steps(8) steps(9) w'
    by (erule_tac keepsD [rotated], intro calm_parts cm.event_rules)+
  then have c: "calmly w2 w4" "calmly w2 w6" "calmly w7 w'" using w8 by (meson cm.frame_trans)+
  have start: "talk w [] w2" by (rule quiet_talk [where m = "basic_config _", OF _ steps(2) [unfolded w1]]) (intro quiet_intros)
  have "talk w6 [(?cmd, Exited 0 out err)] w7" using b(2,3) by (simp add: talk_def after_bazel_def)
  from talk_trans [OF talk_trans [OF start calmly_talk [OF c(2)]] talk_trans [OF this calmly_talk [OF c(3)]]]
  have "talk w [(?cmd, Exited 0 out err)] w'" by simp
  then obtain t where t: "w_trace w' = w_trace w @ t" "replies (w_proc w) (w_trace w) t = [(?cmd, Exited 0 out err)]"
    unfolding talk_def by blast
  have before: "fst (load_thresholds args w2) = Ok (fl, fb)" "fst (find_project_root w2) = Ok project_root"
    using reads_onlyD [OF reads_load_thresholds calmly_files [OF c(1)], of args] steps(5) find_project_root_stable [OF c(2)] b(1) by simp_all
  have left: "w_fs w' = B ?cmd (w_fs w2)" "w_cwd w' = w_cwd w2" using calmly_fields [OF c(2)] calmly_fields [OF c(3)] b(3) by (simp_all add: after_bazel_def)
  have seen: "w_fs w8 = w_fs w'" "w_cwd w8 = w_cwd w'" "place project_root w7 = place project_root w'"
    using calmly_fields [OF w8] calmly_fields [OF c(3)] place_stable [OF calmly_files [OF c(3)]] by simp_all
  obtain content data cur where "fs_read (w_fs w') (w_cwd w') (report_below (place project_root w')) = Some content"
    "parse_lcov (file_lines content) ([], None) = Ok (data, cur)"
    "\<forall>(p, fc) \<in> set data. meets (f_div_pos (percent_arg args ''lines'') 100) (f_div_pos (percent_arg args ''branch'') 100) fl fb fc"
    using generate_passed [OF steps(9) [unfolded v b(4)]] unfolding seen by blast
  moreover have "fst (parse_args coverage_parser argv w) = Ok args" using steps(1) by simp
  ultimately show ?thesis
    using steps(2) [unfolded w1] check_percent_Ok [OF steps(3)] check_percent_Ok [OF steps(4)] before left t
    by (intro exI conjI) (assumption | rule refl)+
qed

end

interpretation rb: coverage_runner "run_bazel_coverage B" B cwd_or_root for B
proof
  show "\<exists>project_root out err. fst (find_project_root w) = Ok project_root \<and>
      w_proc w (w_trace w) (coverage_command project_root target) = Exited 0 out err \<and>
      w' = after_bazel B (coverage_command project_root target) w \<and> p = report_below (cwd_or_root project_root w')"
    if "run_bazel_coverage B target w = (Ok p, w')" for target w p w'
    using that unfolding run_bazel_coverage_def
    by (elim bazel_then_Ok)
      (fastforce simp: cwd_or_root_def py_simps path_exists_def lift_probe_def split: sum.splits if_splits)
  show "same_files w w' \<Longrightarrow> cwd_or_root p w' = cwd_or_root p w" for w w' p
    using reads_onlyD [OF reads_files(1), of w w'] by (simp add: cwd_or_root_def cwd_path_def same_files_def)
qed

interpretation rr: coverage_runner "run_bazel_coverage_root B" B root_only for B
proof
  show "\<exists>project_root out err. fst (find_project_root w) = Ok project_root \<and>
      w_proc w (w_trace w) (coverage_command project_root target) = Exited 0 out err \<and>
      w' = after_bazel B (coverage_command project_root target) w \<and> p = report_below (root_only project_root w')"
    if "run_bazel_coverage_root B target w = (Ok p, w')" for target w p w'
    using that unfolding run_bazel_coverage_root_def
    by (elim bazel_then_Ok) (auto simp: root_only_def py_simps)
qed (simp add: root_only_def)

text \<open>
  C14. The program ends normally only if both percentages are between 0 and 100, the thresholds can be read, the
  coverage command of the project root was run, once, and succeeded, and the report among the files that run left can
  be read and in it every file meets its thresholds: an absent report, a failed run, a malformed threshold file or a
  file below its threshold all end in an error. The report is the one below the project root; the variant of the
  root \<open>.devkit\<close> prefers the one below the working directory when there is one after the run.
\<close>
theorem coverage_pass_sound:
  assumes "(main, place) = (coverage_main B, cwd_or_root) \<or> (main, place) = (coverage_main_root B, root_only)"
    and "main argv w = (Ok (), w')"
  shows "\<exists>args w0 t project_root cmd out err content data cur fl fb.
    fst (parse_args coverage_parser argv w) = Ok args \<and>
    in_percent (percent_arg args ''lines'') \<and> in_percent (percent_arg args ''branch'') \<and>
    basic_config (arg_value args ''devkit_log_file'') w = (Ok (), w0) \<and>
    fst (load_thresholds args w0) = Ok (fl, fb) \<and>
    fst (find_project_root w0) = Ok project_root \<and>
    cmd = coverage_command project_root (arg_default args ''target'' ''//...'') \<and>
    w_trace w' = w_trace w @ t \<and> replies (w_proc w) (w_trace w) t = [(cmd, Exited 0 out err)] \<and>
    w_fs w' = B cmd (w_fs w0) \<and> w_cwd w' = w_cwd w0 \<and>
    fs_read (w_fs w') (w_cwd w') (report_below (place project_root w')) = Some content \<and>
    parse_lcov (file_lines content) ([], None) = Ok (data, cur) \<and>
    (\<forall>(p, fc) \<in> set data. meets (f_div_pos (percent_arg args ''lines'') 100)
       (f_div_pos (percent_arg args ''branch'') 100) fl fb fc)"
  using assms(1)
proof
  assume "(main, place) = (coverage_main B, cwd_or_root)"
  then show ?thesis using assms(2) rb.program_sound [of B argv w w'] unfolding coverage_main_def by simp
next
  assume "(main, place) = (coverage_main_root B, root_only)"
  then show ?thesis using assms(2) rr.program_sound [of B argv w w'] unfolding coverage_main_root_def by simp
qed

text \<open>A project without a report, and a bazel that writes one.\<close>

definition covered_text :: string where
  "covered_text = ''SF:a'' @ [CHR 0x0A] @ ''LF:2'' @ [CHR 0x0A] @ ''LH:2'' @ [CHR 0x0A] @ ''end_of_record'' @ [CHR 0x0A]"

definition covered_fs :: fnode where
  "covered_fs = FDir [(''devkit'', FDir []), (''bazel-out'', FDir [(''_coverage'', FDir [(''_coverage_report.dat'',
     FFile covered_text)])])]"

definition writes_report :: bazel where
  "writes_report cmd fs = covered_fs"

definition covered_world :: world where
  "covered_world = world_of (FDir [(''devkit'', FDir [])]) [] (\<lambda>_ _. Exited 0 [] [])"

lemma covered_run:
  "parse_known coverage_parser [] = Parsed [] []"
  "fst (run_bazel_coverage writes_report ''//...'' (traced covered_world (Log INFO ''Running Bazel Coverage'' []))) =
     Ok (path_of ''/bazel-out/_coverage/_coverage_report.dat'')"
  "fs_read covered_fs [] (path_of ''/bazel-out/_coverage/_coverage_report.dat'') = Some covered_text"
  "parse_lcov (file_lines covered_text) ([], None) = Ok ([(''a'', (FileCoverage ''a'')\<lparr>lines_found := 2, lines_hit := 2\<rparr>)], None)"
  "fst (find_project_root covered_world) = Ok (path_of ''/'')"
  by code_simp+

lemma covered_passes: "wp (coverage_main writes_report []) (\<lambda>_ _. True) (\<lambda>_ _. False) covered_world"
proof -
  let ?w = "traced covered_world (Log INFO ''Running Bazel Coverage'' [])"
  let ?fc = "(FileCoverage ''a'')\<lparr>lines_found := 2, lines_hit := 2\<rparr>"
  obtain r w7 where run: "run_bazel_coverage writes_report ''//...'' ?w = (r, w7)" by fastforce
  have r: "r = Ok (path_of ''/bazel-out/_coverage/_coverage_report.dat'')" using covered_run(2) run by simp
  have files: "w_fs w7 = covered_fs" "w_cwd w7 = []"
    using rb.runner [OF run [unfolded r]] by (auto simp: after_bazel_def writes_report_def covered_world_def world_of_def)
  have "percent_range 100 []" "well_counted ?fc" "covers 100 100 [] [] ?fc"
    by (simp_all add: percent_range_def well_counted_def counted_def FileCoverage_def covers_def percent_for_def)
  then have "measured ?fc" "meets (percent 100) (percent 100) (percents []) (percents []) ?fc"
    using meets_exact by simp_all
  then have "wp (generate_lcov_report (path_of ''/bazel-out/_coverage/_coverage_report.dat'')
      (f_div_pos (Fin 100) 100) (f_div_pos (Fin 100) 100) [] []) (\<lambda>v _. v) (\<lambda>_ _. False)
      (traced w7 (Log INFO ''Generating coverage report'' []))"
    by (intro generate_passes [where data = "[(''a'', ?fc)]"])
      (use files covered_run(3,4) in \<open>simp_all add: percent_def percents_def\<close>)
  then have "wp (generate_lcov_report (path_of ''/bazel-out/_coverage/_coverage_report.dat'')
      (f_div_pos (Fin 100) 100) (f_div_pos (Fin 100) 100) [] [])
      (\<lambda>v. wp (if v then py_print ''Coverage check passed.''
         else py_seq (py_print ''Coverage check failed.'') (sys_exit 1)) (\<lambda>_ _. True) (\<lambda>_ _. False)) (\<lambda>_ _. False)
      (traced w7 (Log INFO ''Generating coverage report'' []))"
    by (rule wp_mono) simp_all
  moreover have "wp (run_bazel_coverage writes_report ''//...'') Q E ?w = Q (path_of ''/bazel-out/_coverage/_coverage_report.dat'') w7" for Q E
    using run r by (simp add: wp_def)
  ultimately show ?thesis
    by (simp add: coverage_main_def coverage_program_def wp_simps parse_args_def parse_known_args_def covered_run(1)
        basic_config_def check_percent_def percent_arg_def arg_value_def arg_default_def in_percent_def load_thresholds_def)
qed

theorem coverage_pass_sound_witness:
  "\<exists>w'. coverage_main writes_report [] covered_world = (Ok (), w') \<and> w_fs w' = covered_fs \<and>
    fs_read (w_fs w') (w_cwd w') (report_below (cwd_or_root (path_of ''/'') w')) = Some covered_text \<and>
    (\<exists>data cur fl fb. parse_lcov (file_lines covered_text) ([], None) = Ok (data, cur) \<and>
      fst (load_thresholds [] covered_world) = Ok (fl, fb) \<and>
      (\<forall>(p, fc) \<in> set data. meets (f_div_pos (Fin 100) 100) (f_div_pos (Fin 100) 100) fl fb fc))"
proof -
  obtain w' where run: "coverage_main writes_report [] covered_world = (Ok (), w')"
    using covered_passes by (auto simp: wp_def split: prod.splits result.splits)
  have args: "fst (parse_args coverage_parser [] covered_world) = Ok []"
    by (simp add: parse_args_def parse_known_args_def covered_run(1) py_simps)
  have log: "basic_config (arg_value [] ''devkit_log_file'') covered_world = (Ok (), covered_world)"
    by (simp add: basic_config_def arg_value_def py_ret_def)
  have pct: "percent_arg [] d = Fin 100" for d by (simp add: percent_arg_def arg_value_def)
  from coverage_pass_sound [OF disjI1 [OF refl] run] args log covered_run(5) obtain content data cur fl fb where c:
    "fst (load_thresholds [] covered_world) = Ok (fl, fb)" "w_fs w' = covered_fs" "w_cwd w' = w_cwd covered_world"
    "fs_read (w_fs w') (w_cwd w') (report_below (cwd_or_root (path_of ''/'') w')) = Some content"
    "parse_lcov (file_lines content) ([], None) = Ok (data, cur)"
    "\<forall>(p, fc) \<in> set data. meets (f_div_pos (Fin 100) 100) (f_div_pos (Fin 100) 100) fl fb fc"
    unfolding writes_report_def by (auto simp: pct)
  have "w_cwd w' = []" using c(3) by (simp add: covered_world_def world_of_def)
  then have "cwd_path w' = path_of ''/''" by (simp add: cwd_path_def) code_simp
  then have "report_below (cwd_or_root (path_of ''/'') w') = path_of ''/bazel-out/_coverage/_coverage_report.dat''"
    by (simp add: cwd_or_root_def) code_simp
  with c(2,4) \<open>w_cwd w' = []\<close> covered_run(3) have "content = covered_text" by simp
  with run c show ?thesis by blast
qed

end
