(* ===== verification/Py_Shell.thy ===== *)
theory Py_Shell
  imports Py_Monad
begin

text \<open>
  Command lines and variables: \<open>shlex.split\<close>, \<open>shlex.quote\<close>, \<open>shlex.join\<close>, \<open>os.path.expandvars\<close>. A quoted
  and joined command line is split back into its arguments.
\<close>

section \<open>\<open>shlex.split\<close>\<close>

text \<open>The states of the tokenizer in POSIX mode that splits at whitespace: between tokens, in a word, in
  quotes, after a backslash (outside and inside double quotes).\<close>

datatype shlex_state = Blank | Word | Quoted char | Escaped | EscapedIn char

definition shlex_space :: "char \<Rightarrow> bool" where
  "shlex_space c = (c = CHR '' '' \<or> c = CHR 0x09 \<or> c = CHR 0x0A \<or> c = CHR 0x0D)"

definition shlex_quote_char :: "char \<Rightarrow> bool" where
  "shlex_quote_char c = (c = CHR 0x27 \<or> c = CHR 0x22)"

text \<open>The token read so far, when there is one: an empty token counts when it was quoted.\<close>

definition token_end :: "bool \<Rightarrow> string \<Rightarrow> string list" where
  "token_end quoted token = (if token = [] \<and> \<not> quoted then [] else [token])"

fun shlex_loop :: "shlex_state \<Rightarrow> bool \<Rightarrow> string \<Rightarrow> string \<Rightarrow> string list result" where
  "shlex_loop Blank quoted token [] = Ok []"
| "shlex_loop Blank quoted token (c # cs) =
     (if shlex_space c then shlex_loop Blank False [] cs
      else if c = CHR 0x5C then shlex_loop Escaped False [] cs
      else if shlex_quote_char c then shlex_loop (Quoted c) False [] cs
      else shlex_loop Word False [c] cs)"
| "shlex_loop Word quoted token [] = Ok (token_end quoted token)"
| "shlex_loop Word quoted token (c # cs) =
     (if shlex_space c then r_bind (shlex_loop Blank False [] cs) (\<lambda>ts. Ok (token_end quoted token @ ts))
      else if shlex_quote_char c then shlex_loop (Quoted c) quoted token cs
      else if c = CHR 0x5C then shlex_loop Escaped quoted token cs
      else shlex_loop Word quoted (token @ [c]) cs)"
| "shlex_loop (Quoted q) quoted token [] = Exc (ValueError ''No closing quotation'')"
| "shlex_loop (Quoted q) quoted token (c # cs) =
     (if c = q then shlex_loop Word True token cs
      else if c = CHR 0x5C \<and> q = CHR 0x22 then shlex_loop (EscapedIn q) True token cs
      else shlex_loop (Quoted q) True (token @ [c]) cs)"
| "shlex_loop Escaped quoted token [] = Exc (ValueError ''No escaped character'')"
| "shlex_loop Escaped quoted token (c # cs) = shlex_loop Word quoted (token @ [c]) cs"
| "shlex_loop (EscapedIn q) quoted token [] = Exc (ValueError ''No escaped character'')"
| "shlex_loop (EscapedIn q) quoted token (c # cs) =
     shlex_loop (Quoted q) quoted (token @ (if c \<noteq> CHR 0x5C \<and> c \<noteq> q then [CHR 0x5C] else []) @ [c]) cs"

definition shlex_split :: "string \<Rightarrow> string list result" where
  "shlex_split s = shlex_loop Blank False [] s"

section \<open>\<open>shlex.quote\<close> and \<open>shlex.join\<close>\<close>

definition word_char :: "char \<Rightarrow> bool" where
  "word_char c = (is_lower c \<or> is_upper c \<or> is_digit c \<or> c = CHR ''_'')"

definition shlex_safe :: "char \<Rightarrow> bool" where
  "shlex_safe c = (word_char c \<or> c \<in> set ''@%+=:,./-'')"

definition shlex_quote :: "string \<Rightarrow> string" where
  "shlex_quote s =
     (if s = [] then [CHR 0x27, CHR 0x27]
      else if list_all shlex_safe s then s
      else [CHR 0x27] @ concat (map (\<lambda>c. if c = CHR 0x27 then [CHR 0x27, CHR 0x22, CHR 0x27, CHR 0x22, CHR 0x27] else [c]) s) @ [CHR 0x27])"

definition shlex_join :: "string list \<Rightarrow> string" where
  "shlex_join ss = py_join '' '' (map shlex_quote ss)"

section \<open>\<open>os.path.expandvars\<close>\<close>

text \<open>
  A match of \<open>\$(\w+|\{[^}]*\})\<close> just after a dollar sign: the name, the matched text, the rest. A value is
  not expanded again; a name without a value stays as it is.
\<close>

definition var_match :: "string \<Rightarrow> (string \<times> string \<times> string) option" where
  "var_match s =
     (case s of
        [] \<Rightarrow> None
      | c # cs \<Rightarrow>
          if word_char c then (let n = takeWhile word_char s in Some (n, n, dropWhile word_char s))
          else if c = CHR ''{'' then
            (let n = takeWhile (\<lambda>x. x \<noteq> CHR ''}'') cs
             in case dropWhile (\<lambda>x. x \<noteq> CHR ''}'') cs of
                  [] \<Rightarrow> None
                | _ # rest \<Rightarrow> Some (n, CHR ''{'' # n @ ''}'', rest))
          else None)"

lemma var_match_shorter: "var_match s = Some (n, m, r) \<Longrightarrow> length r < length s"
proof (cases s)
  case (Cons c cs)
  assume m: "var_match s = Some (n, m, r)"
  show ?thesis
  proof (cases "word_char c")
    case True
    with m Cons have "r = dropWhile word_char cs" by (simp add: var_match_def Let_def)
    with Cons show ?thesis using length_dropWhile_le [of word_char cs] by simp
  next
    case False
    with m Cons obtain x where "dropWhile (\<lambda>x. x \<noteq> CHR ''}'') cs = x # r"
      by (auto simp: var_match_def Let_def split: if_splits list.splits)
    with Cons show ?thesis using length_dropWhile_le [of "\<lambda>x. x \<noteq> CHR ''}''" cs] by simp
  qed
qed (simp add: var_match_def)

function expandvars :: "(string \<times> string) list \<Rightarrow> string \<Rightarrow> string" where
  "expandvars env [] = []"
| "expandvars env (c # cs) =
     (if c \<noteq> CHR ''$'' then c # expandvars env cs
      else case var_match cs of
        None \<Rightarrow> c # expandvars env cs
      | Some (n, m, rest) \<Rightarrow>
          (case map_of env n of Some v \<Rightarrow> v | None \<Rightarrow> c # m) @ expandvars env rest)"
  by pat_completeness auto
termination
  by (relation "measure (\<lambda>(_, s). length s)") (auto dest!: var_match_shorter)

declare expandvars.simps(2) [simp del]

lemma expandvars_plain: "CHR ''$'' \<notin> set s \<Longrightarrow> expandvars env s = s"
  by (induction s) (auto simp: expandvars.simps(2))

section \<open>Splitting what was joined\<close>

lemma shlex_safe_plain: "shlex_safe c \<Longrightarrow> \<not> shlex_space c \<and> \<not> shlex_quote_char c \<and> c \<noteq> CHR 0x5C"
  by (auto simp: shlex_safe_def word_char_def is_lower_def is_upper_def is_digit_def shlex_space_def shlex_quote_char_def less_eq_char_def)

lemma shlex_safe_word: "\<forall>c \<in> set s. shlex_safe c \<Longrightarrow> shlex_loop Word q t (s @ r) = shlex_loop Word q (t @ s) r"
  by (induction s arbitrary: t) (simp_all add: shlex_safe_plain)

definition quote_body :: "string \<Rightarrow> string" where
  "quote_body s = concat (map (\<lambda>c. if c = CHR 0x27 then [CHR 0x27, CHR 0x22, CHR 0x27, CHR 0x22, CHR 0x27] else [c]) s)"

lemma quotes_plain: "\<not> shlex_space (CHR 0x27)" "\<not> shlex_space (CHR 0x22)" "shlex_quote_char (CHR 0x27)" "shlex_quote_char (CHR 0x22)"
  by (simp_all add: shlex_space_def shlex_quote_char_def)

lemma shlex_quoted_body:
  "shlex_loop (Quoted (CHR 0x27)) q t (quote_body s @ CHR 0x27 # r) = shlex_loop Word True (t @ s) r"
  by (induction s arbitrary: q t) (simp_all add: quote_body_def quotes_plain)

lemma shlex_quote_read: "\<exists>q'. token_end q' s = [s] \<and> shlex_loop Blank q t (shlex_quote s @ r) = shlex_loop Word q' s r"
proof (cases "s \<noteq> [] \<and> list_all shlex_safe s")
  case True
  then obtain c cs where s: "s = c # cs" by (cases s) auto
  with True have "shlex_loop Blank q t (shlex_quote s @ r) = shlex_loop Word False s r"
    using shlex_safe_word [of cs False "[c]" r] shlex_safe_plain [of c] by (simp add: shlex_quote_def list_all_iff)
  moreover have "token_end False s = [s]" using True by (simp add: token_end_def)
  ultimately show ?thesis by blast
next
  case False
  then have "shlex_quote s @ r = CHR 0x27 # quote_body s @ CHR 0x27 # r"
    by (auto simp: shlex_quote_def quote_body_def)
  then have "shlex_loop Blank q t (shlex_quote s @ r) = shlex_loop Word True s r"
    using shlex_quoted_body [of False "[]" s r] by (simp add: quotes_plain)
  then show ?thesis by (auto simp: token_end_def)
qed

lemma shlex_split_join: "shlex_loop Blank q t (py_join '' '' (map shlex_quote ss)) = Ok ss"
proof (induction ss arbitrary: q t)
  case (Cons s ss)
  show ?case
  proof (cases ss)
    case Nil
    then show ?thesis using shlex_quote_read [of s q t "[]"] by auto
  next
    case (Cons s2 ss2)
    let ?rest = "py_join '' '' (map shlex_quote ss)"
    have "py_join '' '' (map shlex_quote (s # ss)) = shlex_quote s @ CHR '' '' # ?rest" using Cons by simp
    moreover obtain q' where "token_end q' s = [s]"
      "shlex_loop Blank q t (shlex_quote s @ CHR '' '' # ?rest) = shlex_loop Word q' s (CHR '' '' # ?rest)"
      using shlex_quote_read by blast
    moreover have "shlex_space (CHR '' '')" by (simp add: shlex_space_def)
    ultimately show ?thesis using Cons.IH by simp
  qed
qed simp

text \<open>A joined command line splits into the arguments it was made from.\<close>

lemma shlex_roundtrip: "shlex_split (shlex_join ss) = Ok ss"
  by (simp add: shlex_split_def shlex_join_def shlex_split_join)

end
