(* ===== verification/Py_Fs_Laws.thy ===== *)
theory Py_Fs_Laws
  imports Py_Fs
begin

text \<open>
  Laws of name resolution: resolving a path in two parts, resolving with more links allowed, and
  the bound on the length of a path that resolves. They are what makes the loops over symbolic
  links terminate.
\<close>

definition dir_at :: "fnode \<Rightarrow> canon \<Rightarrow> bool" where
  "dir_at r c = (\<exists>es. get_node r c = Some (FDir es))"

lemma dir_at_root [simp]: "dir_at (FDir es) []"
  by (simp add: dir_at_def)

lemma dir_at_butlast: "dir_at r c \<Longrightarrow> dir_at r (butlast c)"
  by (cases c rule: rev_cases) (auto simp: dir_at_def dest: get_node_parent)

lemma namei_skip [simp]: "namei r n fl cur ('''' # cs) = namei r n fl cur cs"
  "namei r n fl cur (''.'' # cs) = namei r n fl cur cs"
  "namei r n fl cur (''..'' # cs) = namei r n fl (butlast cur) cs"
  by (simp_all add: namei.simps)

text \<open>A component that names an entry.\<close>

abbreviation entry_name :: "string \<Rightarrow> bool" where
  "entry_name c \<equiv> c \<noteq> '''' \<and> c \<noteq> ''.'' \<and> c \<noteq> ''..''"

lemma namei_entry:
  "entry_name c \<Longrightarrow> namei r n fl cur (c # cs) =
     (case get_node r (cur @ [c]) of
        None \<Rightarrow> Inl ENOENT
      | Some (FBad m) \<Rightarrow> Inl (EIO m)
      | Some (FDir es) \<Rightarrow> namei r n fl (cur @ [c]) cs
      | Some (FFile t) \<Rightarrow> (if cs = [] then Inr (cur @ [c], n) else Inl ENOTDIR)
      | Some (FLink t) \<Rightarrow>
          (if cs = [] \<and> \<not> fl then Inr (cur @ [c], n)
           else if n = 0 then Inl ELOOP
           else if t = '''' then Inl ENOENT
           else namei r (n - 1) fl (if py_startswith t ''/'' then [] else cur) (split_on (CHR ''/'') t @ cs)))"
  by (simp add: namei.simps(2))

text \<open>The steps of a resolution that succeeds.\<close>

inductive resolves :: "fnode \<Rightarrow> bool \<Rightarrow> nat \<Rightarrow> canon \<Rightarrow> string list \<Rightarrow> canon \<Rightarrow> nat \<Rightarrow> bool" for r fl where
  res_end: "dir_at r cur \<Longrightarrow> resolves r fl n cur [] cur n"
| res_skip: "d = '''' \<or> d = ''.'' \<Longrightarrow> dir_at r cur \<Longrightarrow> resolves r fl n cur cs c m \<Longrightarrow> resolves r fl n cur (d # cs) c m"
| res_up: "dir_at r cur \<Longrightarrow> resolves r fl n (butlast cur) cs c m \<Longrightarrow> resolves r fl n cur (''..'' # cs) c m"
| res_dir: "entry_name d \<Longrightarrow> dir_at r cur \<Longrightarrow> dir_at r (cur @ [d]) \<Longrightarrow> resolves r fl n (cur @ [d]) cs c m \<Longrightarrow>
     resolves r fl n cur (d # cs) c m"
| res_file: "entry_name d \<Longrightarrow> dir_at r cur \<Longrightarrow> get_node r (cur @ [d]) = Some (FFile t) \<Longrightarrow> resolves r fl n cur [d] (cur @ [d]) n"
| res_link: "entry_name d \<Longrightarrow> dir_at r cur \<Longrightarrow> get_node r (cur @ [d]) = Some (FLink t) \<Longrightarrow> \<not> fl \<Longrightarrow>
     resolves r fl n cur [d] (cur @ [d]) n"
| res_follow: "entry_name d \<Longrightarrow> dir_at r cur \<Longrightarrow> get_node r (cur @ [d]) = Some (FLink t) \<Longrightarrow> cs \<noteq> [] \<or> fl \<Longrightarrow> t \<noteq> '''' \<Longrightarrow>
     resolves r fl n (if py_startswith t ''/'' then [] else cur) (split_on (CHR ''/'') t @ cs) c m \<Longrightarrow>
     resolves r fl (Suc n) cur (d # cs) c m"

lemma namei_resolves:
  assumes "dir_at r []" "dir_at r cur" "namei r n fl cur cs = Inr (c, m)"
  shows "resolves r fl n cur cs c m"
  using assms
proof (induction r n fl cur cs rule: namei.induct)
  case (1 r n fl cur)
  then show ?case by (auto simp: namei.simps intro: resolves.intros)
next
  case (2 r n fl cur d cs)
  show ?case
  proof (cases "entry_name d")
    case False
    with 2 show ?thesis by (auto intro: res_skip intro!: res_up dest: dir_at_butlast)
  next
    case True
    then have d: "\<not> (d = '''' \<or> d = ''.'')" "d \<noteq> ''..''" by auto
    from "2.prems"(3) True obtain x where x: "get_node r (cur @ [d]) = Some x"
      by (auto simp: namei_entry split: option.splits)
    show ?thesis
    proof (cases x)
      case (FFile t)
      with 2 True x show ?thesis by (auto simp: namei_entry intro: resolves.intros split: if_splits)
    next
      case (FBad t)
      with 2 True x show ?thesis by (simp add: namei_entry)
    next
      case (FDir es)
      with x have "dir_at r (cur @ [d])" by (simp add: dir_at_def)
      with 2 True x FDir d show ?thesis by (auto simp: namei_entry intro: resolves.intros)
    next
      case (FLink t)
      show ?thesis
      proof (cases "cs = [] \<and> \<not> fl")
        case False
        with "2.prems"(3) True x FLink have n: "n \<noteq> 0" "t \<noteq> ''''" by (auto simp: namei_entry split: if_splits)
        with "2.prems" "2.IH"(3) [OF d x FLink False n] True x FLink False
        have "resolves r fl (n - 1) (if py_startswith t ''/'' then [] else cur) (split_on (CHR ''/'') t @ cs) c m"
          by (auto simp: namei_entry split: if_splits)
        with True "2.prems"(2) x FLink False n show ?thesis using res_follow [of d r cur t cs fl "n - 1" c m] by auto
      qed (use 2 True x FLink in \<open>auto simp: namei_entry intro: resolves.intros\<close>)
    qed
  qed
qed

lemma resolves_dir: "resolves r fl n cur cs c m \<Longrightarrow> dir_at r cur"
  by (induction rule: resolves.induct) auto

lemma resolves_namei: "resolves r fl n cur cs c m \<Longrightarrow> namei r n fl cur cs = Inr (c, m)"
  by (induction rule: resolves.induct) (auto simp: namei.simps(1) namei_entry dir_at_def)

lemma resolves_le: "resolves r fl n cur cs c m \<Longrightarrow> m \<le> n"
  by (induction rule: resolves.induct) auto

text \<open>More links allowed: as many more are left.\<close>

lemma resolves_more: "resolves r fl n cur cs c m \<Longrightarrow> resolves r fl (n + k) cur cs c (m + k)"
  by (induction rule: resolves.induct) (auto intro: resolves.intros)

text \<open>Leaving out empty components and dots.\<close>

inductive thin :: "string list \<Rightarrow> string list \<Rightarrow> bool" where
  thin_Nil: "thin [] []"
| thin_keep: "thin xs ys \<Longrightarrow> thin (x # xs) (x # ys)"
| thin_drop: "x = '''' \<or> x = ''.'' \<Longrightarrow> thin xs ys \<Longrightarrow> thin (x # xs) ys"

inductive_cases thin_NilE: "thin [] ys"
inductive_cases thin_ConsE: "thin (x # xs) ys"

lemma thin_refl: "thin xs xs"
  by (induction xs) (auto intro: thin.intros)

lemma thin_append: "thin xs ys \<Longrightarrow> thin (zs @ xs) (zs @ ys)"
  by (induction zs) (auto intro: thin.intros)

lemma thin_filter: "thin xs (filter (\<lambda>c. c \<noteq> '''' \<and> c \<noteq> ''.'') xs)"
  by (induction xs) (auto intro: thin.intros)

lemma resolves_thin: "resolves r True n cur cs c m \<Longrightarrow> thin cs ds \<Longrightarrow> resolves r True n cur ds c m"
proof (induction arbitrary: ds rule: resolves.induct)
  case (res_follow d cur t cs n c m)
  from res_follow.prems res_follow.hyps obtain ds' where ds: "ds = d # ds'" "thin cs ds'"
    by (auto elim: thin_ConsE)
  from res_follow.IH [OF thin_append [OF ds(2)]] res_follow.hyps ds(1) show ?case
    by (auto intro: resolves.res_follow)
qed (auto elim!: thin_NilE thin_ConsE intro: resolves.intros)

text \<open>Resolving a path in two parts.\<close>

lemma resolves_append:
  assumes "resolves r True n cur xs c k" "resolves r True k c ys d m"
  shows "resolves r True n cur (xs @ ys) d m"
  using assms
proof (induction arbitrary: ys rule: resolves.induct)
  case (res_file e cur t n)
  from resolves_dir [OF res_file.prems] res_file.hyps show ?case by (simp add: dir_at_def)
qed (auto intro: resolves.intros)

lemma resolves_split_Nil:
  "resolves r fl n cur ys d m \<Longrightarrow> \<exists>c k. resolves r True n cur [] c k \<and> resolves r fl k c ys d m"
  by (meson res_end resolves_dir)

text \<open>A component that is passed without following a link.\<close>

lemma resolves_split_step:
  assumes step: "\<And>fl cs d m. resolves r fl n cur' cs d m \<Longrightarrow> resolves r fl n cur (e # cs) d m"
    and hyp: "resolves r fl n cur' cs d m"
    and IH: "\<And>xs'. cs = xs' @ ys \<Longrightarrow> \<exists>c k. resolves r True n cur' xs' c k \<and> resolves r fl k c ys d m"
    and split: "e # cs = xs @ ys"
  shows "\<exists>c k. resolves r True n cur xs c k \<and> resolves r fl k c ys d m"
proof (cases xs)
  case Nil
  with split step [OF hyp] show ?thesis using resolves_split_Nil by simp
next
  case (Cons x xs')
  with split have "x = e" "cs = xs' @ ys" by auto
  with IH [OF this(2)] Cons step show ?thesis by blast
qed

lemma resolves_split:
  assumes "resolves r fl n cur cs d m" "cs = xs @ ys" "ys \<noteq> []"
  shows "\<exists>c k. resolves r True n cur xs c k \<and> resolves r fl k c ys d m"
  using assms
proof (induction arbitrary: xs rule: resolves.induct)
  case (res_skip e cur n cs c m)
  from resolves_split_step [OF resolves.res_skip [OF res_skip.hyps(1,2)] res_skip.hyps(3) res_skip.IH] res_skip.prems
  show ?case by blast
next
  case (res_up cur n cs c m)
  from resolves_split_step [OF resolves.res_up [OF res_up.hyps(1)] res_up.hyps(2) res_up.IH] res_up.prems
  show ?case by blast
next
  case (res_dir e cur n cs c m)
  from resolves_split_step [OF resolves.res_dir [OF res_dir.hyps(1-3)] res_dir.hyps(4) res_dir.IH] res_dir.prems
  show ?case by blast
next
  case (res_follow e cur t cs n c m)
  show ?case
  proof (cases xs)
    case Nil
    with resolves.res_follow [OF res_follow.hyps] res_follow.prems have "resolves r fl (Suc n) cur ys c m" by simp
    then show ?thesis unfolding Nil by (rule resolves_split_Nil)
  next
    case (Cons x xs')
    with res_follow.prems have x: "x = e" "cs = xs' @ ys" by auto
    then obtain b k where "resolves r True n (if py_startswith t ''/'' then [] else cur) (split_on (CHR ''/'') t @ xs') b k"
      "resolves r fl k b ys c m" using res_follow.IH [of "split_on (CHR ''/'') t @ xs'"] res_follow.prems(2) by auto
    with res_follow.hyps x Cons show ?thesis by (auto intro: resolves.res_follow)
  qed
qed (auto simp: Cons_eq_append_conv intro: resolves.intros)

text \<open>A final link that is not followed.\<close>

lemma resolves_node:
  "resolves r fl n cur cs c m \<Longrightarrow> fl \<Longrightarrow> dir_at r c \<or> (\<exists>t. get_node r c = Some (FFile t))"
  by (induction rule: resolves.induct) auto

lemma resolves_link:
  assumes "resolves r False n cur cs c m" "get_node r c = Some (FLink t)"
  shows "\<exists>ps d b. cs = ps @ [d] \<and> entry_name d \<and> resolves r True n cur ps b m \<and> c = b @ [d]"
proof -
  from assms have "cs \<noteq> []" by (auto elim: resolves.cases simp: dir_at_def)
  then obtain ps d where cs: "cs = ps @ [d]" by (cases cs rule: rev_cases) auto
  with resolves_split [OF assms(1) cs] obtain b k where
    b: "resolves r True n cur ps b k" "resolves r False k b [d] c m" by blast
  have last: "c' = b' \<and> m' = k' \<and> dir_at r b'" if "resolves r False k' b' [] c' m'" for b' k' c' m'
    using that by (auto elim: resolves.cases)
  have nolink: "\<not> dir_at r c" using assms(2) by (simp add: dir_at_def)
  from b(2) have "c = b @ [d] \<and> k = m \<and> entry_name d"
  proof cases
    case res_skip
    with last nolink show ?thesis by blast
  next
    case res_up
    with last nolink show ?thesis by blast
  next
    case res_dir
    with last nolink show ?thesis by blast
  qed (use assms(2) in auto)
  with b cs show ?thesis by blast
qed

text \<open>
  A path of entry names is no longer than the tree is deep, times the links followed: each entry
  leads one level down or is a link.
\<close>

fun depth :: "fnode \<Rightarrow> nat" where
  "depth (FDir es) = Suc (foldr max (map (\<lambda>e. depth (snd e)) es) 0)"
| "depth _ = 0"

fun entry_names :: "fnode \<Rightarrow> string list" where
  "entry_names (FDir es) = concat (map (\<lambda>e. fst e # entry_names (snd e)) es)"
| "entry_names _ = []"

lemma foldr_max_ge: "x \<in> set xs \<Longrightarrow> x \<le> foldr max xs (0 :: nat)"
  by (induction xs) (auto simp: le_max_iff_disj)

lemma get_node_depth: "get_node r p = Some x \<Longrightarrow> length p \<le> depth r"
proof (induction r p rule: get_node.induct)
  case (2 es c cs)
  then obtain n where n: "map_of es c = Some n" "get_node n cs = Some x" by (auto split: option.splits)
  from n(1) have "(c, n) \<in> set es" by (rule map_of_SomeD)
  then have "depth n \<le> foldr max (map (\<lambda>e. depth (snd e)) es) 0" by (intro foldr_max_ge) force
  with "2.IH" [OF n] show ?case by simp
qed auto

lemma get_node_names: "get_node r p = Some x \<Longrightarrow> set p \<subseteq> set (entry_names r)"
proof (induction r p rule: get_node.induct)
  case (2 es c cs)
  then obtain n where n: "map_of es c = Some n" "get_node n cs = Some x" by (auto split: option.splits)
  from n(1) have "(c, n) \<in> set es" by (rule map_of_SomeD)
  with "2.IH" [OF n] show ?case by force
qed auto

lemma resolves_bound:
  assumes "resolves r fl n cur cs c m" "cs = us @ vs" "\<forall>v \<in> set vs. entry_name v"
  shows "length vs \<le> (if us = [] then depth r - length cur else depth r) + (n - m) * Suc (depth r) \<and>
    set vs \<subseteq> set (entry_names r)"
  using assms
proof (induction arbitrary: us vs rule: resolves.induct)
  case (res_follow d cur t cs n c m)
  have le: "m \<le> n" using resolves_le [OF res_follow.hyps(6)] .
  then have mult: "(Suc n - m) * Suc (depth r) = Suc (depth r) + (n - m) * Suc (depth r)"
    by (simp add: Suc_diff_le)
  show ?case
  proof (cases us)
    case Nil
    with res_follow.prems have vs: "vs = d # cs" by simp
    then have e: "\<forall>v \<in> set cs. entry_name v" using res_follow.prems(2) by simp
    from res_follow.IH [OF refl e] have
      "length cs \<le> depth r + (n - m) * Suc (depth r)" "set cs \<subseteq> set (entry_names r)" by (simp_all split: if_splits)
    with vs Nil mult get_node_names [OF res_follow.hyps(3)] show ?thesis by simp
  next
    case (Cons u us')
    with res_follow.prems have "split_on (CHR ''/'') t @ cs = (split_on (CHR ''/'') t @ us') @ vs" by simp
    from res_follow.IH [OF this res_follow.prems(2)]
    have "length vs \<le> depth r + (n - m) * Suc (depth r)" "set vs \<subseteq> set (entry_names r)" by simp_all
    with Cons mult show ?thesis by simp
  qed
next
  case (res_skip d cur n cs c m)
  then obtain us' where us: "us = d # us'" "cs = us' @ vs" by (cases us) auto
  from res_skip.IH [OF us(2) res_skip.prems(2)] us(1) show ?case by (auto split: if_splits)
next
  case (res_up cur n cs c m)
  then obtain us' where us: "us = ''..'' # us'" "cs = us' @ vs" by (cases us) auto
  from res_up.IH [OF us(2) res_up.prems(2)] us(1) show ?case by (auto split: if_splits)
next
  case (res_dir d cur n cs c m)
  from res_dir.hyps(3) obtain es where node: "get_node r (cur @ [d]) = Some (FDir es)" by (auto simp: dir_at_def)
  show ?case
  proof (cases us)
    case Nil
    with res_dir.prems(1) have vs: "vs = [d] @ cs" by simp
    have "\<forall>v \<in> set cs. entry_name v" using res_dir.prems(2) unfolding vs by simp
    with res_dir.IH [of "[]" cs] have "length cs \<le> depth r - length (cur @ [d]) + (n - m) * Suc (depth r)"
      "set cs \<subseteq> set (entry_names r)" by simp_all
    with Nil vs get_node_depth [OF node] get_node_names [OF node] show ?thesis by simp
  next
    case (Cons u us')
    with res_dir.prems have "cs = us' @ vs" by simp
    from res_dir.IH [OF this res_dir.prems(2)] Cons show ?thesis by (auto split: if_splits)
  qed
next
  case (res_file d cur t n)
  with get_node_depth [OF res_file.hyps(3)] get_node_names [OF res_file.hyps(3)] show ?case
    by (cases us) auto
next
  case (res_link d cur t n)
  with get_node_depth [OF res_link.hyps(3)] get_node_names [OF res_link.hyps(3)] show ?case
    by (cases us) auto
qed simp

text \<open>So only finitely many normalised absolute paths resolve.\<close>

lemma finite_resolvable:
  "finite {p. proot p \<in> {''/'', ''//''} \<and> (\<forall>v \<in> set (tail p). entry_name v) \<and>
     (\<exists>c m. resolves r fl n [] (tail p) c m)}" (is "finite ?S")
proof -
  let ?L = "{vs. set vs \<subseteq> set (entry_names r) \<and> length vs \<le> depth r + n * Suc (depth r)}"
  have "?S \<subseteq> (\<lambda>(a, vs). Path a vs) ` ({''/'', ''//''} \<times> ?L)"
  proof
    fix p assume p: "p \<in> ?S"
    then obtain c m where "resolves r fl n [] (tail p) c m" by auto
    from resolves_bound [OF this, of "[]" "tail p"] p
    have b: "length (tail p) \<le> depth r + (n - m) * Suc (depth r)" "set (tail p) \<subseteq> set (entry_names r)" by simp_all
    have "(n - m) * Suc (depth r) \<le> n * Suc (depth r)" by (intro mult_le_mono1) simp
    with b have "tail p \<in> ?L" by simp
    with p show "p \<in> (\<lambda>(a, vs). Path a vs) ` ({''/'', ''//''} \<times> ?L)"
      by (intro image_eqI [of _ _ "(proot p, tail p)"]) auto
  qed
  moreover have "finite ?L" by (rule finite_lists_length_le) simp
  then have "finite ((\<lambda>(a, vs). Path a vs) ` ({''/'', ''//''} \<times> ?L))" by (intro finite_imageI finite_cartesian_product) simp_all
  ultimately show ?thesis by (rule finite_subset)
qed

section \<open>Chains of links\<close>

text \<open>How many links the kernel may still follow after resolving an absolute path; 0 when it does
  not resolve.\<close>

definition links_left :: "fnode \<Rightarrow> path \<Rightarrow> nat" where
  "links_left r p = (case namei r link_limit True [] (tail p) of Inr (c, m) \<Rightarrow> Suc m | Inl _ \<Rightarrow> 0)"

lemma links_left_resolves: "resolves r True link_limit [] (tail p) c m \<Longrightarrow> links_left r p = Suc m"
  by (simp add: links_left_def resolves_namei)

lemma links_left_le: "dir_at r [] \<Longrightarrow> links_left r p \<le> Suc link_limit"
  using namei_resolves [of r "[]" link_limit True "tail p"] resolves_le
  by (auto simp: links_left_def split: sum.splits prod.splits)

text \<open>The path a link leads to, if the link can be read and its target exists.\<close>

definition link_target :: "fnode \<Rightarrow> canon \<Rightarrow> path \<Rightarrow> path option" where
  "link_target r cwd p =
     (if fs_is_symlink r cwd p = Inr True then
        case fs_readlink r cwd p of
          None \<Rightarrow> None
        | Some t \<Rightarrow>
            let q = path_div (path_parent p) (path_of t)
            in if fs_exists r cwd q = Inr True then Some q else None
      else None)"

lemma link_target_rooted:
  "link_target r cwd p = Some q \<Longrightarrow> proot p \<noteq> '''' \<Longrightarrow> proot q \<noteq> ''''"
  by (auto simp: link_target_def Let_def path_div_def path_parent_def split: if_splits option.splits)

lemma link_target_wf: "link_target r cwd p = Some q \<Longrightarrow> path_wf p \<Longrightarrow> path_wf q"
  by (auto simp: link_target_def Let_def path_wf_def [of "path_parent p"] path_parent_def
      intro!: path_div_wf path_of_wf split: if_splits option.splits dest: in_set_butlastD) (auto simp: path_wf_def dest: in_set_butlastD)

text \<open>Every link followed on the way costs the first path one more than the second.\<close>

lemma links_left_follow:
  assumes root: "dir_at r []" "proot p \<noteq> ''''" and link: "link_target r cwd p = Some q"
  shows "links_left r p < links_left r q"
proof -
  from link obtain t where t: "fs_readlink r cwd p = Some t" "q = path_div (path_parent p) (path_of t)"
    "fs_exists r cwd q = Inr True"
    by (auto simp: link_target_def Let_def split: if_splits option.splits)
  note abs = link_target_rooted [OF link root(2)]
  from t(3) abs have qpos: "links_left r q > 0"
    by (auto simp: fs_exists_def probe_def fs_stat_def base_of_def links_left_def split: sum.splits fs_error.splits)
  from t(1) root(2) obtain c m where c: "namei r link_limit False [] (tail p) = Inr (c, m)" "get_node r c = Some (FLink t)"
    by (cases "namei r link_limit False [] (tail p)")
      (auto simp: fs_readlink_def fs_lstat_def base_of_def split: option.splits fnode.splits)
  from resolves_link [OF namei_resolves [OF root(1) root(1) c(1)] c(2)] obtain ps d b where
    b: "tail p = ps @ [d]" "resolves r True link_limit [] ps b m" "c = b @ [d]" "entry_name d" by blast
  show ?thesis
  proof (cases "links_left r p")
    case 0
    with qpos show ?thesis by simp
  next
    case (Suc m2)
    then obtain c2 where "namei r link_limit True [] (tail p) = Inr (c2, m2)"
      by (auto simp: links_left_def split: sum.splits)
    from namei_resolves [OF root(1) root(1) this] have full: "resolves r True link_limit [] (tail p) c2 m2" .
    from resolves_split [OF full b(1)] obtain b' k' where
      s: "resolves r True link_limit [] ps b' k'" "resolves r True k' b' [d] c2 m2" by blast
    from resolves_namei [OF s(1)] resolves_namei [OF b(2)] have eq: "b' = b" "k' = m" by auto
    from s(2) [unfolded eq] obtain m' where m': "m = Suc m'"
      "resolves r True m' (if py_startswith t ''/'' then [] else b) (split_on (CHR ''/'') t @ []) c2 m2"
      by cases (use b(3,4) c(2) in \<open>auto simp: dir_at_def\<close>)
    from resolves_thin [OF m'(2), of "components t"] have
      tgt: "resolves r True m' (if py_startswith t ''/'' then [] else b) (components t) c2 m2"
      by (simp add: components_def thin_filter)
    have lim: "Suc m' \<le> link_limit" using resolves_le [OF b(2)] m'(1) by simp
    show ?thesis
    proof (cases "py_startswith t ''/''")
      case True
      then have "tail q = components t" unfolding t(2) by (simp add: path_div_def path_of_def)
      with resolves_more [OF tgt, of "link_limit - m'"] True lim
      have "resolves r True link_limit [] (tail q) c2 (m2 + (link_limit - m'))" by simp
      from links_left_resolves [OF this] Suc lim show ?thesis by simp
    next
      case False
      then have q: "tail q = ps @ components t" unfolding t(2) by (simp add: path_div_def path_of_def path_parent_def b(1))
      from resolves_more [OF tgt, of 1] False m'(1) have "resolves r True m b (components t) c2 (Suc m2)" by simp
      from resolves_append [OF b(2) this] have "resolves r True link_limit [] (tail q) c2 (Suc m2)" unfolding q .
      from links_left_resolves [OF this] Suc show ?thesis by simp
    qed
  qed
qed

end
