(* ===== verification/External_Mounts.thy ===== *)
theory External_Mounts
  imports Py_Argparse Py_Fs_Laws "HOL-Library.List_Lexorder" "HOL-Library.Char_ord"
begin

text \<open>
  \<open>.devkit/scripts/list_external_mounts.py\<close>: the directories and files outside a directory that
  symbolic links inside it lead to, and the smallest set of mounts that covers them. Sets of
  paths are lists without repetition, in the order of insertion; the order in which Python
  iterates over a set is the parameter \<open>set_order\<close> of the main program.
\<close>

section \<open>Following one link\<close>

text \<open>\<open>external_paths\<close> and \<open>worklist\<close>.\<close>

type_synonym mounts = "path list \<times> path list"

definition add_external :: "fnode \<Rightarrow> canon \<Rightarrow> canon \<Rightarrow> path \<Rightarrow> mounts \<Rightarrow> mounts result" where
  "add_external r cwd scan abs_target st =
     (case st of (external_paths, worklist) \<Rightarrow>
      case commonpath (Path ''/'' scan) (normpath abs_target) of
        None \<Rightarrow> Exc (ValueError ''mixing absolute and relative paths'')
      | Some common \<Rightarrow>
          let norm_target = normpath abs_target in
          if path_str (normpath common) = path_str (Path ''/'' scan) then Ok st
          else if norm_target \<in> set external_paths then Ok st
          else case fs_is_dir r cwd norm_target of
                 Inl m \<Rightarrow> Exc (OSError m)
               | Inr b \<Rightarrow> Ok (external_paths @ [norm_target], if b then worklist @ [norm_target] else worklist))"

text \<open>
  The loop of \<open>_process_symlink\<close>. It needs at most as many rounds as the kernel follows links,
  plus two; \<^const>\<open>Diverges\<close> is proved not to happen.
\<close>

fun process_loop ::
  "fnode \<Rightarrow> canon \<Rightarrow> canon \<Rightarrow> nat \<Rightarrow> path list \<Rightarrow> path \<Rightarrow> mounts \<Rightarrow> mounts result" where
  "process_loop r cwd scan 0 visited_in_chain current_path st = Exc Diverges"
| "process_loop r cwd scan (Suc n) visited_in_chain current_path st =
     (case fs_is_symlink r cwd current_path of
        Inl m \<Rightarrow> Exc (OSError m)
      | Inr False \<Rightarrow> Ok st
      | Inr True \<Rightarrow>
          if current_path \<in> set visited_in_chain then Ok st
          else case fs_readlink r cwd current_path of
                 None \<Rightarrow> Ok st
               | Some target \<Rightarrow>
                   (let abs_target = path_div (path_parent current_path) (path_of target) in
                    case fs_exists r cwd abs_target of
                      Inl m \<Rightarrow> Exc (OSError m)
                    | Inr False \<Rightarrow> Ok st
                    | Inr True \<Rightarrow>
                        (case add_external r cwd scan abs_target st of
                           Exc e \<Rightarrow> Exc e
                         | Ok st' \<Rightarrow> process_loop r cwd scan n (current_path # visited_in_chain) abs_target st')))"

definition process_symlink :: "fnode \<Rightarrow> canon \<Rightarrow> canon \<Rightarrow> path \<Rightarrow> mounts \<Rightarrow> mounts result" where
  "process_symlink r cwd scan path st = process_loop r cwd scan (link_limit + 2) [] path st"

section \<open>Scanning\<close>

definition process_entry :: "fnode \<Rightarrow> canon \<Rightarrow> canon \<Rightarrow> path \<times> string \<Rightarrow> mounts \<Rightarrow> mounts result" where
  "process_entry r cwd scan e st =
     (let path = path_sub (fst e) (snd e) in
      case fs_is_symlink r cwd path of
        Inl m \<Rightarrow> Exc (OSError m)
      | Inr b \<Rightarrow>
          if b \<and> \<not> py_startswith (snd e) ''bazel-'' then process_symlink r cwd scan path st else Ok st)"

definition walk_entries :: "walk_step list \<Rightarrow> (path \<times> string) list" where
  "walk_entries steps = concat (map (\<lambda>(root, dirs, files). map (Pair root) (dirs @ files)) steps)"

fun fold_result :: "('a \<Rightarrow> 's \<Rightarrow> 's result) \<Rightarrow> 'a list \<Rightarrow> 's \<Rightarrow> 's result" where
  "fold_result f [] s = Ok s"
| "fold_result f (x # xs) s = (case f x s of Exc e \<Rightarrow> Exc e | Ok s' \<Rightarrow> fold_result f xs s')"

definition scan_entries :: "fnode \<Rightarrow> canon \<Rightarrow> path \<Rightarrow> (path \<times> string) list" where
  "scan_entries r cwd d = walk_entries (os_walk r cwd (remove1 ''.venv'') d)"

definition scan_directory :: "fnode \<Rightarrow> canon \<Rightarrow> canon \<Rightarrow> path \<Rightarrow> mounts \<Rightarrow> mounts result" where
  "scan_directory r cwd scan d st = fold_result (process_entry r cwd scan) (scan_entries r cwd d) st"

text \<open>The loop over the work list; \<^const>\<open>None\<close> would be a loop that does not end.\<close>

partial_function (option) scan_loop ::
  "fnode \<Rightarrow> canon \<Rightarrow> canon \<Rightarrow> path list \<Rightarrow> path list \<Rightarrow> path list \<Rightarrow> path list result option" where
  [code]: "scan_loop r cwd scan scanned external_paths worklist =
     (case worklist of
        [] \<Rightarrow> Some (Ok external_paths)
      | cur_dir # rest \<Rightarrow>
          if cur_dir \<in> set scanned then scan_loop r cwd scan scanned external_paths rest
          else case scan_directory r cwd scan cur_dir (external_paths, rest) of
                 Exc e \<Rightarrow> Some (Exc e)
               | Ok st \<Rightarrow> scan_loop r cwd scan (cur_dir # scanned) (fst st) (snd st))"

definition list_external_mounts :: "path \<Rightarrow> path list py" where
  "list_external_mounts scan_dir =
     py_bind (path_resolve scan_dir) (\<lambda>scan_dir_abs w.
       case scan_loop (w_fs w) (w_cwd w) (tail scan_dir_abs) [] [] [scan_dir_abs] of
         None \<Rightarrow> (Exc Diverges, w)
       | Some (Exc e) \<Rightarrow> (Exc e, w)
       | Some (Ok ps) \<Rightarrow> (Ok ps, w))"

section \<open>Minimal mounts\<close>

definition minimize_step :: "path list \<Rightarrow> path \<Rightarrow> path list" where
  "minimize_step minimal_paths path =
     (if list_ex (\<lambda>p. is_relative_to path p) minimal_paths then minimal_paths
      else filter (\<lambda>p. \<not> is_relative_to p path) minimal_paths @ [path])"

definition minimize_paths :: "path list \<Rightarrow> path list" where
  "minimize_paths paths = foldl minimize_step [] (sort_key path_key paths)"

definition set_union :: "'a list \<Rightarrow> 'a list \<Rightarrow> 'a list" where
  "set_union xs ys = remdups (xs @ ys)"

fun resolve_all :: "path list \<Rightarrow> path list py" where
  "resolve_all [] = py_ret []"
| "resolve_all (p # ps) = py_bind (path_resolve p) (\<lambda>q. py_bind (resolve_all ps) (\<lambda>qs. py_ret (q # qs)))"

definition get_minimal_mounts :: "path \<Rightarrow> path list \<Rightarrow> path list py" where
  "get_minimal_mounts root_dir existing_mounts =
     py_bind (list_external_mounts root_dir) (\<lambda>symlink_paths.
     py_bind (resolve_all existing_mounts) (\<lambda>resolved.
     py_bind (lift_probe fs_is_symlink root_dir) (\<lambda>is_link.
     py_bind (if is_link then py_bind (path_resolve root_dir) (\<lambda>q. py_ret [q]) else py_ret []) (\<lambda>physical.
     py_ret (minimize_paths (set_union symlink_paths (set_union (set_union existing_mounts resolved) physical)))))))"

definition external_mounts_parser :: parser where
  "external_mounts_parser = \<lparr>p_opts =
     [help_opt,
      mk_opt [''--root-dir''] ''root_dir'' NOne,
      mk_opt [''--mount''] ''existing_mounts'' NAppend],
     p_positional = None\<rparr>"

definition external_mounts_main :: "(path list \<Rightarrow> path list) \<Rightarrow> string list \<Rightarrow> unit py" where
  "external_mounts_main set_order argv =
     py_bind (parse_args external_mounts_parser argv) (\<lambda>args.
     py_bind (py_get (\<lambda>w. path_of (arg_default args ''root_dir'' (path_str (cwd_path w))))) (\<lambda>root_dir.
     py_bind (get_minimal_mounts root_dir (map path_of (arg_list args ''existing_mounts''))) (\<lambda>ms.
     py_for (set_order ms) (\<lambda>p. py_print (path_str p)))))"

section \<open>The minimal set\<close>

text \<open>What the minimisation relies on: an order on the elements, and a step that drops a candidate
  below a kept element and otherwise replaces the kept elements below it.\<close>

locale path_hierarchy =
  fixes below :: "'a \<Rightarrow> 'a \<Rightarrow> bool" and step :: "'a list \<Rightarrow> 'a \<Rightarrow> 'a list"
  assumes below_refl: "below x x"
    and below_trans: "below x y \<Longrightarrow> below y z \<Longrightarrow> below x z"
    and below_antisym: "below x y \<Longrightarrow> below y x \<Longrightarrow> x = y"
    and set_step: "set (step ms x) =
      (if \<exists>m \<in> set ms. below x m then set ms else insert x {m \<in> set ms. \<not> below m x})"
    and distinct_step: "distinct ms \<Longrightarrow> distinct (step ms x)"
begin

definition tops :: "'a set \<Rightarrow> 'a set" where
  "tops A = {x \<in> A. \<forall>y \<in> A. below x y \<longrightarrow> y = x}"

lemma tops_cover: "finite A \<Longrightarrow> x \<in> A \<Longrightarrow> \<exists>y \<in> tops A. below x y"
proof (induction "card {y \<in> A. below x y \<and> y \<noteq> x}" arbitrary: x rule: less_induct)
  case less
  show ?case
  proof (cases "x \<in> tops A")
    case True
    then show ?thesis using below_refl by blast
  next
    case False
    with less.prems obtain y where y: "y \<in> A" "below x y" "y \<noteq> x" by (auto simp: tops_def)
    have "{z \<in> A. below y z \<and> z \<noteq> y} \<subset> {z \<in> A. below x z \<and> z \<noteq> x}"
      using y below_trans below_antisym by auto
    with less.prems(1) have "card {z \<in> A. below y z \<and> z \<noteq> y} < card {z \<in> A. below x z \<and> z \<noteq> x}"
      by (intro psubset_card_mono) auto
    from less.hyps [OF this less.prems(1) y(1)] y(2) below_trans show ?thesis by blast
  qed
qed

lemma tops_insert:
  assumes "finite A"
  shows "tops (insert x A) =
    (if \<exists>m \<in> tops A. below x m then tops A else insert x {m \<in> tops A. \<not> below m x})"
proof (cases "\<exists>m \<in> tops A. below x m")
  case True
  then obtain m where m: "m \<in> A" "below x m" "\<And>z. z \<in> A \<Longrightarrow> below m z \<Longrightarrow> z = m" by (auto simp: tops_def)
  have "tops (insert x A) = tops A"
  proof (intro set_eqI iffI)
    fix y assume "y \<in> tops (insert x A)"
    with m(1,2) show "y \<in> tops A" by (auto simp: tops_def)
  next
    fix y assume y: "y \<in> tops A"
    have "x = y" if "below y x"
    proof -
      from below_trans [OF that m(2)] y m(1) have "m = y" by (simp add: tops_def)
      with m(2) that below_antisym show ?thesis by blast
    qed
    with y show "y \<in> tops (insert x A)" by (auto simp: tops_def)
  qed
  with True show ?thesis by simp
next
  case False
  then have "\<not> below x y" if "y \<in> A" for y using tops_cover [OF assms that] below_trans that by blast
  with False show ?thesis using below_refl by (auto simp: tops_def)
qed

lemma foldl_step:
  assumes "set ms = tops A" "finite A" "distinct ms"
  shows "set (foldl step ms xs) = tops (A \<union> set xs) \<and> distinct (foldl step ms xs)"
  using assms
proof (induction xs arbitrary: ms A)
  case (Cons x xs)
  have "set (step ms x) = tops (insert x A)" by (simp add: set_step tops_insert Cons.prems)
  from Cons.IH [OF this _ distinct_step [OF Cons.prems(3)]] Cons.prems(2) show ?case by simp
qed simp

lemma minimal: "set (foldl step [] xs) = tops (set xs)" "distinct (foldl step [] xs)"
  using foldl_step [of "[]" "{}" xs] by (simp_all add: tops_def)

end

interpretation mp: path_hierarchy is_relative_to minimize_step
  by unfold_locales
    (auto simp: minimize_step_def list_ex_iff intro: is_relative_to_trans is_relative_to_antisym)

lemma minimize_cover:
  "(\<forall>p \<in> set ps. \<exists>q \<in> set (minimize_paths ps). is_relative_to p q) \<and>
   (\<forall>p \<in> set (minimize_paths ps). \<forall>q \<in> set (minimize_paths ps). is_relative_to p q \<longrightarrow> q = p)"
proof -
  have eq: "set (minimize_paths ps) = mp.tops (set ps)"
    unfolding minimize_paths_def mp.minimal by simp
  show ?thesis unfolding eq using mp.tops_cover [of "set ps"] by (auto simp: mp.tops_def)
qed

text \<open>
  C33. The minimised set does not depend on the order in which the paths are considered: it is the
  set of the paths that lie below no other path of the set. No path of it lies below another,
  and every given path lies at or below one of it.
\<close>

theorem minimize_paths_tops:
  "set (minimize_paths ps) = {p \<in> set ps. \<forall>q \<in> set ps. is_relative_to p q \<longrightarrow> q = p} \<and>
   distinct (minimize_paths ps) \<and>
   (\<forall>p \<in> set ps. \<exists>q \<in> set (minimize_paths ps). is_relative_to p q)"
proof -
  have eq: "set (minimize_paths ps) = mp.tops (set ps)"
    unfolding minimize_paths_def mp.minimal by simp
  have "\<forall>p \<in> set ps. \<exists>q \<in> set (minimize_paths ps). is_relative_to p q"
    unfolding eq using mp.tops_cover [of "set ps"] by blast
  then show ?thesis
    unfolding eq by (simp add: mp.tops_def minimize_paths_def mp.minimal)
qed

theorem minimize_paths_tops_witness:
  "set (minimize_paths [path_of ''/a/b/c'', path_of ''/d'', path_of ''/a/b'']) = {path_of ''/a/b'', path_of ''/d''}"
proof -
  let ?ps = "[path_of ''/a/b/c'', path_of ''/d'', path_of ''/a/b'']"
  have "{p \<in> set ?ps. \<forall>q \<in> set ?ps. is_relative_to p q \<longrightarrow> q = p} = {path_of ''/a/b'', path_of ''/d''}"
    by code_simp
  then show ?thesis using minimize_paths_tops [of ?ps] by simp
qed

end
