(* ===== verification/Docker_Run.thy ===== *)
theory Docker_Run
  imports Py_Shell External_Mounts Docker_Cleanup Container_Events
begin

text \<open>
  \<open>.devkit/scripts/docker_run.py\<close>: runs a command in a docker container with the mounts and the environment
  of the project; and the variant of \<open>mbs/api/.devkit/scripts\<close>, which adds further mounts. What the host
  answers (user and group database, limits, terminals, host name, the order in which a set is traversed) is
  a parameter, as are the network of the event handler and the runtime of the cleanup.
\<close>

section \<open>The host\<close>

record host =
  h_script :: path
  h_uid :: int
  h_gid :: int
  h_user_name :: "int \<Rightarrow> string option"
  h_user_home :: "int \<Rightarrow> string option"
  h_named_home :: "string \<Rightarrow> string option"
  h_group_name :: "int \<Rightarrow> string option"
  h_group_id :: "string \<Rightarrow> int option"
  h_nofile :: "int \<times> int"
  h_hostname :: string
  h_stdin_tty :: bool
  h_stdout_tty :: bool
  h_set_order :: "path list \<Rightarrow> path list"

definition path_from_env :: "string \<Rightarrow> path \<Rightarrow> path py" where
  "path_from_env env_var dflt =
     py_bind (getenv env_var) (\<lambda>val.
     py_ret (case val of Some s \<Rightarrow> if s \<noteq> [] then path_of s else dflt | None \<Rightarrow> dflt))"

text \<open>\<open>os.environ.get(k) or m\<close>\<close>

definition env_or :: "string \<Rightarrow> string py \<Rightarrow> string py" where
  "env_or k m =
     py_bind (getenv k) (\<lambda>val. case val of Some s \<Rightarrow> if s \<noteq> [] then py_ret s else m | None \<Rightarrow> m)"

text \<open>\<open>os.path.expanduser\<close> of a component that begins with a tilde, \<open>Path.expanduser\<close> and \<open>Path.home\<close>.\<close>

definition os_expanduser :: "host \<Rightarrow> string \<Rightarrow> string py" where
  "os_expanduser H c =
     py_bind (getenv ''HOME'') (\<lambda>home.
     let userhome = (if tl c = [] then (case home of Some h \<Rightarrow> Some h | None \<Rightarrow> h_user_home H (h_uid H))
                     else h_named_home H (tl c))
     in py_ret (case userhome of
          None \<Rightarrow> c
        | Some h \<Rightarrow> (let u = rev (dropWhile (\<lambda>x. x = CHR ''/'') (rev h)) in if u = [] then ''/'' else u)))"

definition path_expanduser :: "host \<Rightarrow> path \<Rightarrow> path py" where
  "path_expanduser H p =
     (if proot p = [] \<and> tail p \<noteq> [] \<and> py_startswith (hd (tail p)) ''~'' then
        py_bind (os_expanduser H (hd (tail p))) (\<lambda>homedir.
        if py_startswith homedir ''~'' then py_raise (RuntimeError ''Could not determine home directory.'')
        else py_ret (Path (proot (path_of homedir)) (tail (path_of homedir) @ tl (tail p))))
      else py_ret p)"

definition path_home :: "host \<Rightarrow> path py" where
  "path_home H = path_expanduser H (Path '''' [''~''])"

text \<open>\<open>Path.touch(exist_ok=True)\<close>\<close>

definition path_touch :: "path \<Rightarrow> unit py" where
  "path_touch p = (\<lambda>w. case fs_stat (w_fs w) (w_cwd w) p of
      Inr _ \<Rightarrow> (Ok (), w) | Inl _ \<Rightarrow> write_file p [] w)"

section \<open>Places and identity\<close>

record places =
  host_project_root :: path
  container_project_root :: path
  command_project_root :: path
  host_home :: path
  command_home :: path
  container_home :: path
  host_tmp_dir :: path
  container_tmp_dir :: path

definition find_host_root :: "path py" where
  "find_host_root =
     py_try
       (py_bind find_project_root (\<lambda>found.
        py_bind (path_from_env ''DEVKIT_HOST_PROJECT_ROOT'' found) (\<lambda>p.
        py_seq (log_info ''Host project root: %s'' [path_str p]) (py_ret p))))
       is_FileNotFound
       (\<lambda>e. py_seq (py_eprint (''Error: '' @ exn_str e)) (sys_exit 1))"

definition find_places :: "host \<Rightarrow> places py" where
  "find_places H =
     py_bind find_host_root (\<lambda>host_root.
     py_bind (path_from_env ''DEVKIT_CONTAINER_PROJECT_ROOT'' host_root) (\<lambda>container_root.
     py_bind (path_from_env ''DEVKIT_COMMAND_PROJECT_ROOT'' host_root) (\<lambda>command_root.
     py_seq (log_info ''Container project root: %s'' [path_str container_root])
     (py_seq (log_info ''Command project root: %s'' [path_str command_root])
     (py_bind (path_home H) (\<lambda>home.
      py_bind (path_from_env ''DEVKIT_HOST_HOME'' home) (\<lambda>hh.
      py_bind (path_from_env ''DEVKIT_COMMAND_HOME'' hh) (\<lambda>mh.
      py_bind (path_from_env ''DEVKIT_CONTAINER_HOME'' hh) (\<lambda>ch.
      py_bind (getenv ''TMPDIR'') (\<lambda>tmp.
      let tmpdir = path_of (case tmp of Some t \<Rightarrow> t | None \<Rightarrow> ''/tmp'') in
      py_bind (path_from_env ''DEVKIT_HOST_TMP_DIR'' tmpdir) (\<lambda>ht.
      py_bind (path_from_env ''DEVKIT_CONTAINER_TMP_DIR'' ht) (\<lambda>ct.
      py_ret \<lparr>host_project_root = host_root, container_project_root = container_root,
        command_project_root = command_root, host_home = hh, command_home = mh, container_home = ch,
        host_tmp_dir = ht, container_tmp_dir = ct\<rparr>))))))))))))"

record identity =
  user_name :: string
  user_id :: int
  group_name :: string
  group_id :: int

definition identify :: "host \<Rightarrow> identity py" where
  "identify H =
     py_bind (env_or ''USER'' (of_opt (KeyError ''getpwuid(): uid not found'') (h_user_name H (h_uid H)))) (\<lambda>un.
     py_bind (py_bind (env_or ''USER_ID'' (py_ret (str_int (h_uid H)))) to_int) (\<lambda>ui.
     py_bind (env_or ''GROUP'' (of_opt (KeyError ''getgrgid(): gid not found'') (h_group_name H (h_gid H)))) (\<lambda>gn.
     py_bind (py_bind (env_or ''GROUP_ID'' (py_ret (str_int (h_gid H)))) to_int) (\<lambda>gi.
     py_ret \<lparr>user_name = un, user_id = ui, group_name = gn, group_id = gi\<rparr>))))"

section \<open>Mounts\<close>

definition home_files :: "path list" where
  "home_files = [path_of ''.gitconfig'']"

definition home_dirs :: "path list" where
  "home_dirs = map path_of
     [''.cache/bazel'', ''.cache/bazelisk'', ''.cache/buf'', ''.cache/go-build'', ''.cache/nvim'', ''.cache/pip'',
      ''.cache/pip-tools'', ''.cache/pre-commit'', ''.cache/pylint'', ''.config/gcloud'', ''.config/google-chrome'',
      ''.config/matplotlib'', ''.devkit/logs'', ''.docker'', ''.gemini'', ''.local/pre-commit'', ''.local/share/nvim'',
      ''.local/state'', ''.npm'', ''.vim'']"

definition docker_sock :: path where "docker_sock = path_of ''/var/run/docker.sock''"
definition system_bus_socket :: path where "system_bus_socket = path_of ''/run/dbus/system_bus_socket''"
definition etc_gitconfig :: path where "etc_gitconfig = path_of ''/etc/gitconfig''"

definition session_bus_socket :: "identity \<Rightarrow> path" where
  "session_bus_socket I = path_sub (path_sub (path_of ''/run/user'') (str_int (user_id I))) ''bus''"

definition system_mounts :: "path list py" where
  "system_mounts =
     py_bind (path_exists etc_gitconfig) (\<lambda>e.
     py_ret ([docker_sock, system_bus_socket] @ (if e then [etc_gitconfig] else [])))"

definition add_home_dir :: "path \<Rightarrow> path \<Rightarrow> path list \<Rightarrow> path list py" where
  "add_home_dir home rel_path mounts =
     (let dir_path = path_div home rel_path in py_seq (mkdir_p dir_path) (py_ret (mounts @ [dir_path])))"

definition add_home_file :: "path \<Rightarrow> path \<Rightarrow> path list \<Rightarrow> path list py" where
  "add_home_file home rel_path mounts =
     (let file_path = path_div home rel_path
      in py_seq (mkdir_p (path_parent file_path)) (py_seq (path_touch file_path) (py_ret (mounts @ [file_path]))))"

definition home_mounts :: "path \<Rightarrow> path list \<Rightarrow> path list py" where
  "home_mounts home mounts =
     py_bind (py_fold (add_home_dir home) home_dirs mounts) (py_fold (add_home_file home) home_files)"

text \<open>What the container is given beside the fixed arguments: mounts, environment, search path.\<close>

record extras =
  x_mounts :: "path list"
  x_env :: "string list"
  x_paths :: "path list"

definition git_mounts :: "extras \<Rightarrow> extras py" where
  "git_mounts x =
     py_try
       (py_bind (run_proc [''git'', ''rev-parse'', ''--is-inside-work-tree'']) (\<lambda>(n, out, err).
        if n = 0 \<and> py_strip out = ''true'' then
          py_bind (run_checked True [''git'', ''rev-parse'', ''--absolute-git-dir'']) (\<lambda>(out, err).
          let git_dir = path_of (py_strip out) in
          py_bind (py_get cwd_path) (\<lambda>cwd.
          if \<not> is_relative_to git_dir cwd then
            py_seq (log_info ''Adding out-of-tree git directory to mounts: %s'' [path_str git_dir])
            (py_ret (x\<lparr>x_mounts := x_mounts x @ [git_dir], x_env := x_env x @ [''--env=GIT_DISCOVERY_ACROSS_FILESYSTEM=1'']\<rparr>))
          else py_ret x))
        else py_ret x))
       (\<lambda>e. is_CalledProcess e \<or> is_FileNotFound e)
       (\<lambda>e. py_seq (log_info ''Git discovery failed or not in a git repo: %s'' [exn_str e]) (py_ret x))"

section \<open>The mounts of the variant\<close>

definition google_mount_list :: "identity \<Rightarrow> path list" where
  "google_mount_list I = map path_of
     [''/usr/bin/git-remote-sso'', ''/usr/bin/git-remote-rpc'', ''/usr/share/git-core'', ''/usr/share/git-repo'',
      ''/var/run/ccache'', ''/var/run/credentials-cache'', ''/run/connectd'', ''/google'', ''/etc/google'', ''/usr/grte'',
      ''/var/google'', ''/usr/envelope'', ''/usr/share/com.google.loas''] @
     [path_sub (path_of ''/run/credentials-cache'') (''loas-'' @ user_name I)] @
     map path_of
     [''/usr/lib/thinmint-verification-keys-corp'', ''/etc/googlekeys'', ''/etc/security-realms'', ''/usr/bin/gcert'',
      ''/usr/bin/g4'', ''/usr/bin/p4'', ''/usr/bin/gcertstatus'', ''/dev/log'', ''/usr/bin/uplink-helper'',
      ''/etc/uplink/proxy.conf'', ''/usr/bin/glogin'', ''/usr/bin/mpm'', ''/etc/gcloud'',
      ''/usr/lib/x86_64-linux-gnu/pkcs11/libnative_pkcs11_credkit.so'', ''/usr/bin/ecp'', ''/usr/bin/ecp_http_proxy'',
      ''/usr/lib/google-cloud-sdk'']"

definition refresh_credentials :: "unit py" where
  "refresh_credentials =
     (let google_bin = path_of ''/google/bin'' in
      py_bind (path_exists google_bin) (\<lambda>e.
      if e then
        py_try (py_bind (path_exists (path_sub google_bin ''releases'')) (\<lambda>_. py_ret ())) is_OSError
          (\<lambda>_. py_seq (py_print (''Accessing Google-specific tools requires authentication. '' @
                 ''Running '' @ [CHR 0x27] @ ''gcert'' @ [CHR 0x27] @ '' to refresh your credentials. ''))
               (py_bind (run_checked False [''gcert'']) (\<lambda>_. py_ret ())))
      else py_ret ()))"

definition add_if_exists :: "path \<Rightarrow> path list \<Rightarrow> path list py" where
  "add_if_exists p mounts = py_bind (path_exists p) (\<lambda>e. py_ret (if e then mounts @ [p] else mounts))"

definition gemini_tools :: path where
  "gemini_tools = path_sub (path_sub (path_of ''/google/bin'') ''releases'') ''gemini-cli/tools''"

definition gemini_mounts :: "identity \<Rightarrow> path list \<times> extras \<Rightarrow> (path list \<times> extras) py" where
  "gemini_mounts I = (\<lambda>(gs, x).
     py_bind (path_exists gemini_tools) (\<lambda>e.
     if e then
       (let d = path_sub (path_sub (path_of ''/run/user'') (str_int (user_id I))) ''gemini_cli_for_google'' in
        py_seq (mkdir_p d) (py_ret (gs @ [d], x\<lparr>x_paths := x_paths x @ [gemini_tools]\<rparr>)))
     else py_ret (gs, x)))"

definition ssh_mounts :: "path list \<times> extras \<Rightarrow> (path list \<times> extras) py" where
  "ssh_mounts = (\<lambda>(gs, x).
     py_bind (getenv ''SSH_AUTH_SOCK'') (\<lambda>s.
     py_ret (case s of
        Some v \<Rightarrow> if v \<noteq> [] then (gs @ [path_of v], x\<lparr>x_env := x_env x @ [''--env=SSH_AUTH_SOCK'']\<rparr>) else (gs, x)
      | None \<Rightarrow> (gs, x))))"

definition cookie_mounts :: "host \<Rightarrow> path list \<Rightarrow> path list py" where
  "cookie_mounts H gs =
     py_try
       (py_bind (run_checked True [''git'', ''config'', ''--get'', ''http.cookiefile'']) (\<lambda>(out, err).
        if py_strip out \<noteq> [] then py_bind (path_expanduser H (path_of (py_strip out))) (\<lambda>p. py_ret (gs @ [p]))
        else py_ret gs))
       (\<lambda>e. is_CalledProcess e \<or> is_FileNotFound e)
       (\<lambda>_. py_ret gs)"

definition google_mounts :: "host \<Rightarrow> identity \<Rightarrow> extras \<Rightarrow> extras py" where
  "google_mounts H I x =
     py_seq refresh_credentials
     (py_bind (gemini_mounts I (google_mount_list I, x)) (\<lambda>gx.
      py_bind (ssh_mounts gx) (\<lambda>(gs, x).
      py_bind (cookie_mounts H gs) (\<lambda>gs.
      py_bind (py_fold add_if_exists gs (x_mounts x)) (\<lambda>ms. py_ret (x\<lparr>x_mounts := ms\<rparr>))))))"

definition no_mounts :: "host \<Rightarrow> identity \<Rightarrow> extras \<Rightarrow> extras py" where
  "no_mounts H I x = py_ret x"

section \<open>Groups and arguments\<close>

definition cloudsdk_env :: "world \<Rightarrow> string list" where
  "cloudsdk_env w = map (\<lambda>k. ''--env='' @ k) (filter (\<lambda>k. py_startswith k ''CLOUDSDK_CONTEXT_'') (map fst (w_environ w)))"

definition group_or_zero :: "host \<Rightarrow> string \<Rightarrow> int py" where
  "group_or_zero H g =
     (case h_group_id H g of
        Some n \<Rightarrow> py_ret n
      | None \<Rightarrow> py_seq (log_info ''Group %s not found, defaulting GID to 0'' [g]) (py_ret 0))"

definition tty_args :: "host \<Rightarrow> string list" where
  "tty_args H =
     (if h_stdin_tty H \<and> h_stdout_tty H then [''--interactive'', ''--tty'']
      else if \<not> h_stdin_tty H then [''--interactive''] else [])"

text \<open>\<open>v.get(k, d)\<close>, and the items \<open>list.extend\<close> takes from a value.\<close>

definition get_or :: "json \<Rightarrow> string \<Rightarrow> json \<Rightarrow> json result" where
  "get_or v k d =
     (case v of
        JObj kvs \<Rightarrow> Ok (case map_of kvs k of Some x \<Rightarrow> x | None \<Rightarrow> d)
      | _ \<Rightarrow> Exc AttributeError)"

definition json_items :: "json \<Rightarrow> json list result" where
  "json_items v =
     (case v of
        JList xs \<Rightarrow> Ok xs
      | JStr s \<Rightarrow> Ok (map (\<lambda>c. JStr [c]) s)
      | JObj kvs \<Rightarrow> Ok (map (\<lambda>kv. JStr (fst kv)) kvs)
      | _ \<Rightarrow> Exc TypeError)"

definition json_run_args :: "runtime \<Rightarrow> path \<Rightarrow> json list \<Rightarrow> json list py" where
  "json_run_args R devkit_json_path run_args =
     py_try
       (py_bind (path_exists devkit_json_path) (\<lambda>e.
        if e then
          py_bind (json_load devkit_json_path) (\<lambda>data.
          py_bind (of_result (r_bind (get_or data ''docker'' (JObj [])) (\<lambda>d. get_or d ''run'' (JList [])))) (\<lambda>v.
          if py_truth v then
            py_seq (log_info ''Loaded docker run args from devkit.json: %s'' [rt_repr R v])
            (py_bind (of_result (json_items v)) (\<lambda>xs. py_ret (run_args @ xs)))
          else py_ret run_args))
        else py_ret run_args))
       is_Exception
       (\<lambda>e. py_seq (log_warning ''Failed to parse devkit.json: %s'' [exn_str e]) (py_ret run_args))"

definition env_run_args :: "runtime \<Rightarrow> json list \<Rightarrow> json list py" where
  "env_run_args R run_args =
     py_bind (getenv ''DEVKIT_DOCKER_RUN_ARGS'') (\<lambda>v.
     case v of
       Some s \<Rightarrow>
         if s \<noteq> [] then
           py_bind (of_result (shlex_split s)) (\<lambda>ss.
           py_seq (log_info ''Adding args from DEVKIT_DOCKER_RUN_ARGS: %s'' [rt_repr R (JList (map JStr ss))])
           (py_ret (run_args @ map JStr ss)))
         else py_ret run_args
     | None \<Rightarrow> py_ret run_args)"

text \<open>\<open>[os.path.expandvars(arg) for arg in docker_run_args]\<close>: an argument that is not a string raises \<open>TypeError\<close>.\<close>

fun evaluate_args :: "(string \<times> string) list \<Rightarrow> json list \<Rightarrow> string list result" where
  "evaluate_args env [] = Ok []"
| "evaluate_args env (a # as) =
     (case a of
        JStr s \<Rightarrow> r_bind (evaluate_args env as) (\<lambda>ss. Ok (expandvars env s # ss))
      | _ \<Rightarrow> Exc TypeError)"

definition volume :: "path \<Rightarrow> path \<Rightarrow> string" where
  "volume host_path container_path = ''--volume='' @ path_str host_path @ '':'' @ path_str container_path"

text \<open>A mount below the home directory of the command is below the other two homes on the host and in the container.\<close>

definition docker_mount :: "places \<Rightarrow> path \<Rightarrow> string" where
  "docker_mount P p =
     (case relative_to p (command_home P) of
        Some rest \<Rightarrow> volume (path_div (host_home P) rest) (path_div (container_home P) rest)
      | None \<Rightarrow> volume p p)"

section \<open>The command\<close>

definition docker_command ::
  "host \<Rightarrow> path \<Rightarrow> path \<Rightarrow> places \<Rightarrow> identity \<Rightarrow> int \<Rightarrow> int \<Rightarrow> string list \<Rightarrow> string \<Rightarrow> string list \<Rightarrow> string list \<Rightarrow> string list \<Rightarrow> string list" where
  "docker_command H scripts_dir cwd P I port docker_gid additional_env additional_path docker_mounts evaluated_args unknown_args =
     [''docker'', ''run'', ''--rm'', ''--ulimit'',
      ''nofile='' @ str_int (fst (h_nofile H)) @ '':'' @ str_int (snd (h_nofile H)),
      volume (host_project_root P) (container_project_root P),
      ''--workdir='' @ path_str cwd,
      ''--env=HOME='' @ path_str (container_home P),
      ''--env=DEVKIT_SOCKET_PORT='' @ str_int port,
      ''--env=GOOGLE_CLOUD_PROJECT'', ''--env=GEMINI_API_KEY'', ''--env=AWS_SECRET_ACCESS_KEY'', ''--env=AWS_ACCESS_KEY_ID'',
      ''--env=AWS_SESSION_TOKEN'', ''--env=AWS_PAGER'', ''--env=GH_TOKEN'',
      ''--env=CLOUDSDK_CONTAINER_USE_APPLICATION_DEFAULT_CREDENTIALS'',
      ''--env=USER='' @ user_name I, ''--env=USER_ID='' @ str_int (user_id I),
      ''--env=GROUP='' @ group_name I, ''--env=GROUP_ID='' @ str_int (group_id I),
      ''--env=TMPDIR='' @ path_str (container_tmp_dir P),
      ''--env=TERM=xterm-256color'', ''--env=COLORTERM'',
      ''--env=DOCKER_GROUP='' @ ''docker'', ''--env=DOCKER_GROUP_ID='' @ str_int docker_gid, ''--env=NOBODY_GROUP='' @ ''nobody'',
      ''--env=DBUS_SYSTEM_BUS_ADDRESS=unix:path='' @ path_str system_bus_socket,
      ''--env=DBUS_SESSION_BUS_ADDRESS=unix:path='' @ path_str (session_bus_socket I),
      ''--env=DEVKIT_NOFILE_SOFT='' @ str_int (fst (h_nofile H)), ''--env=DEVKIT_NOFILE_HARD='' @ str_int (snd (h_nofile H)),
      ''--env=ADDITIONAL_PATH='' @ additional_path] @
     additional_env @ docker_mounts @
     [''--net=host'', ''--ipc=host'', ''--hostname='' @ h_hostname H,
      volume (host_tmp_dir P) (container_tmp_dir P),
      ''--entrypoint='' @ path_str (path_sub scripts_dir ''entrypoint_docker'')] @
     evaluated_args @ unknown_args"

section \<open>Running it\<close>

definition allow_display :: "string \<Rightarrow> string list \<Rightarrow> unit py" where
  "allow_display user docker_cmd =
     py_when (list_ex (py_contains ''DISPLAY'') docker_cmd)
       (py_bind (run_checked False [''xhost'', ''+local:'' @ user]) (\<lambda>_. py_ret ()))"

text \<open>The \<open>finally\<close> clause: both cancel events are set, both threads are joined.\<close>

definition stop_threads :: "network \<Rightarrow> thread \<Rightarrow> thread \<Rightarrow> unit py" where
  "stop_threads N cleanup_thread event_handler_thread =
     py_seq (emit (EventSet ''cleanup''))
     (py_seq (socket_cancel_set N)
     (py_seq (emit (ThreadJoin (th_name cleanup_thread)))
     (emit (ThreadJoin (th_name event_handler_thread)))))"

definition run_container :: "network \<Rightarrow> thread \<Rightarrow> thread \<Rightarrow> string list \<Rightarrow> int py" where
  "run_container N cleanup_thread event_handler_thread docker_cmd =
     py_finally
       (py_try (py_bind (run_proc docker_cmd) (\<lambda>(n, out, err). py_ret n)) (\<lambda>e. e = KeyboardInterrupt) (\<lambda>_. py_ret (128 + 2)))
       (stop_threads N cleanup_thread event_handler_thread)"

definition docker_run_parser :: parser where
  "docker_run_parser = \<lparr>p_opts = [mk_opt [''--devkit-log-file''] ''devkit_log_file'' NOne], p_positional = None\<rparr>"

text \<open>The mounts and the environment beyond the fixed ones.\<close>

definition collect_extras :: "(host \<Rightarrow> identity \<Rightarrow> extras \<Rightarrow> extras py) \<Rightarrow> host \<Rightarrow> places \<Rightarrow> (identity \<times> int \<times> extras) py" where
  "collect_extras site_mounts H P =
     py_bind system_mounts (\<lambda>sys.
     py_bind (identify H) (\<lambda>I.
     py_bind (home_mounts (command_home P) (sys @ [session_bus_socket I])) (\<lambda>ms.
     py_bind (git_mounts \<lparr>x_mounts = ms, x_env = [], x_paths = []\<rparr>) (\<lambda>x.
     py_bind (site_mounts H I x) (\<lambda>x.
     py_bind (py_get cloudsdk_env) (\<lambda>cenv.
     py_bind (group_or_zero H ''docker'') (\<lambda>docker_gid.
     py_bind (group_or_zero H ''nobody'') (\<lambda>nobody_gid.
     py_ret (I, docker_gid, x\<lparr>x_env := x_env x @ cenv @
       (if nobody_gid > 0 then [''--env=NOBODY_GROUP_ID='' @ str_int nobody_gid] else [])\<rparr>)))))))))"

definition collect_args :: "runtime \<Rightarrow> host \<Rightarrow> path \<Rightarrow> string list py" where
  "collect_args R H devkit_json_path =
     py_bind (json_run_args R devkit_json_path (map JStr (tty_args H))) (\<lambda>as.
     py_bind (env_run_args R as) (\<lambda>as.
     py_bind (py_get w_environ) (\<lambda>env. of_result (evaluate_args env as))))"

text \<open>From the start of the event handler to the exit.\<close>

definition launch_container ::
  "(network \<Rightarrow> nat \<Rightarrow> (thread \<times> int) py) \<Rightarrow> runtime \<Rightarrow> host \<Rightarrow> network \<Rightarrow> (event list \<Rightarrow> bool) \<Rightarrow> nat \<Rightarrow>
   path \<Rightarrow> places \<Rightarrow> identity \<Rightarrow> int \<Rightarrow> extras \<Rightarrow> string list \<Rightarrow> string list \<Rightarrow> string list \<Rightarrow> unit py" where
  "launch_container start_events R H N busy fuel scripts_dir P I docker_gid x docker_mounts evaluated_args unknown_args =
     (let additional_path = py_join '':'' (map path_str (x_paths x)) in
      py_bind (start_events N fuel) (\<lambda>(event_handler_thread, port).
      py_seq (log_info ''Container file descriptor limits: soft=%s, hard=%s''
        [str_int (fst (h_nofile H)), str_int (snd (h_nofile H))])
      (py_bind (py_get cwd_path) (\<lambda>cwd.
       let docker_cmd = docker_command H scripts_dir cwd P I port docker_gid (x_env x) additional_path docker_mounts
             evaluated_args unknown_args in
       py_seq (log_info ''%s'' [shlex_join docker_cmd])
       (py_bind (start_background_cleanup R busy fuel (path_sub (command_project_root P) ''devkit.json'')
          [path_sub (path_parent scripts_dir) ''images'']
          INITIAL_CLEANUP_DELAY_SECONDS CLEANUP_INTERVAL_SECONDS CLEANUP_BATCH_SIZE CLEANUP_THRESHOLD_DAYS) (\<lambda>cleanup_thread.
        py_seq (allow_display (user_name I) docker_cmd)
        (py_bind (run_container N cleanup_thread event_handler_thread docker_cmd) sys_exit)))))))"

text \<open>The program, up to the two parts in which the variants differ.\<close>

definition docker_run_program ::
  "(places \<Rightarrow> (identity \<times> int \<times> extras) py) \<Rightarrow>
   (path \<Rightarrow> places \<Rightarrow> identity \<Rightarrow> int \<Rightarrow> extras \<Rightarrow> string list \<Rightarrow> string list \<Rightarrow> string list \<Rightarrow> unit py) \<Rightarrow>
   runtime \<Rightarrow> host \<Rightarrow> string list \<Rightarrow> unit py" where
  "docker_run_program collect launch R H argv =
     py_bind (path_resolve (h_script H)) (\<lambda>script.
     py_bind (parse_known_args docker_run_parser argv) (\<lambda>(args, unknown_args).
     py_seq (basic_config (arg_value args ''devkit_log_file''))
     (py_bind (find_places H) (\<lambda>P.
      py_bind (collect P) (\<lambda>(I, docker_gid, x).
      py_bind (get_minimal_mounts (command_project_root P) (x_mounts x)) (\<lambda>minimal_mounts.
      py_seq (log_info ''Resolved %d minimal mounts out of %d requested''
        [str_nat (length minimal_mounts), str_nat (length (x_mounts x))])
      (py_bind (collect_args R H (path_sub (command_project_root P) ''devkit.json'')) (\<lambda>evaluated_args.
       launch (path_parent script) P I docker_gid x (map (docker_mount P) (h_set_order H minimal_mounts))
         evaluated_args unknown_args))))))))"

definition docker_run_main ::
  "runtime \<Rightarrow> host \<Rightarrow> network \<Rightarrow> (event list \<Rightarrow> bool) \<Rightarrow> nat \<Rightarrow> string list \<Rightarrow> unit py" where
  "docker_run_main R H N busy fuel argv =
     docker_run_program (collect_extras no_mounts H) (launch_container start_container_event_handler R H N busy fuel) R H argv"

text \<open>The variant.\<close>

definition collect_extras_google :: "host \<Rightarrow> places \<Rightarrow> (identity \<times> int \<times> extras) py" where
  "collect_extras_google H P = collect_extras google_mounts H P"

definition launch_container_google ::
  "metric_sink \<Rightarrow> runtime \<Rightarrow> host \<Rightarrow> network \<Rightarrow> (event list \<Rightarrow> bool) \<Rightarrow> nat \<Rightarrow>
   path \<Rightarrow> places \<Rightarrow> identity \<Rightarrow> int \<Rightarrow> extras \<Rightarrow> string list \<Rightarrow> string list \<Rightarrow> string list \<Rightarrow> unit py" where
  "launch_container_google emit_metric R H N busy fuel =
     launch_container (start_container_event_handler_metric emit_metric) R H N busy fuel"

definition docker_run_main_google ::
  "metric_sink \<Rightarrow> runtime \<Rightarrow> host \<Rightarrow> network \<Rightarrow> (event list \<Rightarrow> bool) \<Rightarrow> nat \<Rightarrow> string list \<Rightarrow> unit py" where
  "docker_run_main_google emit_metric R H N busy fuel argv =
     docker_run_program (collect_extras_google H) (launch_container_google emit_metric R H N busy fuel) R H argv"

end
