(* ===== verification/External_Mounts_Closure.thy ===== *)
theory External_Mounts_Closure
  imports External_Mounts
begin

text \<open>
  What \<open>list_external_mounts\<close> computes: the scan ends, everything it reports lies outside the
  scanned directory, and it misses nothing: whatever a chain of links starting in the scanned
  directory, or in a directory already reported, passes through is inside or reported.
\<close>

section \<open>Well-formed trees and paths\<close>

definition good_name :: "string \<Rightarrow> bool" where
  "good_name c = (plain_comp c \<and> CHR ''/'' \<notin> set c)"

text \<open>The root is a directory and every entry has a name a file system allows.\<close>

definition fs_wf :: "fnode \<Rightarrow> bool" where
  "fs_wf r = (is_FDir r \<and> list_all good_name (entry_names r))"

definition abs_path :: "path \<Rightarrow> bool" where
  "abs_path p = (path_wf p \<and> proot p \<noteq> [])"

lemma fs_wf_root: "fs_wf r \<Longrightarrow> dir_at r []"
  by (cases r) (auto simp: fs_wf_def is_FDir_def)

lemma abs_path_div: "abs_path a \<Longrightarrow> path_wf b \<Longrightarrow> abs_path (path_div a b)"
  by (auto simp: abs_path_def path_div_wf) (auto simp: path_div_def split: if_splits)

lemma abs_path_sub: "abs_path a \<Longrightarrow> abs_path (path_sub a s)"
  unfolding path_sub_def by (intro abs_path_div path_of_wf)

lemma good_name_wf: "good_name c \<Longrightarrow> path_wf (Path [] [c])"
  by (auto simp: good_name_def plain_comp_def path_wf_def)

lemma abs_path_normpath: "abs_path p \<Longrightarrow> abs_path (normpath p)"
  by (simp add: abs_path_def normpath_wf) (simp add: normpath_def)

lemma abs_path_norm_plain: "abs_path p \<Longrightarrow> \<forall>c \<in> set (tail (normpath p)). plain_comp c"
  using norm_comps_rooted_proper [of "[]" "tail p"] by (simp add: abs_path_def normpath_def)

lemma abs_path_link: "abs_path p \<Longrightarrow> link_target r cwd p = Some q \<Longrightarrow> abs_path q"
  using link_target_wf link_target_rooted by (auto simp: abs_path_def)

lemma entry_names_sub: "get_node r p = Some n \<Longrightarrow> set (entry_names n) \<subseteq> set (entry_names r)"
proof (induction r p rule: get_node.induct)
  case (2 es c cs)
  then obtain m where m: "map_of es c = Some m" "get_node m cs = Some n" by (auto split: option.splits)
  from m(1) have "(c, m) \<in> set es" by (rule map_of_SomeD)
  with "2.IH" [OF m] show ?case by force
qed auto

lemma walk_nofollow_abs:
  assumes "(td, dirs, files) \<in> set (walk_nofollow r prune d loc n)" "abs_path d"
    and "\<forall>c \<in> set (entry_names n). good_name c"
  shows "abs_path td"
  using assms
proof (induction r prune d loc n rule: walk_nofollow.induct)
  case (1 r prune d loc es)
  from "1.prems"(1) consider "td = d" | c m where "(c, m) \<in> set es"
      "c \<in> set (prune (dir_names r link_limit loc es))"
      "(td, dirs, files) \<in> set (walk_nofollow r prune (path_div d (Path [] [c])) (loc @ [c]) m)"
    by (auto split: if_splits)
  then show ?case
  proof cases
    case 2
    then have "good_name c" "\<forall>x \<in> set (entry_names m). good_name x" using "1.prems"(3) by force+
    with "1.IH" [OF 2(1) refl 2(2,3)] "1.prems"(2) show ?thesis by (auto intro: abs_path_div good_name_wf)
  qed (use "1.prems" in simp)
qed auto

lemma scan_entries_abs:
  assumes "fs_wf r" "abs_path d" "e \<in> set (scan_entries r cwd d)"
  shows "abs_path (path_sub (fst e) (snd e))"
proof -
  from assms(3) obtain dirs files where
    "(fst e, dirs, files) \<in> set (os_walk r cwd (remove1 ''.venv'') d)"
    by (auto simp: scan_entries_def walk_entries_def)
  then obtain loc n where n: "get_node r loc = Some n"
    "(fst e, dirs, files) \<in> set (walk_nofollow r (remove1 ''.venv'') d loc n)"
    by (auto simp: os_walk_def split: sum.splits option.splits dest: sym)
  have "\<forall>c \<in> set (entry_names n). good_name c"
    using assms(1) entry_names_sub [OF n(1)] by (auto simp: fs_wf_def list_all_iff)
  with walk_nofollow_abs [OF n(2) assms(2)] show ?thesis by (intro abs_path_sub)
qed

section \<open>One chain of links\<close>

text \<open>The new state differs from the old one by paths outside the scanned directory; the
  directories among them are put on the work list.\<close>

definition grows :: "fnode \<Rightarrow> canon \<Rightarrow> canon \<Rightarrow> mounts \<Rightarrow> mounts \<Rightarrow> bool" where
  "grows r cwd scan st st' = (\<exists>es. fst st' = fst st @ es \<and>
     snd st' = snd st @ filter (\<lambda>p. fs_is_dir r cwd p = Inr True) es \<and>
     distinct es \<and> set es \<inter> set (fst st) = {} \<and>
     (\<forall>p \<in> set es. abs_path p \<and> (\<forall>c \<in> set (tail p). plain_comp c) \<and> \<not> prefix scan (tail p)))"

lemma grows_refl [simp]: "grows r cwd scan st st"
  by (auto simp: grows_def)

lemma grows_trans:
  assumes "grows r cwd scan a b" "grows r cwd scan b c"
  shows "grows r cwd scan a c"
proof -
  from assms obtain es fs where
    "fst b = fst a @ es" "snd b = snd a @ filter (\<lambda>p. fs_is_dir r cwd p = Inr True) es"
    "distinct es" "set es \<inter> set (fst a) = {}"
    "\<forall>p \<in> set es. abs_path p \<and> (\<forall>c \<in> set (tail p). plain_comp c) \<and> \<not> prefix scan (tail p)"
    "fst c = fst b @ fs" "snd c = snd b @ filter (\<lambda>p. fs_is_dir r cwd p = Inr True) fs"
    "distinct fs" "set fs \<inter> set (fst b) = {}"
    "\<forall>p \<in> set fs. abs_path p \<and> (\<forall>c \<in> set (tail p). plain_comp c) \<and> \<not> prefix scan (tail p)"
    by (auto simp: grows_def)
  then show ?thesis unfolding grows_def by (intro exI [of _ "es @ fs"]) auto
qed

lemma grows_mono: "grows r cwd scan st st' \<Longrightarrow> set (fst st) \<subseteq> set (fst st')"
  by (auto simp: grows_def)

definition scan_wf :: "canon \<Rightarrow> bool" where
  "scan_wf scan = (\<forall>c \<in> set scan. good_name c)"

lemma commonpath_inside:
  assumes "scan_wf scan" "commonpath (Path ''/'' scan) q = Some c"
  shows "path_str (normpath c) = path_str (Path ''/'' scan) \<longleftrightarrow> prefix scan (tail q)"
proof -
  from assms(2) have c: "c = Path ''/'' (common_prefix scan (tail q))"
    by (auto simp: commonpath_def split: if_splits)
  have sub: "set (common_prefix scan (tail q)) \<subseteq> set scan"
    using common_prefix_prefix(1) set_mono_prefix by blast
  have "norm_comps True [] (common_prefix scan (tail q)) = common_prefix scan (tail q)"
    using norm_comps_id [of _ True "[]"] sub assms(1) by (fastforce simp: scan_wf_def good_name_def)
  then have n: "normpath c = c" by (simp add: c normpath_def)
  have wf: "path_wf c" "path_wf (Path ''/'' scan)"
    using sub assms(1) by (auto simp: path_wf_def c scan_wf_def good_name_def plain_comp_def)
  show ?thesis unfolding n using path_str_inj [OF wf] by (auto simp: c common_prefix_self_iff [of scan "tail q", THEN iffD2])
    (metis c common_prefix_self_iff path.inject)
qed

lemma add_external_spec:
  assumes "abs_path t" "scan_wf scan" "add_external r cwd scan t st = Ok st'"
  shows "grows r cwd scan st st' \<and> (prefix scan (tail (normpath t)) \<or> normpath t \<in> set (fst st'))"
proof -
  obtain ext wl where st: "st = (ext, wl)" by fastforce
  from assms(3) obtain c where c: "commonpath (Path ''/'' scan) (normpath t) = Some c"
    by (auto simp: add_external_def st split: option.splits)
  note ins = commonpath_inside [OF assms(2) c]
  show ?thesis
  proof (cases "prefix scan (tail (normpath t)) \<or> normpath t \<in> set ext")
    case True
    with assms(3) c ins show ?thesis by (auto simp: add_external_def st Let_def split: if_splits)
  next
    case False
    with assms(3) c ins obtain b where b: "fs_is_dir r cwd (normpath t) = Inr b"
      "st' = (ext @ [normpath t], if b then wl @ [normpath t] else wl)"
      by (auto simp: add_external_def st Let_def split: sum.splits)
    have "grows r cwd scan st st'"
      unfolding grows_def
      using b False abs_path_normpath [OF assms(1)] abs_path_norm_plain [OF assms(1)]
      by (intro exI [of _ "[normpath t]"]) (simp add: st)
    with b show ?thesis by simp
  qed
qed

lemma add_external_ends: "add_external r cwd scan t st \<noteq> Exc Diverges"
  by (auto simp: add_external_def Let_def split: prod.splits option.splits sum.splits)

text \<open>What a chain of links passes through.\<close>

inductive chain :: "fnode \<Rightarrow> canon \<Rightarrow> path \<Rightarrow> path \<Rightarrow> bool" for r cwd where
  chain_step: "link_target r cwd p = Some q \<Longrightarrow> chain r cwd p q"
| chain_more: "link_target r cwd p = Some q \<Longrightarrow> chain r cwd q s \<Longrightarrow> chain r cwd p s"

inductive_cases chainE: "chain r cwd p q"

definition accounted :: "canon \<Rightarrow> path list \<Rightarrow> path \<Rightarrow> bool" where
  "accounted scan ps q = (prefix scan (tail (normpath q)) \<or> normpath q \<in> set ps)"

lemma accounted_mono: "accounted scan ps q \<Longrightarrow> set ps \<subseteq> set qs \<Longrightarrow> accounted scan qs q"
  by (auto simp: accounted_def)

declare process_loop.simps(2) [simp del]

text \<open>One round of the loop, for a path not visited before.\<close>

lemma process_loop_Suc:
  assumes "p \<notin> set vis"
  shows "process_loop r cwd scan (Suc n) vis p st =
    (case link_target r cwd p of
       Some q \<Rightarrow> (case add_external r cwd scan q st of
                   Exc e \<Rightarrow> Exc e | Ok st' \<Rightarrow> process_loop r cwd scan n (p # vis) q st')
     | None \<Rightarrow> (case fs_is_symlink r cwd p of Inl m \<Rightarrow> Exc (OSError m) | Inr False \<Rightarrow> Ok st
         | Inr True \<Rightarrow> (case fs_readlink r cwd p of None \<Rightarrow> Ok st | Some t \<Rightarrow>
             (case fs_exists r cwd (path_div (path_parent p) (path_of t)) of Inl m \<Rightarrow> Exc (OSError m) | _ \<Rightarrow> Ok st))))"
  using assms
  by (auto simp: process_loop.simps(2) link_target_def Let_def split: sum.splits bool.splits option.splits)

lemma process_loop_spec:
  assumes "fs_wf r" "abs_path p" "scan_wf scan" "\<forall>v \<in> set vis. links_left r v < links_left r p"
    and "process_loop r cwd scan n vis p st = Ok st'"
  shows "grows r cwd scan st st' \<and> (\<forall>q. chain r cwd p q \<longrightarrow> accounted scan (fst st') q)"
  using assms
proof (induction n arbitrary: vis p st)
  case (Suc n)
  have "p \<notin> set vis" using Suc.prems(4) by auto
  note step = process_loop_Suc [OF this]
  show ?case
  proof (cases "link_target r cwd p")
    case None
    with Suc.prems(5) have "st' = st" unfolding step by (auto split: sum.splits bool.splits option.splits)
    moreover have "\<not> chain r cwd p q" for q using None by (auto elim: chainE)
    ultimately show ?thesis by simp
  next
    case (Some q)
    with Suc.prems(5) obtain st1 where st1: "add_external r cwd scan q st = Ok st1"
      "process_loop r cwd scan n (p # vis) q st1 = Ok st'" unfolding step by (auto split: result.splits)
    have q: "abs_path q" using abs_path_link [OF Suc.prems(2) Some] .
    have less: "links_left r p < links_left r q"
      using links_left_follow [OF fs_wf_root _ Some] Suc.prems(1,2) by (simp add: abs_path_def)
    then have "\<forall>v \<in> set (p # vis). links_left r v < links_left r q" using Suc.prems(4) by fastforce
    from Suc.IH [OF Suc.prems(1) q Suc.prems(3) this st1(2)]
    have IH: "grows r cwd scan st1 st'" "\<forall>s. chain r cwd q s \<longrightarrow> accounted scan (fst st') s" by auto
    from add_external_spec [OF q Suc.prems(3) st1(1)] have
      A: "grows r cwd scan st st1" "accounted scan (fst st1) q" by (auto simp: accounted_def)
    have "accounted scan (fst st') s" if "chain r cwd p s" for s
      using that Some IH(2) accounted_mono [OF A(2) grows_mono [OF IH(1)]] by (auto elim: chainE)
    with grows_trans [OF A(1) IH(1)] show ?thesis by blast
  qed
qed simp

lemma process_loop_ends:
  assumes "fs_wf r" "abs_path p" "link_limit + 1 < n + links_left r p"
    "\<forall>v \<in> set vis. links_left r v < links_left r p"
  shows "process_loop r cwd scan n vis p st \<noteq> Exc Diverges"
  using assms
proof (induction n arbitrary: vis p st)
  case 0
  with links_left_le [OF fs_wf_root [OF 0(1)], of p] show ?case by simp
next
  case (Suc n)
  have "p \<notin> set vis" using Suc.prems(4) by auto
  note step = process_loop_Suc [OF this]
  show ?case
  proof (cases "link_target r cwd p")
    case None
    then show ?thesis unfolding step by (auto split: sum.splits bool.splits option.splits)
  next
    case (Some q)
    have less: "links_left r p < links_left r q"
      using links_left_follow [OF fs_wf_root _ Some] Suc.prems(1,2) by (simp add: abs_path_def)
    then have "\<forall>v \<in> set (p # vis). links_left r v < links_left r q" using Suc.prems(4) by fastforce
    from Suc.IH [OF Suc.prems(1) abs_path_link [OF Suc.prems(2) Some] _ this] Suc.prems(3) less
    have "process_loop r cwd scan n (p # vis) q st1 \<noteq> Exc Diverges" for st1 by simp
    then show ?thesis unfolding step using Some add_external_ends [of r cwd scan q st]
      by (auto split: result.splits)
  qed
qed

section \<open>One directory\<close>

text \<open>The entries a scan of a directory follows, and what it has to account for.\<close>

definition followed :: "fnode \<Rightarrow> canon \<Rightarrow> path \<Rightarrow> path set" where
  "followed r cwd d = {path_sub (fst e) (snd e) | e. e \<in> set (scan_entries r cwd d) \<and>
     \<not> py_startswith (snd e) ''bazel-''}"

definition covered :: "fnode \<Rightarrow> canon \<Rightarrow> canon \<Rightarrow> path list \<Rightarrow> path \<Rightarrow> bool" where
  "covered r cwd scan ps d = (\<forall>p \<in> followed r cwd d. \<forall>q. chain r cwd p q \<longrightarrow> accounted scan ps q)"

lemma covered_mono: "covered r cwd scan ps d \<Longrightarrow> set ps \<subseteq> set qs \<Longrightarrow> covered r cwd scan qs d"
  unfolding covered_def by (meson accounted_mono)

lemma process_entry_spec:
  assumes "fs_wf r" "abs_path (path_sub (fst e) (snd e))" "scan_wf scan" "process_entry r cwd scan e st = Ok st'"
  shows "grows r cwd scan st st' \<and> (\<not> py_startswith (snd e) ''bazel-'' \<longrightarrow>
     (\<forall>q. chain r cwd (path_sub (fst e) (snd e)) q \<longrightarrow> accounted scan (fst st') q))"
proof (cases "fs_is_symlink r cwd (path_sub (fst e) (snd e)) = Inr True \<and> \<not> py_startswith (snd e) ''bazel-''")
  case True
  with assms(4) have "process_loop r cwd scan (link_limit + 2) [] (path_sub (fst e) (snd e)) st = Ok st'"
    by (simp add: process_entry_def process_symlink_def Let_def)
  from process_loop_spec [OF assms(1-3) _ this] show ?thesis by simp
next
  case False
  with assms(4) have "st' = st" by (auto simp: process_entry_def Let_def split: sum.splits if_splits)
  moreover have "\<not> chain r cwd (path_sub (fst e) (snd e)) q" if "\<not> py_startswith (snd e) ''bazel-''" for q
  proof -
    from False that have "link_target r cwd (path_sub (fst e) (snd e)) = None" unfolding link_target_def by argo
    then show ?thesis by (auto elim: chainE)
  qed
  ultimately show ?thesis using grows_refl by blast
qed

lemma process_entry_ends:
  "fs_wf r \<Longrightarrow> abs_path (path_sub (fst e) (snd e)) \<Longrightarrow> process_entry r cwd scan e st \<noteq> Exc Diverges"
  using process_loop_ends [of r "path_sub (fst e) (snd e)" "link_limit + 2" "[]"]
  by (auto simp: process_entry_def process_symlink_def Let_def split: sum.splits)

lemma fold_entries_spec:
  assumes "fs_wf r" "scan_wf scan" "\<forall>e \<in> set es. abs_path (path_sub (fst e) (snd e))"
    and "fold_result (process_entry r cwd scan) es st = Ok st'"
  shows "grows r cwd scan st st' \<and> (\<forall>e \<in> set es. \<not> py_startswith (snd e) ''bazel-'' \<longrightarrow>
     (\<forall>q. chain r cwd (path_sub (fst e) (snd e)) q \<longrightarrow> accounted scan (fst st') q))"
  using assms(3,4)
proof (induction es arbitrary: st)
  case (Cons e es)
  then obtain st1 where st1: "process_entry r cwd scan e st = Ok st1"
    "fold_result (process_entry r cwd scan) es st1 = Ok st'" by (auto split: result.splits)
  from process_entry_spec [OF assms(1) _ assms(2) st1(1)] Cons.prems have
    one: "grows r cwd scan st st1" "\<not> py_startswith (snd e) ''bazel-'' \<Longrightarrow>
      chain r cwd (path_sub (fst e) (snd e)) q \<Longrightarrow> accounted scan (fst st1) q" for q by auto
  from Cons.IH [OF _ st1(2)] Cons.prems have
    rest: "grows r cwd scan st1 st'" "\<forall>e \<in> set es. \<not> py_startswith (snd e) ''bazel-'' \<longrightarrow>
     (\<forall>q. chain r cwd (path_sub (fst e) (snd e)) q \<longrightarrow> accounted scan (fst st') q)" by auto
  with one grows_trans [OF one(1) rest(1)] accounted_mono [OF one(2) grows_mono [OF rest(1)]]
  show ?case by auto
qed simp

lemma fold_entries_ends:
  "fs_wf r \<Longrightarrow> \<forall>e \<in> set es. abs_path (path_sub (fst e) (snd e)) \<Longrightarrow>
   fold_result (process_entry r cwd scan) es st \<noteq> Exc Diverges"
  by (induction es arbitrary: st) (auto split: result.splits dest: process_entry_ends)

lemma scan_directory_spec:
  assumes "fs_wf r" "scan_wf scan" "abs_path d" "scan_directory r cwd scan d st = Ok st'"
  shows "grows r cwd scan st st' \<and> covered r cwd scan (fst st') d"
proof -
  have "\<forall>e \<in> set (scan_entries r cwd d). abs_path (path_sub (fst e) (snd e))"
    using scan_entries_abs [OF assms(1,3)] by blast
  from fold_entries_spec [OF assms(1,2) this] assms(4) show ?thesis
    unfolding scan_directory_def covered_def followed_def by blast
qed

lemma scan_directory_ends:
  "fs_wf r \<Longrightarrow> abs_path d \<Longrightarrow> scan_directory r cwd scan d st \<noteq> Exc Diverges"
  unfolding scan_directory_def by (intro fold_entries_ends) (auto intro: scan_entries_abs)

section \<open>The work list\<close>

text \<open>The directories that may enter the work list are finitely many, which bounds the loop.\<close>

definition scannable :: "fnode \<Rightarrow> canon \<Rightarrow> path set" where
  "scannable r cwd = {p. abs_path p \<and> (\<forall>c \<in> set (tail p). plain_comp c) \<and> fs_is_dir r cwd p = Inr True}"

lemma finite_scannable:
  assumes "fs_wf r"
  shows "finite (scannable r cwd)"
proof (rule finite_subset [OF _ finite_resolvable [of r True link_limit]], rule subsetI)
  fix p assume p: "p \<in> scannable r cwd"
  then obtain c m where "namei r link_limit True [] (tail p) = Inr (c, m)"
    by (cases "namei r link_limit True [] (tail p)")
      (auto simp: scannable_def abs_path_def fs_is_dir_def fs_stat_def base_of_def probe_def split: fs_error.splits)
  from namei_resolves [OF fs_wf_root fs_wf_root this] assms have "resolves r True link_limit [] (tail p) c m" by simp
  with p show "p \<in> {p. proot p \<in> {''/'', ''//''} \<and> (\<forall>v \<in> set (tail p). entry_name v) \<and>
      (\<exists>c m. resolves r True link_limit [] (tail p) c m)}"
    by (auto simp: scannable_def abs_path_def path_wf_def plain_comp_def)
qed

definition scan_measure :: "fnode \<Rightarrow> canon \<Rightarrow> path list \<Rightarrow> path list \<Rightarrow> nat" where
  "scan_measure r cwd ext wl = card (scannable r cwd - set ext) + length wl"

lemma grows_measure:
  assumes "fs_wf r" "grows r cwd scan (ext, wl) (ext', wl')"
  shows "scan_measure r cwd ext' wl' \<le> scan_measure r cwd ext wl"
proof -
  from assms(2) obtain es where es: "ext' = ext @ es" "wl' = wl @ filter (\<lambda>p. fs_is_dir r cwd p = Inr True) es"
    "distinct es" "set es \<inter> set ext = {}" "\<forall>p \<in> set es. abs_path p \<and> (\<forall>c \<in> set (tail p). plain_comp c)"
    by (auto simp: grows_def)
  let ?ds = "filter (\<lambda>p. fs_is_dir r cwd p = Inr True) es"
  have len: "length ?ds = card (set ?ds)" using es(3) by (metis distinct_card distinct_filter)
  have ds: "set ?ds \<subseteq> scannable r cwd - set ext" using es by (auto simp: scannable_def)
  have fin: "finite (scannable r cwd - set ext)" using finite_scannable [OF assms(1)] by simp
  have "scannable r cwd - set ext' \<subseteq> (scannable r cwd - set ext) - set ?ds" using es(1) by auto
  then have "card (scannable r cwd - set ext') \<le> card ((scannable r cwd - set ext) - set ?ds)"
    using fin by (intro card_mono) auto
  also have "\<dots> = card (scannable r cwd - set ext) - length ?ds"
    unfolding len by (rule card_Diff_subset [OF finite_set ds])
  finally show ?thesis
    using card_mono [OF fin ds] es(2) len by (simp add: scan_measure_def)
qed

text \<open>What the loop returns.\<close>

definition scan_result :: "fnode \<Rightarrow> canon \<Rightarrow> canon \<Rightarrow> path list \<Rightarrow> path list \<Rightarrow> path list \<Rightarrow> path list \<Rightarrow> bool" where
  "scan_result r cwd scan scanned ext wl ps = (\<exists>es. ps = ext @ es \<and>
     (\<forall>p \<in> set es. abs_path p \<and> \<not> prefix scan (tail p)) \<and>
     (\<forall>d \<in> set scanned \<union> set wl \<union> {p \<in> set es. fs_is_dir r cwd p = Inr True}. covered r cwd scan ps d))"

lemma scan_result_step:
  assumes "grows r cwd scan (ext, wl) (ext', wl')" "scan_result r cwd scan (d # scanned) ext' wl' ps"
  shows "scan_result r cwd scan scanned ext (d # wl) ps"
proof -
  from assms(1) obtain es where es: "ext' = ext @ es" "set wl' = set wl \<union> {p \<in> set es. fs_is_dir r cwd p = Inr True}"
    "\<forall>p \<in> set es. abs_path p \<and> \<not> prefix scan (tail p)"
    by (auto simp: grows_def)
  from assms(2) obtain fs where fs: "ps = ext' @ fs" "\<forall>p \<in> set fs. abs_path p \<and> \<not> prefix scan (tail p)"
    "\<forall>d \<in> set (d # scanned) \<union> set wl' \<union> {p \<in> set fs. fs_is_dir r cwd p = Inr True}. covered r cwd scan ps d"
    by (auto simp: scan_result_def)
  then show ?thesis unfolding scan_result_def using es by (intro exI [of _ "es @ fs"]) auto
qed

lemma scan_loop_spec:
  assumes "fs_wf r" "scan_wf scan" "\<forall>d \<in> set wl. abs_path d" "\<forall>d \<in> set scanned. covered r cwd scan ext d"
  shows "\<exists>res. scan_loop r cwd scan scanned ext wl = Some res \<and> res \<noteq> Exc Diverges \<and>
     (\<forall>ps. res = Ok ps \<longrightarrow> scan_result r cwd scan scanned ext wl ps)"
  using assms(3,4)
proof (induction "scan_measure r cwd ext wl" arbitrary: ext wl scanned rule: less_induct)
  case less
  show ?case
  proof (cases wl)
    case Nil
    with less.prems show ?thesis by (simp add: scan_loop.simps scan_result_def)
  next
    case (Cons d wl0)
    show ?thesis
    proof (cases "d \<in> set scanned")
      case True
      then have eq: "scan_loop r cwd scan scanned ext wl = scan_loop r cwd scan scanned ext wl0"
        by (subst scan_loop.simps) (simp add: Cons)
      have "scan_measure r cwd ext wl0 < scan_measure r cwd ext wl" by (simp add: scan_measure_def Cons)
      from less.hyps [OF this, of scanned] less.prems Cons obtain res where
        "scan_loop r cwd scan scanned ext wl0 = Some res" "res \<noteq> Exc Diverges"
        "\<forall>ps. res = Ok ps \<longrightarrow> scan_result r cwd scan scanned ext wl0 ps" by auto
      moreover have "scan_result r cwd scan scanned ext wl0 ps \<Longrightarrow> scan_result r cwd scan scanned ext wl ps" for ps
        using True Cons unfolding scan_result_def by auto
      ultimately show ?thesis unfolding eq by blast
    next
      case False
      have d: "abs_path d" using less.prems(1) Cons by simp
      show ?thesis
      proof (cases "scan_directory r cwd scan d (ext, wl0)")
        case (Exc e)
        with False Cons have "scan_loop r cwd scan scanned ext wl = Some (Exc e)"
          by (subst scan_loop.simps) simp
        moreover have "Exc e \<noteq> (Exc Diverges :: path list result)"
          using scan_directory_ends [OF assms(1) d, of cwd scan "(ext, wl0)"] Exc by simp
        ultimately show ?thesis by simp
      next
        case (Ok st)
        obtain ext' wl' where st: "st = (ext', wl')" by fastforce
        from False Cons Ok st have eq: "scan_loop r cwd scan scanned ext wl = scan_loop r cwd scan (d # scanned) ext' wl'"
          by (subst scan_loop.simps) simp
        from scan_directory_spec [OF assms(1,2) d Ok] st have
          g: "grows r cwd scan (ext, wl0) (ext', wl')" "covered r cwd scan ext' d" by auto
        have m: "scan_measure r cwd ext' wl' < scan_measure r cwd ext wl"
          using grows_measure [OF assms(1) g(1)] by (simp add: scan_measure_def Cons)
        have "\<forall>d \<in> set wl'. abs_path d" using g(1) less.prems(1) Cons by (auto simp: grows_def)
        moreover have "\<forall>d \<in> set (d # scanned). covered r cwd scan ext' d"
          using g(2) less.prems(2) covered_mono grows_mono [OF g(1)] by fastforce
        ultimately obtain res where "scan_loop r cwd scan (d # scanned) ext' wl' = Some res" "res \<noteq> Exc Diverges"
          "\<forall>ps. res = Ok ps \<longrightarrow> scan_result r cwd scan (d # scanned) ext' wl' ps"
          using less.hyps [OF m] by blast
        with scan_result_step [OF g(1)] Cons show ?thesis unfolding eq by blast
      qed
    qed
  qed
qed

section \<open>The whole script\<close>

lemma good_name_comp: "CHR ''/'' \<notin> set c \<Longrightarrow> c \<noteq> '''' \<and> c \<noteq> ''.'' \<and> c \<noteq> ''..'' \<Longrightarrow> good_name c"
  by (simp add: good_name_def plain_comp_def)

lemma pending_link: "pending_comps (map Comp xs @ Close l # ps) = xs @ pending_comps ps"
  by (induction xs) auto

lemma norm_comps_scan_wf:
  assumes "\<forall>c \<in> set cs. CHR ''/'' \<notin> set c"
  shows "scan_wf (norm_comps True [] cs)"
  using norm_comps_rooted_proper [of "[]" cs] norm_comps_sub [of True "[]" cs] assms
  by (fastforce simp: scan_wf_def good_name_def)

lemma realpath_loop_wf:
  assumes "scan_wf cur" "\<forall>c \<in> set (pending_comps ps). CHR ''/'' \<notin> set c"
    "\<forall>l v. map_of seen l = Some (Some v) \<longrightarrow> scan_wf v"
  shows "scan_wf (fst (realpath_loop r seen cur ps))"
  using assms
proof (induction r seen cur ps rule: realpath_loop.induct)
  case (1 r seen cur)
  then show ?case by (simp add: realpath_loop.simps)
next
  case (2 r seen cur l ps)
  then show ?case by (auto simp: realpath_loop.simps)
next
  case (3 r seen cur c ps)
  have noslash: "\<forall>d \<in> set (pending_comps (map Comp (split_on (CHR ''/'') t) @ Close l # ps)). CHR ''/'' \<notin> set d" for t l
    using split_on_no_sep [of _ "CHR ''/''" t] "3.prems"(2) by (auto simp: pending_link)
  show ?case
  proof (cases "c = '''' \<or> c = ''.'' \<or> c = ''..''")
    case True
    have "scan_wf (butlast cur)" using "3.prems"(1) by (auto simp: scan_wf_def dest: in_set_butlastD)
    with True 3 show ?thesis by (auto simp: realpath_loop.simps(3))
  next
    case False
    then have c: "\<not> (c = '''' \<or> c = ''.'')" "c \<noteq> ''..''" by auto
    have good: "scan_wf (cur @ [c])" using "3.prems"(1,2) good_name_comp [of c] False by (auto simp: scan_wf_def)
    show ?thesis
    proof (cases "\<exists>t. get_node r (cur @ [c]) = Some (FLink t)")
      case True
      then obtain t where t: "get_node r (cur @ [c]) = Some (FLink t)" by blast
      have IHs: "scan_wf (fst (realpath_loop r seen v ps))" if "map_of seen (cur @ [c]) = Some (Some v)" for v
        using "3.IH"(6) [OF c t refl that refl] "3.prems" that by auto
      have "scan_wf (if py_startswith t ''/'' then [] else cur)" using "3.prems"(1) by (simp add: scan_wf_def)
      then have IHn: "scan_wf (fst (realpath_loop r ((cur @ [c], None) # seen) (if py_startswith t ''/'' then [] else cur)
          (map Comp (split_on (CHR ''/'') t) @ Close (cur @ [c]) # ps)))" if "map_of seen (cur @ [c]) = None"
        using "3.IH"(5) [OF c t refl that _ noslash] "3.prems"(3) by auto
      have "scan_wf (norm_comps True [] (cur @ [c] @ pending_comps ps))"
        by (rule norm_comps_scan_wf) (use "3.prems"(1,2) in \<open>auto simp: scan_wf_def good_name_def\<close>)
      with IHs IHn c t show ?thesis
        by (auto simp: realpath_loop.simps(3) split: option.splits)
    next
      case nolink: False
      then have "realpath_loop r seen cur (Comp c # ps) = realpath_loop r seen (cur @ [c]) ps"
        using c by (auto simp: realpath_loop.simps(3) split: option.splits fnode.splits)
      moreover have "scan_wf (fst (realpath_loop r seen (cur @ [c]) ps))"
      proof (cases "get_node r (cur @ [c])")
        case None
        from "3.IH"(3) [OF c None good] "3.prems"(2,3) show ?thesis by simp
      next
        case (Some n)
        with "3.IH"(4,7,8) [OF c Some _ good] "3.prems"(2,3) nolink show ?thesis by (cases n) auto
      qed
      ultimately show ?thesis by simp
    qed
  qed
qed

lemma path_resolve_wf:
  assumes "path_resolve p w = (Ok q, w')" "path_wf p" "scan_wf (w_cwd w)"
  shows "w' = w \<and> proot q = ''/'' \<and> scan_wf (tail q) \<and> fs_resolve (w_fs w) (w_cwd w) p = Some q"
proof -
  from assms(1) have q: "w' = w" "q = Path ''/'' (realpath (w_fs w) (w_cwd w) p)" "fs_resolve (w_fs w) (w_cwd w) p = Some q"
    by (auto simp: path_resolve_def fs_resolve_def Let_def split: option.splits if_splits)
  have "pending_comps (map Comp xs) = xs" for xs by (induction xs) auto
  then have "scan_wf (realpath (w_fs w) (w_cwd w) p)"
    unfolding realpath_def using assms(2,3)
    by (intro realpath_loop_wf) (auto simp: path_wf_def base_of_def scan_wf_def)
  with q show ?thesis by simp
qed

text \<open>
  C10. On a well-formed file tree the scan ends. It changes nothing; what it reports lies outside
  the resolved directory; and for the directory itself and every reported directory, each path
  that a chain of existing links starting at one of its entries passes through is inside the
  scanned directory or reported. Links named \<open>bazel-\<close> are not followed.
\<close>

theorem list_external_mounts_complete:
  assumes "fs_wf (w_fs w)" "scan_wf (w_cwd w)" "path_wf scan_dir"
    and "list_external_mounts scan_dir w = (res, w')"
  shows "w' = w \<and> res \<noteq> Exc Diverges \<and>
    (\<forall>ps. res = Ok ps \<longrightarrow> (\<exists>scan. fs_resolve (w_fs w) (w_cwd w) scan_dir = Some (Path ''/'' scan) \<and>
       (\<forall>p \<in> set ps. \<not> prefix scan (tail p)) \<and>
       (\<forall>d \<in> insert (Path ''/'' scan) {p \<in> set ps. fs_is_dir (w_fs w) (w_cwd w) p = Inr True}.
          covered (w_fs w) (w_cwd w) scan ps d)))"
proof (cases "path_resolve scan_dir w")
  case (Pair r1 w1)
  show ?thesis
  proof (cases r1)
    case (Exc e)
    with Pair assms(4) show ?thesis
      by (auto simp: list_external_mounts_def py_bind_def path_resolve_def split: option.splits)
  next
    case (Ok q)
    from path_resolve_wf [OF Pair [unfolded Ok] assms(3,2)] have q0: "w1 = w" "proot q = ''/''" "scan_wf (tail q)"
      "fs_resolve (w_fs w) (w_cwd w) scan_dir = Some q" by blast+
    then have q: "w1 = w" "q = Path ''/'' (tail q)" "scan_wf (tail q)"
      "fs_resolve (w_fs w) (w_cwd w) scan_dir = Some (Path ''/'' (tail q))" by (metis path.collapse)+
    have "abs_path q" using q0(2,3) by (auto simp: abs_path_def path_wf_def scan_wf_def good_name_def plain_comp_def)
    then obtain out where L: "scan_loop (w_fs w) (w_cwd w) (tail q) [] [] [q] = Some out" "out \<noteq> Exc Diverges"
      "\<forall>ps. out = Ok ps \<longrightarrow> scan_result (w_fs w) (w_cwd w) (tail q) [] [] [q] ps"
      using scan_loop_spec [OF assms(1) q(3), of "[q]" "[]" "w_cwd w" "[]"] by auto
    from L(1) assms(4) Pair Ok q(1) have R: "w' = w" "res = out"
      by (auto simp: list_external_mounts_def py_bind_def split: result.splits)
    show ?thesis
    proof (intro conjI allI impI)
      fix ps assume "res = Ok ps"
      with L(3) R(2) have "scan_result (w_fs w) (w_cwd w) (tail q) [] [] [q] ps" by simp
      then show "\<exists>scan. fs_resolve (w_fs w) (w_cwd w) scan_dir = Some (Path ''/'' scan) \<and>
         (\<forall>p \<in> set ps. \<not> prefix scan (tail p)) \<and>
         (\<forall>d \<in> insert (Path ''/'' scan) {p \<in> set ps. fs_is_dir (w_fs w) (w_cwd w) p = Inr True}.
            covered (w_fs w) (w_cwd w) scan ps d)"
        using q(2,4) by (intro exI [of _ "tail q"]) (auto simp: scan_result_def)
    qed (use R L(2) in simp_all)
  qed
qed

text \<open>A project with a link to an outside directory, which holds a link further on.\<close>

definition linked_project :: world where
  "linked_project = world_of (FDir
     [(''w'', FDir [(''l'', FLink ''/e/d''), (''in'', FLink ''l'')]),
      (''e'', FDir [(''d'', FDir [(''m'', FLink ''../../far'')])]),
      (''far'', FFile [])]) [] (\<lambda>_ _. Exited 0 [] [])"

lemma linked_project_ok:
  "fs_wf (w_fs linked_project)" "scan_wf (w_cwd linked_project)" "path_wf (path_of ''/w'')"
  "fst (list_external_mounts (path_of ''/w'') linked_project) = Ok [path_of ''/e/d'', path_of ''/far'']"
proof -
  show "fs_wf (w_fs linked_project)" by code_simp
  show "scan_wf (w_cwd linked_project)" by code_simp
  show "path_wf (path_of ''/w'')" by (rule path_of_wf)
  show "fst (list_external_mounts (path_of ''/w'') linked_project) = Ok [path_of ''/e/d'', path_of ''/far'']"
    by code_simp
qed

theorem list_external_mounts_complete_witness:
  "\<exists>scan. covered (w_fs linked_project) (w_cwd linked_project) scan [path_of ''/e/d'', path_of ''/far''] (path_of ''/e/d'') \<and>
     \<not> prefix scan (tail (path_of ''/far''))"
proof -
  let ?ps = "[path_of ''/e/d'', path_of ''/far'']"
  obtain w' where run: "list_external_mounts (path_of ''/w'') linked_project = (Ok ?ps, w')"
    using linked_project_ok(4) by (cases "list_external_mounts (path_of ''/w'') linked_project") simp
  have dir: "path_of ''/e/d'' \<in> {p \<in> set ?ps. fs_is_dir (w_fs linked_project) (w_cwd linked_project) p = Inr True}"
    by code_simp
  note all = list_external_mounts_complete [OF linked_project_ok(1-3) run, THEN conjunct2, THEN conjunct2, rule_format, OF refl]
  then obtain scan where out: "\<forall>p \<in> set ?ps. \<not> prefix scan (tail p)"
    and cov: "\<forall>d \<in> insert (Path ''/'' scan) {p \<in> set ?ps. fs_is_dir (w_fs linked_project) (w_cwd linked_project) p = Inr True}.
       covered (w_fs linked_project) (w_cwd linked_project) scan ?ps d" by (elim exE conjE)
  show ?thesis
    by (intro exI [of _ scan] conjI) (rule cov [rule_format, OF insertI2, OF dir], rule out [rule_format], simp)
qed

lemma resolve_all_pure: "snd (resolve_all ps w) = w"
  by (induction ps) (auto simp: py_simps path_resolve_def split: option.splits prod.splits result.splits)

lemma list_external_mounts_pure: "snd (list_external_mounts d w) = w"
  by (auto simp: list_external_mounts_def py_simps path_resolve_def split: option.splits result.splits)

lemma get_minimal_mounts_facts:
  assumes "get_minimal_mounts root_dir existing_mounts w = (Ok ms, w')"
  shows "\<exists>ps qs. list_external_mounts root_dir w = (Ok ps, w) \<and> resolve_all existing_mounts w = (Ok qs, w) \<and> w' = w \<and>
    (\<forall>p \<in> set ps \<union> set existing_mounts \<union> set qs. \<exists>m \<in> set ms. is_relative_to p m) \<and>
    (\<forall>m \<in> set ms. \<forall>n \<in> set ms. is_relative_to m n \<longrightarrow> n = m)"
proof -
  from assms obtain ps where ps: "list_external_mounts root_dir w = (Ok ps, w)"
    using list_external_mounts_pure [of root_dir w]
    by (auto simp: get_minimal_mounts_def py_bind_def split: prod.splits result.splits)
  with assms obtain qs where qs: "resolve_all existing_mounts w = (Ok qs, w)"
    using resolve_all_pure [of existing_mounts w]
    by (auto simp: get_minimal_mounts_def py_bind_def split: prod.splits result.splits)
  from assms ps qs obtain ph where ms: "w' = w"
    "ms = minimize_paths (set_union ps (set_union (set_union existing_mounts qs) ph))"
    by (auto simp: get_minimal_mounts_def py_simps lift_probe_def path_resolve_def
        split: sum.splits option.splits if_splits)
  have all: "set (set_union ps (set_union (set_union existing_mounts qs) ph)) = set ps \<union> set existing_mounts \<union> set qs \<union> set ph"
    by (auto simp: set_union_def)
  from minimize_cover [of "set_union ps (set_union (set_union existing_mounts qs) ph)"] show ?thesis
    using ps qs ms unfolding all by auto
qed

text \<open>
  C21. The mounts cover everything: each path the scan reports, each mount given and its resolved
  form lies at or below one of them; no mount lies below another.
\<close>

theorem get_minimal_mounts_cover:
  assumes "get_minimal_mounts root_dir existing_mounts w = (Ok ms, w')"
  shows "\<exists>ps qs. list_external_mounts root_dir w = (Ok ps, w) \<and> resolve_all existing_mounts w = (Ok qs, w) \<and> w' = w \<and>
    (\<forall>p \<in> set ps \<union> set existing_mounts \<union> set qs. \<exists>m \<in> set ms. is_relative_to p m) \<and>
    (\<forall>m \<in> set ms. \<forall>n \<in> set ms. is_relative_to m n \<longrightarrow> n = m)"
  using assms by (rule get_minimal_mounts_facts)

theorem get_minimal_mounts_cover_witness:
  "\<exists>ms. fst (get_minimal_mounts (path_of ''/w'') [path_of ''/e''] linked_project) = Ok ms \<and>
     (\<exists>m \<in> set ms. is_relative_to (path_of ''/e'') m)"
proof -
  have "fst (get_minimal_mounts (path_of ''/w'') [path_of ''/e''] linked_project) = Ok [path_of ''/e'', path_of ''/far'']"
    by code_simp
  then obtain w' where run: "get_minimal_mounts (path_of ''/w'') [path_of ''/e''] linked_project = (Ok [path_of ''/e'', path_of ''/far''], w')"
    by (metis prod.collapse)
  from get_minimal_mounts_cover [OF run] have "\<exists>m \<in> set [path_of ''/e'', path_of ''/far'']. is_relative_to (path_of ''/e'') m" by auto
  then show ?thesis unfolding run fst_conv by blast
qed

end
