(* ===== verification/Docker_Run_Spec.thy ===== *)
theory Docker_Run_Spec
  imports Docker_Run External_Mounts_Closure
begin

text \<open>
  What \<^theory_text>\<open>Docker_Run\<close> establishes: at most one container is started, it is the last command, its exit
  status is the exit status of the program and its command ends with the arguments given; both background
  threads are cancelled and joined however the container ends; every requested mount reaches the container.
\<close>

section \<open>Commands that are not the container's\<close>

definition container_command :: "string list \<Rightarrow> bool" where
  "container_command c = (take 2 c = [''docker'', ''run''])"

abbreviation side :: "'a py \<Rightarrow> bool" where
  "side m \<equiv> conv m (\<lambda>_ cs. \<forall>c \<in> set cs. \<not> container_command (fst c))"

lemma side_iff: "side m = starts_only (\<lambda>c. \<not> container_command c) m"
  by (rule conv_starts_only)

lemma quiet_side: "quiet m \<Longrightarrow> side m"
  by (erule conv_mono) simp

lemmas side_rules = so.script_rules [where P = "\<lambda>c. \<not> container_command c", folded side_iff]
lemmas side_bind = so.frame_bind [where P = "\<lambda>c. \<not> container_command c", folded side_iff]
lemmas side_leaf = so.frame_basic [where P = "\<lambda>c. \<not> container_command c", folded side_iff] so.frame_reads [where P = "\<lambda>c. \<not> container_command c", folded side_iff]
  so.frame_noise [where P = "\<lambda>c. \<not> container_command c", folded side_iff] so.frame_config [where P = "\<lambda>c. \<not> container_command c", folded side_iff]

lemmas side_config = so.frame_config [where P = "\<lambda>c. \<not> container_command c", folded side_iff]

lemma side_proc: "\<not> container_command cmd \<Longrightarrow> side (run_proc cmd)" "\<not> container_command cmd \<Longrightarrow> side (run_checked b cmd)"
  unfolding side_iff by (auto intro!: so.frame_proc so.frame_checked simp: only_spawns_def)

lemma get_minimal_mounts_pure: "snd (get_minimal_mounts d ms w) = w"
proof -
  obtain r1 where 1: "list_external_mounts d w = (r1, w)" by (metis list_external_mounts_pure prod.collapse)
  obtain r2 where 2: "resolve_all ms w = (r2, w)" by (metis resolve_all_pure prod.collapse)
  from 1 2 show ?thesis
    by (cases r1; cases r2) (auto simp: get_minimal_mounts_def py_simps lift_probe_def path_resolve_def
        split: sum.splits option.splits if_splits)
qed

lemma quiet_env: "quiet (path_from_env k d)" "quiet m \<Longrightarrow> quiet (env_or k m)"
  unfolding path_from_env_def env_or_def by (auto intro!: quiet_intros split: option.split)

lemma quiet_expanduser: "quiet (path_expanduser H p)"
  unfolding path_expanduser_def os_expanduser_def Let_def by (auto intro!: quiet_intros)

lemma quiet_touch: "quiet (path_touch p)"
  by (auto simp: path_touch_def conv_def does_def write_file_def split: sum.splits)

lemma quiet_to_int: "quiet (to_int s)"
  unfolding to_int_def by (auto intro!: quiet_intros split: option.split)

lemma quiet_find_places: "quiet (find_places H)"
  unfolding find_places_def find_host_root_def path_home_def Let_def
  by (intro quiet_intros quiet_env quiet_expanduser quiet_find_project_root)

lemma quiet_identify: "quiet (identify H)"
  unfolding identify_def by (intro quiet_intros quiet_env quiet_to_int)

lemma quiet_home_mounts: "quiet (home_mounts home ms)"
  unfolding home_mounts_def add_home_dir_def add_home_file_def Let_def by (intro quiet_intros quiet_touch)

lemma quiet_group: "quiet (group_or_zero H g)"
  unfolding group_or_zero_def by (auto intro!: quiet_intros split: option.split)

lemma quiet_args: "quiet (collect_args R H p)"
  unfolding collect_args_def json_run_args_def env_run_args_def
  by (auto intro!: quiet_intros split: option.split)

lemma quiet_start: "quiet (start_handler l N fuel)"
  "quiet (start_background_cleanup R busy fuel c s d i b t)"
  unfolding start_handler_def start_background_cleanup_def net_call_def Let_def
  by (auto intro!: quiet_intros conv_emit split: option.split)

lemmas side_intros = side_rules side_proc quiet_expanduser [THEN quiet_side]

lemma not_container: "\<not> container_command (''git'' # xs)" "\<not> container_command (''xhost'' # xs)" "\<not> container_command [''gcert'']"
  by (simp_all add: container_command_def)

lemma side_git: "side (git_mounts x)"
  unfolding git_mounts_def Let_def by (auto intro!: side_intros not_container split: prod.split)

lemma side_google: "side (google_mounts H I x)"
  unfolding google_mounts_def refresh_credentials_def gemini_mounts_def ssh_mounts_def cookie_mounts_def add_if_exists_def Let_def
  by (auto intro!: side_intros not_container split: prod.split)

lemma side_no_mounts: "side (no_mounts H I x)"
  unfolding no_mounts_def by (intro side_intros)

lemma side_display: "side (allow_display u cmd)"
  unfolding allow_display_def py_when_def by (auto intro!: side_intros not_container)

lemma side_collect: "(\<And>I x. side (g H I x)) \<Longrightarrow> side (collect_extras g H P)"
  unfolding collect_extras_def system_mounts_def
  by (intro side_bind side_git quiet_side [OF quiet_identify] quiet_side [OF quiet_home_mounts] quiet_side [OF quiet_group])
    (auto intro!: side_intros)

section \<open>The container and the threads\<close>

text \<open>The socket fails with \<open>OSError\<close> only.\<close>

definition shutdown_ok :: "network \<Rightarrow> bool" where
  "shutdown_ok N = (\<forall>t e. net_shutdown N t = Some e \<longrightarrow> is_OSError e)"

definition run_result :: "proc_outcome \<Rightarrow> int result" where
  "run_result x =
     (case x of
        Exited n out err \<Rightarrow> Ok n
      | LaunchFailed e \<Rightarrow> if e = KeyboardInterrupt then Ok 130 else Exc e)"

definition stop_events :: "network \<Rightarrow> thread \<Rightarrow> thread \<Rightarrow> event list \<Rightarrow> event list" where
  "stop_events N c h t =
     [EventSet ''cleanup'', EventSet ''container_event''] @
     (if net_shutdown N (t @ [EventSet ''cleanup'', EventSet ''container_event'']) = None then [SocketShutdown] else []) @
     [ThreadJoin (th_name c), ThreadJoin (th_name h)]"

lemma stop_threads_run:
  assumes "shutdown_ok N"
  shows "stop_threads N c h w = (Ok (), w\<lparr>w_trace := w_trace w @ stop_events N c h (w_trace w)\<rparr>)"
proof (cases "net_shutdown N (w_trace w @ [EventSet ''cleanup'', EventSet ''container_event''])")
  case None
  then show ?thesis
    by (simp add: stop_threads_def socket_cancel_set_def net_call_def stop_events_def py_simps)
next
  case (Some e)
  with assms have "is_OSError e" by (auto simp: shutdown_ok_def)
  with Some show ?thesis
    by (simp add: stop_threads_def socket_cancel_set_def net_call_def stop_events_def py_simps)
qed

lemma run_container_run:
  assumes "shutdown_ok N"
  shows "run_container N c h cmd w = (run_result (w_proc w (w_trace w) cmd),
    w\<lparr>w_trace := w_trace w @ Spawn cmd # stop_events N c h (w_trace w @ [Spawn cmd])\<rparr>)"
proof -
  let ?m = "py_try (py_bind (run_proc cmd) (\<lambda>(n, out, err). py_ret n)) (\<lambda>e. e = KeyboardInterrupt) (\<lambda>_. py_ret (128 + 2))"
  have "?m w = (run_result (w_proc w (w_trace w) cmd), w\<lparr>w_trace := w_trace w @ [Spawn cmd]\<rparr>)"
    by (simp add: run_result_def py_simps split: proc_outcome.split)
  then show ?thesis
    using stop_threads_run [OF assms] by (simp add: run_container_def py_finally_def)
qed

text \<open>
  C16. However the container ends (normally, by an error of its launch, or by an interrupt of the
  keyboard, which counts as exit status 130), both cancel events are set and then both background threads
  are joined, before the exit status is returned.
\<close>
theorem container_stops_threads:
  assumes "shutdown_ok N" "run_container N cleanup handler cmd w = (r, w')"
  shows "r = (case w_proc w (w_trace w) cmd of
       Exited n out err \<Rightarrow> Ok n | LaunchFailed e \<Rightarrow> if e = KeyboardInterrupt then Ok 130 else Exc e) \<and>
    (\<exists>ss. set ss \<subseteq> {SocketShutdown} \<and> w_trace w' = w_trace w @
       [Spawn cmd, EventSet ''cleanup'', EventSet ''container_event''] @ ss @
       [ThreadJoin (th_name cleanup), ThreadJoin (th_name handler)])"
  using assms(2) unfolding run_container_run [OF assms(1)]
  by (auto simp: run_result_def stop_events_def)

definition offline :: network where
  "offline = \<lparr>net_bind = (\<lambda>_. None), net_port = 4000, net_listen = (\<lambda>_. None),
     net_accept = (\<lambda>_. Some (Exc (OSError ''closed''))), net_recv = (\<lambda>_. None), net_shutdown = (\<lambda>_. Some (OSError ''not connected''))\<rparr>"

lemma offline_shutdown: "shutdown_ok offline"
  by (simp add: shutdown_ok_def offline_def is_OSError_def)

definition idle_thread :: "string \<Rightarrow> thread" where
  "idle_thread n = \<lparr>th_name = n, th_target = py_ret ()\<rparr>"

definition interrupted_world :: world where
  "interrupted_world = world_of (FDir []) [] (\<lambda>_ _. LaunchFailed KeyboardInterrupt)"

theorem container_stops_threads_witness:
  "\<exists>w'. run_container offline (idle_thread ''c'') (idle_thread ''h'') [''docker''] interrupted_world = (Ok 130, w') \<and>
     suffix [ThreadJoin ''c'', ThreadJoin ''h''] (w_trace w')"
proof -
  obtain r w' where run: "run_container offline (idle_thread ''c'') (idle_thread ''h'') [''docker''] interrupted_world = (r, w')"
    by fastforce
  from container_stops_threads [OF offline_shutdown run] run show ?thesis
    by (auto simp: interrupted_world_def world_of_def idle_thread_def suffix_def)
qed

section \<open>The arguments of the container\<close>

text \<open>An argument that is not an abbreviation of the only option of the program.\<close>

definition passes :: "string \<Rightarrow> bool" where
  "passes a = (\<not> py_startswith a ''--'' \<or> a = ''--'' \<or>
     \<not> py_startswith ''--devkit-log-file'' (takeWhile (\<lambda>c. c \<noteq> CHR ''='') a))"


definition log_option :: string where "log_option = ''--devkit-log-file''"

lemma find_log_option: "find_exact (p_opts docker_run_parser) s = None \<longleftrightarrow> s \<noteq> log_option"
  "long_matches (p_opts docker_run_parser) s = [] \<longleftrightarrow> \<not> py_startswith log_option s"
  "short_matches (p_opts docker_run_parser) s = [] \<longleftrightarrow> log_option \<noteq> take 2 s \<and> \<not> py_startswith log_option s"
  by (simp_all add: docker_run_parser_def find_exact_def long_matches_def short_matches_def mk_opt_def log_option_def)

lemma log_option_shape: "\<not> passes log_option" "py_startswith log_option log_option" "py_startswith log_option ''--''"
  "length log_option \<noteq> 2" "\<And>c. c \<noteq> CHR ''-'' \<Longrightarrow> \<not> py_startswith log_option (CHR ''-'' # c # cs)"
  by code_simp+ (simp add: log_option_def py_startswith_def)

lemma passes_head:
  assumes "passes a" "a \<noteq> ''--''" "takeWhile (\<lambda>c. c \<noteq> CHR ''='') a = log_option \<or> py_startswith a ''--''"
  shows "\<not> py_startswith log_option (takeWhile (\<lambda>c. c \<noteq> CHR ''='') a)"
proof -
  have "py_startswith a ''--''"
  proof (cases "takeWhile (\<lambda>c. c \<noteq> CHR ''='') a = log_option")
    case True
    then have "prefix log_option a" by (metis takeWhile_is_prefix)
    then show ?thesis using log_option_shape(3) unfolding py_startswith_iff by (meson prefix_order.trans)
  qed (use assms(3) in blast)
  then show ?thesis using assms(1,2) by (simp only: passes_def log_option_def) blast
qed

lemma classify_passes:
  assumes "passes a" "a \<noteq> ''--''"
  shows "classify_arg (p_opts docker_run_parser) a \<in> {APos, AUnknown}"
proof (cases "py_startswith a ''-'' \<and> length a \<noteq> 1")
  case False
  have "a \<noteq> log_option" using assms(1) log_option_shape(1) by blast
  then have "find_exact (p_opts docker_run_parser) a = None" using find_log_option(1) by blast
  with False show ?thesis by (simp add: classify_arg_def)
next
  case True
  let ?h = "takeWhile (\<lambda>c. c \<noteq> CHR ''='') a" and ?t = "tl (dropWhile (\<lambda>c. c \<noteq> CHR ''='') a)"
  have "a \<noteq> log_option" using assms(1) log_option_shape(1) by blast
  then have none: "find_exact (p_opts docker_run_parser) a = None" using find_log_option(1) by blast
  have "?h \<noteq> log_option" using passes_head [OF assms] log_option_shape(2) by metis
  then have head: "(if CHR ''='' \<in> set a then find_exact (p_opts docker_run_parser) ?h else None) = None"
    using find_log_option(1) [of ?h] by simp
  have whole: "(if CHR ''='' \<in> set a then ?h else a) = ?h"
  proof (cases "CHR ''='' \<in> set a")
    case False
    then have "\<forall>c \<in> set a. c \<noteq> CHR ''=''" by blast
    then have h: "?h = a" by (simp only: takeWhile_eq_all_conv)
    show ?thesis by (subst if_not_P [OF False]) (rule h [symmetric])
  qed simp
  have matches: "(if py_startswith a ''--'' then long_matches (p_opts docker_run_parser) (if CHR ''='' \<in> set a then ?h else a)
       else short_matches (p_opts docker_run_parser) a) = []"
  proof (cases "py_startswith a ''--''")
    case long: True
    with passes_head [OF assms] show ?thesis unfolding whole using find_log_option(2) by simp
  next
    case short: False
    from True obtain c cs where a: "a = CHR ''-'' # c # cs"
      by (cases a; cases "tl a") (auto simp: py_startswith_def)
    with short have "c \<noteq> CHR ''-''" by (auto simp: py_startswith_def)
    then have n: "\<not> py_startswith log_option a" unfolding a by (rule log_option_shape(5))
    have "length (take 2 a) = 2" by (simp add: a)
    then have "log_option \<noteq> take 2 a" using log_option_shape(4) by metis
    with n short show ?thesis using find_log_option(3) by simp
  qed
  show ?thesis using True none head matches
    by (simp only: classify_arg_def split_once_def Let_def prod.case option.case list.case if_False if_True simp_thms split: if_split) auto
qed

text \<open>The option itself, possibly abbreviated or with its value in the same argument.\<close>

definition log_opt :: opt where
  "log_opt = mk_opt [log_option] ''devkit_log_file'' NOne"

lemma log_opt_parser: "p_opts docker_run_parser = [log_opt]" "p_positional docker_run_parser = None" "o_narg log_opt = NOne" "value_ok log_opt v"
  by (simp_all add: docker_run_parser_def log_opt_def log_option_def mk_opt_def value_ok_def any_str_def)

lemma classify_option:
  assumes "\<not> passes a"
  shows "\<exists>n sep. classify_arg (p_opts docker_run_parser) a = AOpt log_opt n sep
    (if CHR ''='' \<in> set a then Some (tl (dropWhile (\<lambda>c. c \<noteq> CHR ''='') a)) else None)"
proof -
  let ?h = "takeWhile (\<lambda>c. c \<noteq> CHR ''='') a"
  from assms have a: "py_startswith a ''--''" "a \<noteq> ''--''" "py_startswith log_option ?h" by (simp_all add: passes_def log_option_def)
  have dash: "py_startswith a ''-''" "length a \<noteq> 1" using a(1) by (auto simp: py_startswith_iff prefix_def)
  have exact: "find_exact [log_opt] s = (if s = log_option then Some log_opt else None)" for s
    by (simp add: find_exact_def log_opt_def mk_opt_def)
  have whole: "CHR ''='' \<notin> set a \<Longrightarrow> ?h = a" by (auto simp: takeWhile_eq_all_conv)
  have long: "long_matches [log_opt] ?h = [(log_opt, log_option)]"
    using a(3) by (simp add: long_matches_def log_opt_def mk_opt_def)
  have plain: "CHR ''='' \<notin> set log_option" by (simp add: log_option_def)
  show ?thesis
    using a(1) dash long whole plain unfolding classify_arg_def log_opt_parser(1) exact split_once_def Let_def prod.case
    by (cases "CHR ''='' \<in> set a"; cases "a = log_option"; cases "?h = log_option") auto
qed

text \<open>The arguments that are not the program's own: all but the option, and the argument after it when that is its value.
  After \<open>--\<close> there are no options.\<close>

fun forwarded :: "string list \<Rightarrow> string list" where
  "forwarded [] = []"
| "forwarded (a # as) =
     (if a = ''--'' then a # as
      else if passes a then a # forwarded as
      else if CHR ''='' \<in> set a then forwarded as
      else (case as of [] \<Rightarrow> [] | _ # bs \<Rightarrow> forwarded bs))"

lemma forwarded_passes: "list_all passes argv \<Longrightarrow> forwarded argv = argv"
  by (induction argv rule: forwarded.induct) auto

lemma consume_pos:
  assumes "snd x = APos" "\<not> has_ambiguous xs"
  shows "consume None (x # xs) ns ex = consume None xs ns (ex @ [fst x])"
proof (cases xs)
  case (Cons y ys)
  show ?thesis
  proof (cases "is_option y")
    case False
    then have "snd y = APos \<or> snd y = ADash" using assms(2) Cons by (cases "snd y") (auto simp: is_option_def has_ambiguous_def)
    then have "consume None xs ns (ex @ [fst x]) = consume None (dropWhile (\<lambda>y. \<not> is_option y) ys) ns
        ((ex @ [fst x]) @ map fst (y # takeWhile (\<lambda>y. \<not> is_option y) ys))"
      unfolding Cons using False by (auto simp: consume.simps(2) [of None y ys] is_option_def Let_def)
    with assms(1) False Cons show ?thesis by (simp add: consume.simps(2) [of None x] is_option_def Let_def)
  qed (use assms(1) Cons in \<open>simp add: consume.simps(2) [of None x] is_option_def Let_def\<close>)
qed (use assms(1) in \<open>simp add: consume.simps is_option_def\<close>)

lemma consume_forwarded:
  assumes "consume None (classify (p_opts docker_run_parser) argv) ns ex = Parsed ns' rest"
    and "\<not> has_ambiguous (classify (p_opts docker_run_parser) argv)"
  shows "rest = ex @ forwarded argv"
  using assms
proof (induction argv arbitrary: ns ex rule: forwarded.induct)
  case 1
  then show ?case by (simp add: consume.simps)
next
  case (2 a as)
  let ?c = "classify (p_opts docker_run_parser)"
  consider (dash) "a = ''--''" | (pass) "a \<noteq> ''--''" "passes a" | (opt) "a \<noteq> ''--''" "\<not> passes a" by blast
  then show ?case
  proof cases
    case dash
    then have "consume None (?c (a # as)) ns ex = Parsed ns (ex @ map fst (?c (a # as)))" by (intro consume_unrecognised) auto
    with 2 dash show ?thesis by (simp add: comp_def)
  next
    case pass
    from pass 2(5) have amb: "\<not> has_ambiguous (?c as)" by (simp add: has_ambiguous_def)
    from classify_passes [OF pass(2,1)]
    have "consume None (?c (a # as)) ns ex = consume None (?c as) ns (ex @ [a])"
      using pass consume_pos [of "(a, APos)" "?c as" ns ex] amb by (auto simp: consume.simps)
    with 2(1) [OF pass(1,2)] 2(4) amb pass show ?thesis by simp
  next
    case opt
    obtain n sep where cls: "classify_arg (p_opts docker_run_parser) a = AOpt log_opt n sep
        (if CHR ''='' \<in> set a then Some (tl (dropWhile (\<lambda>c. c \<noteq> CHR ''='') a)) else None)"
      using classify_option [OF opt(2)] by blast
    from opt 2(5) have amb: "\<not> has_ambiguous (?c as)" by (simp add: has_ambiguous_def)
    show ?thesis
    proof (cases "CHR ''='' \<in> set a")
      case True
      from 2(4) opt cls True have "consume None (?c as) (store log_opt [tl (dropWhile (\<lambda>c. c \<noteq> CHR ''='') a)] ns) ex = Parsed ns' rest"
        by (simp add: consume.simps log_opt_parser)
      from 2(2) [OF opt True this amb] opt True show ?thesis by simp
    next
      case False
      with 2(4) opt cls obtain y ys where y: "?c as = y # ys" "is_pos y" "consume None ys (store log_opt [fst y] ns) ex = Parsed ns' rest"
        by (auto simp: consume.simps log_opt_parser split: list.splits if_splits)
      then obtain b bs where as: "as = b # bs" "b \<noteq> ''--''" "ys = ?c bs"
        by (cases as) (auto simp: is_pos_def split: if_splits)
      from amb have "\<not> has_ambiguous (?c bs)" unfolding y(1) as(3) by (simp add: has_ambiguous_def)
      from 2(3) [OF opt False as(1) y(3) [unfolded as(3)] this] opt False as(1) show ?thesis by simp
    qed
  qed
qed

lemma parse_forwarded:
  assumes "parse_known docker_run_parser argv = Parsed args rest"
  shows "rest = forwarded argv"
  using assms consume_forwarded [of argv "[]" "[]"]
  by (auto simp: parse_known_def log_opt_parser(2) Let_def split: if_splits parse_outcome.splits)

section \<open>The conversation\<close>

definition exit_of :: "proc_outcome \<Rightarrow> unit result" where
  "exit_of x =
     (case x of
        Exited n out err \<Rightarrow> Exc (SystemExit n)
      | LaunchFailed e \<Rightarrow> Exc (if e = KeyboardInterrupt then SystemExit 130 else e))"

text \<open>The protocol with the outside: either the program fails before any container is started, or it
  starts one, last, with the given arguments at the end of the command, and exits as the container did.\<close>

inductive container_protocol :: "string list \<Rightarrow> unit result \<Rightarrow> conversation \<Rightarrow> bool" for argv where
  not_started: "\<forall>c \<in> set cs. \<not> container_command (fst c) \<Longrightarrow> container_protocol argv (Exc e) cs"
| started: "\<forall>c \<in> set cs. \<not> container_command (fst c) \<Longrightarrow> container_command cmd \<Longrightarrow> suffix argv cmd \<Longrightarrow>
    container_protocol argv (exit_of x) (cs @ [(cmd, x)])"

lemma protocol_prepend:
  "container_protocol argv r ds \<Longrightarrow> \<forall>c \<in> set cs. \<not> container_command (fst c) \<Longrightarrow> container_protocol argv r (cs @ ds)"
proof (induction rule: container_protocol.induct)
  case (started ds cmd x)
  then have "container_protocol argv (exit_of x) ((cs @ ds) @ [(cmd, x)])"
    by (intro container_protocol.started) auto
  then show ?case by simp
qed (intro container_protocol.not_started, simp add: ball_Un)

lemma protocol_bind:
  assumes "side m" "\<And>x. conv (f x) (container_protocol argv)"
  shows "conv (py_bind m f) (container_protocol argv)"
  by (rule conv_bind [OF assms(1)])
    (auto intro: conv_mono [OF assms(2)] protocol_prepend container_protocol.not_started)

lemma protocol_seq: "side m \<Longrightarrow> conv k (container_protocol argv) \<Longrightarrow> conv (py_seq m k) (container_protocol argv)"
  unfolding py_seq_def by (rule protocol_bind)

lemma protocol_run_container:
  assumes "shutdown_ok N" "container_command cmd" "suffix argv cmd"
  shows "conv (py_bind (run_container N c h cmd) sys_exit) (container_protocol argv)"
  unfolding conv_def
proof
  fix w :: world
  let ?x = "w_proc w (w_trace w) cmd" and ?t = "Spawn cmd # stop_events N c h (w_trace w @ [Spawn cmd])"
  have run: "py_bind (run_container N c h cmd) sys_exit w = (exit_of ?x, w\<lparr>w_trace := w_trace w @ ?t\<rparr>)"
    by (simp add: py_bind_def run_container_run [OF assms(1)] run_result_def exit_of_def sys_exit_def py_raise_def
        split: proc_outcome.split)
  have "replies (w_proc w) (w_trace w) ?t = [(cmd, ?x)]" by (simp add: stop_events_def)
  moreover have "container_protocol argv (exit_of ?x) ([] @ [(cmd, ?x)])"
    by (rule container_protocol.started) (use assms in simp_all)
  ultimately show "does (py_bind (run_container N c h cmd) sys_exit) w
      (\<lambda>r w' t. same_outside w w' \<and> container_protocol argv r (replies (w_proc w) (w_trace w) t))"
    unfolding does_def run by auto
qed

lemma docker_command_shape:
  "container_command (docker_command H d cwd P I port gid env ap ms as argv)"
  "suffix argv (docker_command H d cwd P I port gid env ap ms as argv)"
  "set ms \<subseteq> set (docker_command H d cwd P I port gid env ap ms as argv)"
  by (auto simp: docker_command_def container_command_def suffix_def)

lemma conv_launch:
  assumes "shutdown_ok N" "side (start N fuel)"
  shows "conv (launch_container start R H N busy fuel d P I gid x ms as argv) (container_protocol argv)"
  unfolding launch_container_def Let_def
  by (rule protocol_bind protocol_seq assms(2) side_display quiet_side [OF quiet_start(2)] side_leaf
      protocol_run_container [OF assms(1)] docker_command_shape(1,2) | simp only: split_beta)+

lemma conv_docker_run_program:
  assumes "\<And>P. side (collect P)"
    and "\<And>d P I gid x ms as rest. conv (launch d P I gid x ms as rest) (container_protocol rest)"
  shows "conv (docker_run_program collect launch R H argv) (container_protocol (forwarded argv))"
proof -
  have pure: "quiet (get_minimal_mounts d ms)" for d ms by (rule quiet_pure) (rule get_minimal_mounts_pure)
  have parsed: "conv (py_bind (parse_known_args docker_run_parser argv) f) (container_protocol (forwarded argv))"
    if "\<And>args. conv (f (args, forwarded argv)) (container_protocol (forwarded argv))" for f :: "namespace \<times> string list \<Rightarrow> unit py"
  proof (cases "parse_known docker_run_parser argv")
    case (Parsed args rest)
    with that parse_forwarded [OF Parsed] show ?thesis by (simp add: parse_known_args_def)
  next
    case UsageError
    show ?thesis unfolding parse_known_args_def UsageError parse_outcome.case py_seq_def py_bind_assoc
      by (auto simp: sys_exit_def intro!: protocol_bind side_leaf conv_raise container_protocol.not_started)
  next
    case HelpShown
    show ?thesis unfolding parse_known_args_def HelpShown parse_outcome.case py_seq_def py_bind_assoc
      by (auto simp: sys_exit_def intro!: protocol_bind side_leaf conv_raise container_protocol.not_started)
  qed
  show ?thesis
    unfolding docker_run_program_def
    by (rule parsed protocol_bind protocol_seq assms quiet_side [OF pure] quiet_side [OF quiet_find_places]
        quiet_side [OF quiet_args] side_leaf | simp only: split_beta fst_conv snd_conv)+
qed

lemma side_start: "side (start_container_event_handler N fuel)" "side (start_container_event_handler_metric sink N fuel)"
  by (simp_all only: start_container_event_handler_def start_container_event_handler_metric_def quiet_side [OF quiet_start(1)])

lemma conv_docker_run_main:
  assumes "shutdown_ok N"
  shows "conv (docker_run_main R H N busy fuel argv) (container_protocol (forwarded argv))"
  unfolding docker_run_main_def
  by (intro conv_docker_run_program side_collect side_no_mounts conv_launch assms side_start)

definition sample_host :: host where
  "sample_host = \<lparr>h_script = path_of ''/s/r'', h_uid = 1, h_gid = 1, h_user_name = (\<lambda>_. Some ''u''), h_user_home = (\<lambda>_. Some ''/h''),
     h_named_home = (\<lambda>_. None), h_group_name = (\<lambda>_. Some ''g''), h_group_id = (\<lambda>_. None), h_nofile = (4, 8), h_hostname = ''o'',
     h_stdin_tty = True, h_stdout_tty = True, h_set_order = (\<lambda>ms. ms)\<rparr>"

definition sample_runtime :: runtime where
  "sample_runtime = \<lparr>rt_digest = (\<lambda>s. s), rt_set_order = (\<lambda>s. s), rt_repr = (\<lambda>_. [])\<rparr>"

text \<open>A command line in the log can be pasted into a shell: it splits into the command that was run.\<close>

lemma logged_command_roundtrip:
  "shlex_split (shlex_join (docker_command H d cwd P I port gid env ap ms as argv)) =
   Ok (docker_command H d cwd P I port gid env ap ms as argv)"
  by (rule shlex_roundtrip)

section \<open>Mounts\<close>

text \<open>
  C22. Every mount that was requested, and what it resolves to, reaches the container: the command has a
  volume for it or for a directory above it; below the home of the command the volume maps the home on
  the host to the home in the container, elsewhere a path to itself.
\<close>
theorem requested_mounts_reach_container:
  assumes "get_minimal_mounts d requested w = (Ok minimal, w')" "set (h_set_order H minimal) = set minimal"
    and "p \<in> set requested"
  shows "\<exists>q. is_relative_to p q \<and>
    (case relative_to q (command_home P) of
       Some rest \<Rightarrow> volume (path_div (host_home P) rest) (path_div (container_home P) rest)
     | None \<Rightarrow> volume q q)
    \<in> set (docker_command H scripts cwd P I port gid env ap (map (docker_mount P) (h_set_order H minimal)) as argv)"
proof -
  from get_minimal_mounts_facts [OF assms(1)] assms(3) obtain q where q: "q \<in> set minimal" "is_relative_to p q" by blast
  then have "docker_mount P q \<in> set (map (docker_mount P) (h_set_order H minimal))" using assms(2) by simp
  then have "docker_mount P q \<in> set (docker_command H scripts cwd P I port gid env ap (map (docker_mount P) (h_set_order H minimal)) as argv)"
    using docker_command_shape(3) by blast
  then show ?thesis using q(2) unfolding docker_mount_def by blast
qed

definition sample_places :: places where
  "sample_places = \<lparr>host_project_root = path_of ''/w'', container_project_root = path_of ''/w'', command_project_root = path_of ''/w'',
     host_home = path_of ''/b'', command_home = path_of ''/e'', container_home = path_of ''/c'', host_tmp_dir = path_of ''/t'',
     container_tmp_dir = path_of ''/t''\<rparr>"

definition sample_identity :: identity where
  "sample_identity = \<lparr>user_name = ''u'', user_id = 1, group_name = ''g'', group_id = 1\<rparr>"

theorem requested_mounts_reach_container_witness:
  "\<exists>q. is_relative_to (path_of ''/e'') q \<and>
    (case relative_to q (path_of ''/e'') of
       Some rest \<Rightarrow> volume (path_div (path_of ''/b'') rest) (path_div (path_of ''/c'') rest) | None \<Rightarrow> volume q q)
    \<in> set (docker_command sample_host (path_of ''/s'') (path_of ''/w'') sample_places sample_identity 1 0 [] []
        (map (docker_mount sample_places) [path_of ''/e'', path_of ''/far'']) [] [])"
proof -
  have "fst (get_minimal_mounts (path_of ''/w'') [path_of ''/e''] linked_project) = Ok [path_of ''/e'', path_of ''/far'']"
    by code_simp
  then obtain w' where run: "get_minimal_mounts (path_of ''/w'') [path_of ''/e''] linked_project = (Ok [path_of ''/e'', path_of ''/far''], w')"
    by (metis prod.collapse)
  have eqs: "h_set_order sample_host ms = ms" "command_home sample_places = path_of ''/e''" "host_home sample_places = path_of ''/b''"
    "container_home sample_places = path_of ''/c''" for ms by (simp_all add: sample_host_def sample_places_def)
  have "set (h_set_order sample_host [path_of ''/e'', path_of ''/far'']) = set [path_of ''/e'', path_of ''/far'']"
    by (simp only: eqs)
  from requested_mounts_reach_container [OF run this list.set_intros(1), of sample_places "path_of ''/s''" "path_of ''/w''"
      sample_identity 1 0 "[]" "[]" "[]" "[]"] show ?thesis
    unfolding eqs .
qed

end
