(* ===== verification/Docker_Run_Live.thy ===== *)
theory Docker_Run_Live
  imports Docker_Run_Spec
begin

text \<open>
  The program \<open>docker_run.py\<close> as a whole, in both variants: it refines the container protocol, and the container is
  started. When the preparations succeed, the socket can be bound and \<open>xhost\<close> works, no path through the program ends
  before the container has run.
\<close>

section \<open>The container is started\<close>

definition launched :: "world \<Rightarrow> world \<Rightarrow> bool" where
  "launched w w' = (\<exists>u s cmd. w_trace w' = w_trace w @ u @ Spawn cmd # s \<and> container_command cmd)"

lemma launched_traced: "launched (traced w e) w' \<Longrightarrow> launched w w'"
  unfolding launched_def traced_simps append_assoc by (metis append_Cons append_Nil)

lemma wp_run_container:
  assumes "shutdown_ok N" "container_command cmd"
  shows "wp (run_container N c h cmd) (\<lambda>_. launched w) (\<lambda>_. launched w) w"
proof -
  let ?s = "stop_events N c h (w_trace w @ [Spawn cmd])"
  have "launched w (w\<lparr>w_trace := w_trace w @ Spawn cmd # ?s\<rparr>)"
    using assms(2) unfolding launched_def by (intro exI [of _ "[]"] exI [of _ ?s] exI [of _ cmd]) simp
  then show ?thesis by (simp add: wp_def run_container_run [OF assms(1)] split: result.split)
qed

definition xhost_ok :: "string \<Rightarrow> world \<Rightarrow> bool" where
  "xhost_ok user w = (\<forall>t. \<exists>out err. w_proc w t [''xhost'', ''+local:'' @ user] = Exited 0 out err)"

lemma wp_display:
  assumes "xhost_ok user w" "\<And>w'. w' = w \<or> (\<exists>e. w' = traced w e) \<Longrightarrow> Q () w'"
  shows "wp (allow_display user cmd) Q E w"
proof -
  obtain out err where "w_proc w (w_trace w) [''xhost'', ''+local:'' @ user] = Exited 0 out err"
    using assms(1) unfolding xhost_ok_def by blast
  with assms(2) show ?thesis unfolding allow_display_def run_checked_def by (auto simp: wp_simps)
qed

lemma wp_launch:
  assumes "shutdown_ok N" "net_bind N (w_trace w) = None" "xhost_ok (user_name I) w"
  shows "wp (launch_container (start_handler listener) R H N busy fuel d P I gid x ms as argv) (\<lambda>_ _. False) (\<lambda>_. launched w) w"
proof -
  have last: "wp (allow_display (user_name I) cmd) (\<lambda>_. wp (py_bind (run_container N c h cmd) sys_exit) (\<lambda>_ _. False) (\<lambda>_. launched w))
      (\<lambda>_. launched w) w'"
    if "xhost_ok (user_name I) w'" "\<And>v. launched w' v \<Longrightarrow> launched w v" "container_command cmd" for cmd c h w'
    using that(1,2)
    by (intro wp_display) (auto simp: wp_bind intro!: wp_mono [OF wp_run_container [OF assms(1) that(3)]] dest: launched_traced)
  show ?thesis
    unfolding launch_container_def start_handler_def start_background_cleanup_def net_call_def Let_def
    using assms(2,3)
    by (simp add: wp_simps)
      (rule last, simp add: xhost_ok_def, (drule launched_traced)+, assumption, rule docker_command_shape)
qed

text \<open>A conversation with a container is one in which the container came last.\<close>

lemma protocol_launched:
  assumes "container_protocol argv r cs" "c \<in> set cs" "container_command (fst c)"
  shows "\<exists>ds cmd x. cs = ds @ [(cmd, x)] \<and> container_command cmd \<and> suffix argv cmd \<and> r = exit_of x"
  using assms by (cases rule: container_protocol.cases) blast+

text \<open>The preparations of the program, and what follows when they succeed.\<close>

definition prepared :: "(places \<Rightarrow> (identity \<times> int \<times> extras) py) \<Rightarrow> runtime \<Rightarrow> host \<Rightarrow> string list \<Rightarrow> world \<Rightarrow> identity \<Rightarrow> world \<Rightarrow> bool" where
  "prepared collect R H argv w I w3 = (\<exists>script args rest w0 P w1 gid x w2 minimal evaluated.
     fst (path_resolve (h_script H) w) = Ok script \<and>
     parse_known docker_run_parser argv = Parsed args rest \<and>
     basic_config (arg_value args ''devkit_log_file'') w = (Ok (), w0) \<and>
     find_places H w0 = (Ok P, w1) \<and>
     collect P w1 = (Ok (I, gid, x), w2) \<and>
     fst (get_minimal_mounts (command_project_root P) (x_mounts x) w2) = Ok minimal \<and>
     collect_args R H (path_sub (command_project_root P) ''devkit.json'')
       (traced w2 (Log INFO ''Resolved %d minimal mounts out of %d requested''
         [str_nat (length minimal), str_nat (length (x_mounts x))])) = (Ok evaluated, w3))"

lemma preparedI:
  "fst (path_resolve (h_script H) w) = Ok script \<Longrightarrow> parse_known docker_run_parser argv = Parsed args rest \<Longrightarrow>
   basic_config (arg_value args ''devkit_log_file'') w = (Ok (), w0) \<Longrightarrow> find_places H w0 = (Ok P, w1) \<Longrightarrow>
   collect P w1 = (Ok (I, gid, x), w2) \<Longrightarrow> fst (get_minimal_mounts (command_project_root P) (x_mounts x) w2) = Ok minimal \<Longrightarrow>
   collect_args R H (path_sub (command_project_root P) ''devkit.json'')
     (traced w2 (Log INFO ''Resolved %d minimal mounts out of %d requested''
       [str_nat (length minimal), str_nat (length (x_mounts x))])) = (Ok evaluated, w3) \<Longrightarrow> prepared collect R H argv w I w3"
  unfolding prepared_def by blast

lemma program_launches:
  assumes "prepared collect R H argv w I w3" "\<And>P. side (collect P)"
    and "\<And>d P gid x ms as rest. xhost_ok (user_name I) w3 \<Longrightarrow> wp (launch d P I gid x ms as rest) (\<lambda>_ _. False) (\<lambda>_. launched w3) w3"
    and "conv (docker_run_program collect launch R H argv) (container_protocol (forwarded argv))" "xhost_ok (user_name I) w"
  shows "\<exists>t cs cmd y w'. docker_run_program collect launch R H argv w = (exit_of y, w') \<and> w_trace w' = w_trace w @ t \<and>
    replies (w_proc w) (w_trace w) t = cs @ [(cmd, y)] \<and> container_command cmd \<and> suffix (forwarded argv) cmd"
proof -
  let ?l = "\<lambda>minimal x. Log INFO ''Resolved %d minimal mounts out of %d requested'' [str_nat (length minimal), str_nat (length (x_mounts x))]"
  from assms(1) obtain script args rest w0 P w1 gid x w2 minimal evaluated where ph:
    "fst (path_resolve (h_script H) w) = Ok script" "parse_known docker_run_parser argv = Parsed args rest"
    "basic_config (arg_value args ''devkit_log_file'') w = (Ok (), w0)" "find_places H w0 = (Ok P, w1)"
    "collect P w1 = (Ok (I, gid, x), w2)" "fst (get_minimal_mounts (command_project_root P) (x_mounts x) w2) = Ok minimal"
    "collect_args R H (path_sub (command_project_root P) ''devkit.json'') (traced w2 (?l minimal x)) = (Ok evaluated, w3)"
    unfolding prepared_def by blast
  have grow: "\<exists>t. w_trace v' = w_trace v @ t \<and> same_outside v v'" if "conv m Q" "m v = (r, v')" for m :: "'x py" and Q v v' r
    using that unfolding conv_def by (auto elim!: doesD)
  obtain t0 t1 t2 t3 where t: "w_trace w0 = w_trace w @ t0" "w_trace w1 = w_trace w0 @ t1" "w_trace w2 = w_trace w1 @ t2"
    "w_trace w3 = w_trace w2 @ ?l minimal x # t3" and w3: "same_outside w w3"
    using grow [OF side_config ph(3)] grow [OF quiet_find_places ph(4)] grow [OF assms(2) ph(5)] grow [OF quiet_args ph(7)]
    by (auto simp: same_outside_def)
  obtain r w' where run: "docker_run_program collect launch R H argv w = (r, w')" by fastforce
  have resolve: "path_resolve (h_script H) w = (Ok script, w)"
    using ph(1) by (auto simp: path_resolve_def split: option.splits)
  have minimal: "get_minimal_mounts (command_project_root P) (x_mounts x) w2 = (Ok minimal, w2)"
    using ph(6) get_minimal_mounts_pure by (metis prod.collapse)
  have "xhost_ok (user_name I) w3" using assms(5) w3 by (simp add: xhost_ok_def same_outside_def)
  from assms(3) [OF this, of "path_parent script" P gid x "map (docker_mount P) (h_set_order H minimal)" evaluated rest]
  have "launched w3 w'" using run
    unfolding docker_run_program_def parse_known_args_def ph(2) parse_outcome.case
    by (auto simp: wp_def py_bind_def py_seq_def resolve ph(3,4,5) minimal py_ret_def log_info_def emit_def
        ph(7) [unfolded traced_def] split: prod.splits result.splits)
  then obtain u s cmd where l: "w_trace w' = w_trace w @ (t0 @ t1 @ t2 @ ?l minimal x # t3 @ u @ Spawn cmd # s)" "container_command cmd"
    unfolding launched_def t by auto
  obtain t where w': "w_trace w' = w_trace w @ t" "container_protocol (forwarded argv) r (replies (w_proc w) (w_trace w) t)"
    using convD [OF assms(4) run] .
  with l obtain c where "c \<in> set (replies (w_proc w) (w_trace w) t)" "container_command (fst c)" by fastforce
  from protocol_launched [OF w'(2) this] run w'(1) show ?thesis by blast
qed

section \<open>The program\<close>

lemma conv_docker_run_google:
  assumes "shutdown_ok N"
  shows "conv (docker_run_main_google sink R H N busy fuel argv) (container_protocol (forwarded argv))"
  unfolding docker_run_main_google_def collect_extras_google_def launch_container_google_def
  by (intro conv_docker_run_program assms side_collect side_google conv_launch side_start)

lemma main_launches:
  assumes "shutdown_ok N" "prepared (collect_extras no_mounts H) R H argv w I w3" "net_bind N (w_trace w3) = None" "xhost_ok (user_name I) w"
  shows "\<exists>t cs cmd y w'. docker_run_main R H N busy fuel argv w = (exit_of y, w') \<and> w_trace w' = w_trace w @ t \<and>
    replies (w_proc w) (w_trace w) t = cs @ [(cmd, y)] \<and> container_command cmd \<and> suffix (forwarded argv) cmd"
  unfolding docker_run_main_def start_container_event_handler_def [abs_def]
  by (rule program_launches [OF assms(2)])
    (use conv_docker_run_main [OF assms(1)] assms(3,4) in
      \<open>simp_all add: wp_launch [OF assms(1)] side_collect side_no_mounts docker_run_main_def start_container_event_handler_def [abs_def]\<close>)

lemma google_launches:
  assumes "shutdown_ok N" "prepared (collect_extras_google H) R H argv w I w3" "net_bind N (w_trace w3) = None" "xhost_ok (user_name I) w"
  shows "\<exists>t cs cmd y w'. docker_run_main_google sink R H N busy fuel argv w = (exit_of y, w') \<and> w_trace w' = w_trace w @ t \<and>
    replies (w_proc w) (w_trace w) t = cs @ [(cmd, y)] \<and> container_command cmd \<and> suffix (forwarded argv) cmd"
  unfolding docker_run_main_google_def launch_container_google_def start_container_event_handler_metric_def [abs_def]
  by (rule program_launches [OF assms(2)])
    (use conv_docker_run_google [OF assms(1)] assms(3,4) in
      \<open>simp_all add: wp_launch [OF assms(1)] side_collect side_google collect_extras_google_def [abs_def] docker_run_main_google_def
        launch_container_google_def start_container_event_handler_metric_def [abs_def]\<close>)

text \<open>
  C1. The program refines the container protocol, whatever its arguments: it starts at most one container, as its last
  command; the command ends with exactly the arguments the program was given, in order, but for its own option
  \<open>--devkit-log-file\<close>, or an abbreviation of it, and the value of it; and the program exits as the container did, or
  with 130 when it is interrupted. No other path ends normally.
\<close>
theorem docker_run_refines_protocol:
  assumes "shutdown_ok N" "docker_run_main R H N busy fuel argv w = (r, w')"
  shows "\<exists>t. w_trace w' = w_trace w @ t \<and> container_protocol (forwarded argv) r (replies (w_proc w) (w_trace w) t)"
  using convD [OF conv_docker_run_main [OF assms(1)] assms(2)] by blast

text \<open>
  C17. The variant with further mounts refines the same protocol, whatever its arguments: the commands it runs to find and
  to prepare the mounts start no container, whatever the configuration.
\<close>
theorem docker_run_google_refines_protocol:
  assumes "shutdown_ok N" "docker_run_main_google sink R H N busy fuel argv w = (r, w')"
  shows "\<exists>t. w_trace w' = w_trace w @ t \<and> container_protocol (forwarded argv) r (replies (w_proc w) (w_trace w) t)"
  using convD [OF conv_docker_run_google [OF assms(1)] assms(2)] by blast

text \<open>
  C2. When the command line has a value for each option, the log file can be opened, the places, the mounts and the
  arguments can be determined, the socket of the event handler can be bound and \<open>xhost\<close> does not fail, the program
  starts the container, as its last command and with the arguments that are not its own at the end, and ends with
  its exit status.
\<close>
theorem docker_run_starts_container:
  assumes "shutdown_ok N" "prepared (collect_extras no_mounts H) R H argv w I w3"
    and "net_bind N (w_trace w3) = None" "xhost_ok (user_name I) w"
  shows "\<exists>t cs cmd y w'. docker_run_main R H N busy fuel argv w = (exit_of y, w') \<and> w_trace w' = w_trace w @ t \<and>
    replies (w_proc w) (w_trace w) t = cs @ [(cmd, y)] \<and> container_command cmd \<and> suffix (forwarded argv) cmd"
  by (rule main_launches [OF assms])

section \<open>A sample project\<close>

definition no_sink :: metric_sink where
  "no_sink n a f = py_ret ()"

definition sample_argv :: "string list" where
  "sample_argv = [''--devkit-log-file'', ''/h/log'', ''ls'', ''-l'', ''--'', ''--define'']"

definition docker_exits_3 :: "event list \<Rightarrow> string list \<Rightarrow> proc_outcome" where
  "docker_exits_3 t cmd = Exited (if take 1 cmd = [''docker''] then 3 else if take 1 cmd = [''xhost''] then 0 else 1) [] []"

definition ready_world :: world where
  "ready_world = world_of (FDir [(''devkit'', FDir []), (''h'', FDir []), (''s'', FDir [(''r'', FFile [])])]) [] docker_exits_3"

lemma case_pair_OkE:
  assumes "case m of (Exc _, _) \<Rightarrow> False | (Ok y, v) \<Rightarrow> Q y v"
  obtains y v where "m = (Ok y, v)" "Q y v"
  using assms by (auto split: prod.splits result.splits)

lemma prepared_phases:
  assumes "case basic_config (Some ''/h/log'') ready_world of (Exc _, _) \<Rightarrow> False | (Ok (), w0) \<Rightarrow>
    (case find_places sample_host w0 of (Exc _, _) \<Rightarrow> False | (Ok P, w1) \<Rightarrow>
    (case collect P w1 of (Exc _, _) \<Rightarrow> False | (Ok y, w2) \<Rightarrow>
    (case get_minimal_mounts (command_project_root P) (x_mounts (snd (snd y))) w2 of (Exc _, _) \<Rightarrow> False | (Ok minimal, _) \<Rightarrow>
     (case collect_args sample_runtime sample_host (path_sub (command_project_root P) ''devkit.json'')
      (traced w2 (Log INFO ''Resolved %d minimal mounts out of %d requested''
        [str_nat (length minimal), str_nat (length (x_mounts (snd (snd y))))])) of (Exc _, _) \<Rightarrow> False | (Ok ev, _) \<Rightarrow> True))))"
  shows "\<exists>I w3. prepared collect sample_runtime sample_host sample_argv ready_world I w3"
proof -
  have ph: "parse_known docker_run_parser sample_argv = Parsed [(''devkit_log_file'', [''/h/log''])] [''ls'', ''-l'', ''--'', ''--define'']"
    "fst (path_resolve (h_script sample_host) ready_world) = Ok (path_of ''/s/r'')"
    "arg_value [(''devkit_log_file'', [''/h/log''])] ''devkit_log_file'' = Some ''/h/log''" by code_simp+
  from assms obtain w0 P w1 y w2 minimal w2' ev w3 where run:
    "basic_config (Some ''/h/log'') ready_world = (Ok (), w0)" "find_places sample_host w0 = (Ok P, w1)" "collect P w1 = (Ok y, w2)"
    "get_minimal_mounts (command_project_root P) (x_mounts (snd (snd y))) w2 = (Ok minimal, w2')"
    "collect_args sample_runtime sample_host (path_sub (command_project_root P) ''devkit.json'')
      (traced w2 (Log INFO ''Resolved %d minimal mounts out of %d requested''
        [str_nat (length minimal), str_nat (length (x_mounts (snd (snd y))))])) = (Ok ev, w3)"
    by (elim case_pair_OkE) (auto elim!: case_pair_OkE split: unit.splits)
  obtain I gid x where y: "y = (I, gid, x)" by (cases y)
  have "fst (get_minimal_mounts (command_project_root P) (x_mounts x) w2) = Ok minimal" using run(4) y by simp
  from preparedI [where collect = collect, OF ph(2,1) run(1) [folded ph(3)] run(2) run(3) [unfolded y] this] run(5)
  show ?thesis unfolding y snd_conv by blast
qed

lemma sample_prepared: "\<exists>I w3. prepared (collect_extras no_mounts sample_host) sample_runtime sample_host sample_argv ready_world I w3"
  by (rule prepared_phases) code_simp

lemma sample_prepared_google: "\<exists>I w3. prepared (collect_extras_google sample_host) sample_runtime sample_host sample_argv ready_world I w3"
  by (rule prepared_phases) code_simp

lemma sample_host_ok: "net_bind offline t = None" "xhost_ok user ready_world" "w_trace ready_world = []" "w_proc ready_world = docker_exits_3"
  by (simp_all add: offline_def xhost_ok_def ready_world_def world_of_def docker_exits_3_def)

lemma sample_forwarded: "forwarded sample_argv = [''ls'', ''-l'', ''--'', ''--define'']"
  by code_simp

lemma sample_exit:
  assumes "replies docker_exits_3 [] t = cs @ [(cmd, y)]" "container_command cmd"
  shows "y = Exited 3 [] []"
proof -
  from assms(1) obtain u where "y = docker_exits_3 u cmd" using replies_from [of cmd y docker_exits_3 "[]" t] by auto
  with assms(2) show ?thesis by (cases cmd) (auto simp: docker_exits_3_def container_command_def)
qed

lemma exit_3: "exit_of (Exited 3 [] []) = Exc (SystemExit 3)"
  by (simp add: exit_of_def)

lemma protocol_last:
  assumes "container_protocol argv r cs" "cs = ds @ [(cmd, x)]" "container_command cmd"
  shows "suffix argv cmd \<and> r = exit_of x"
  using protocol_launched [OF assms(1), of "(cmd, x)"] assms(2,3) by auto

theorem docker_run_refines_protocol_witness:
  "\<exists>w' cs cmd. docker_run_main sample_runtime sample_host offline (\<lambda>_. False) 1 sample_argv ready_world = (Exc (SystemExit 3), w') \<and>
     replies docker_exits_3 [] (w_trace w') = cs @ [(cmd, Exited 3 [] [])] \<and> container_command cmd \<and>
     suffix [''ls'', ''-l'', ''--'', ''--define''] cmd"
proof -
  obtain I w3 where "prepared (collect_extras no_mounts sample_host) sample_runtime sample_host sample_argv ready_world I w3"
    using sample_prepared by blast
  from main_launches [OF offline_shutdown this sample_host_ok(1,2), of "\<lambda>_. False" 1]
  obtain w' cs cmd y where run: "docker_run_main sample_runtime sample_host offline (\<lambda>_. False) 1 sample_argv ready_world = (exit_of y, w')"
    and w': "replies docker_exits_3 [] (w_trace w') = cs @ [(cmd, y)]" "container_command cmd"
    by (auto simp: sample_host_ok(3,4))
  have y: "y = Exited 3 [] []" using sample_exit [OF w'] .
  have "container_protocol (forwarded sample_argv) (exit_of y) (replies docker_exits_3 [] (w_trace w'))"
    using docker_run_refines_protocol [OF offline_shutdown run] by (simp add: sample_host_ok(3,4))
  from protocol_last [OF this w'] run w' show ?thesis unfolding sample_forwarded y exit_3 by blast
qed

theorem docker_run_google_refines_protocol_witness:
  "\<exists>w' cs cmd. docker_run_main_google no_sink sample_runtime sample_host offline (\<lambda>_. False) 1 sample_argv ready_world = (Exc (SystemExit 3), w') \<and>
     replies docker_exits_3 [] (w_trace w') = cs @ [(cmd, Exited 3 [] [])] \<and> container_command cmd \<and>
     suffix [''ls'', ''-l'', ''--'', ''--define''] cmd"
proof -
  obtain I w3 where "prepared (collect_extras_google sample_host) sample_runtime sample_host sample_argv ready_world I w3"
    using sample_prepared_google by blast
  from google_launches [OF offline_shutdown this sample_host_ok(1,2), of no_sink "\<lambda>_. False" 1]
  obtain w' cs cmd y where run: "docker_run_main_google no_sink sample_runtime sample_host offline (\<lambda>_. False) 1 sample_argv ready_world = (exit_of y, w')"
    and w': "replies docker_exits_3 [] (w_trace w') = cs @ [(cmd, y)]" "container_command cmd"
    by (auto simp: sample_host_ok(3,4))
  have y: "y = Exited 3 [] []" using sample_exit [OF w'] .
  have "container_protocol (forwarded sample_argv) (exit_of y) (replies docker_exits_3 [] (w_trace w'))"
    using docker_run_google_refines_protocol [OF offline_shutdown run] by (simp add: sample_host_ok(3,4))
  from protocol_last [OF this w'] run w' show ?thesis unfolding sample_forwarded y exit_3 by blast
qed

theorem docker_run_starts_container_witness:
  "\<exists>w' cs cmd. docker_run_main sample_runtime sample_host offline (\<lambda>_. False) 1 sample_argv ready_world = (Exc (SystemExit 3), w') \<and>
     replies docker_exits_3 [] (w_trace w') = cs @ [(cmd, Exited 3 [] [])] \<and> suffix [''ls'', ''-l'', ''--'', ''--define''] cmd"
proof -
  obtain I w3 where "prepared (collect_extras no_mounts sample_host) sample_runtime sample_host sample_argv ready_world I w3"
    using sample_prepared by blast
  from docker_run_starts_container [OF offline_shutdown this sample_host_ok(1,2), of "\<lambda>_. False" 1]
  obtain w' cs cmd y where run: "docker_run_main sample_runtime sample_host offline (\<lambda>_. False) 1 sample_argv ready_world = (exit_of y, w')"
    "suffix (forwarded sample_argv) cmd" and w': "replies docker_exits_3 [] (w_trace w') = cs @ [(cmd, y)]" "container_command cmd"
    by (auto simp: sample_host_ok(3,4))
  from run w' show ?thesis unfolding sample_forwarded sample_exit [OF w'] exit_3 by blast
qed

end
