(* ===== verification/Issue_Certificate.thy ===== *)
theory Issue_Certificate
  imports Py_Argparse "HOL-Library.Word"
begin

text \<open>
  \<open>tools/issue_certificate_response_to_der.py\<close>: reads the JSON answer of the certificate service, takes
  the first certificate and writes its bytes. A Python \<open>bytes\<close> is a list of 8-bit words.
\<close>

unbundle bit_operations_syntax

section \<open>\<open>base64.b64decode\<close>\<close>

type_synonym byte = "8 word"

text \<open>\<open>table_a2b_base64\<close>: the value of a character of the alphabet.\<close>

definition b64_value :: "char \<Rightarrow> byte option" where
  "b64_value c =
     (let n = (of_char c :: nat) in
      if 65 \<le> n \<and> n \<le> 90 then Some (of_nat (n - 65))
      else if 97 \<le> n \<and> n \<le> 122 then Some (of_nat (n - 71))
      else if 48 \<le> n \<and> n \<le> 57 then Some (of_nat (n + 4))
      else if n = 43 then Some 62
      else if n = 47 then Some 63
      else None)"

text \<open>
  The loop of \<open>binascii.a2b_base64\<close> (not strict): the position in the group of four, the pads seen since
  the last data character and the bits left over. A foreign character is skipped; a pad that completes the
  group ends the input; \<^const>\<open>None\<close> is \<open>binascii.Error\<close>.
\<close>

fun a2b_loop :: "nat \<Rightarrow> nat \<Rightarrow> byte \<Rightarrow> string \<Rightarrow> byte list option" where
  "a2b_loop quad_pos pads leftchar [] = (if quad_pos = 0 then Some [] else None)"
| "a2b_loop quad_pos pads leftchar (c # cs) =
     (if c = CHR ''='' then
        (if 2 \<le> quad_pos then
           (if 4 \<le> quad_pos + (pads + 1) then Some [] else a2b_loop quad_pos (pads + 1) leftchar cs)
         else a2b_loop quad_pos pads leftchar cs)
      else
        (case b64_value c of
           None \<Rightarrow> a2b_loop quad_pos pads leftchar cs
         | Some v \<Rightarrow>
             if quad_pos = 0 then a2b_loop 1 0 v cs
             else if quad_pos = 1 then
               map_option (Cons (push_bit 2 leftchar OR drop_bit 4 v)) (a2b_loop 2 0 (v AND 0x0F) cs)
             else if quad_pos = 2 then
               map_option (Cons (push_bit 4 leftchar OR drop_bit 2 v)) (a2b_loop 3 0 (v AND 0x03) cs)
             else
               map_option (Cons (push_bit 6 leftchar OR v)) (a2b_loop 0 0 0 cs)))"

definition is_ascii :: "string \<Rightarrow> bool" where
  "is_ascii s = list_all (\<lambda>c. (of_char c :: nat) < 128) s"

text \<open>\<open>b64decode(v)\<close> of a JSON value: a string outside ASCII is a \<open>ValueError\<close>, any other value a \<open>TypeError\<close>.\<close>

definition b64decode :: "json \<Rightarrow> byte list result" where
  "b64decode v =
     (case v of
        JStr s \<Rightarrow>
          if \<not> is_ascii s then Exc (ValueError ''string argument should contain only ASCII characters'')
          else (case a2b_loop 0 0 0 s of Some bs \<Rightarrow> Ok bs | None \<Rightarrow> Exc (ValueError ''Incorrect padding''))
      | _ \<Rightarrow> Exc TypeError)"

section \<open>The program\<close>

text \<open>\<open>data.get(k)\<close>: a value that is not an object has no such attribute.\<close>

definition json_get :: "json \<Rightarrow> string \<Rightarrow> json result" where
  "json_get v k =
     (case v of
        JObj d \<Rightarrow> Ok (case map_of d k of Some x \<Rightarrow> x | None \<Rightarrow> JNull)
      | _ \<Rightarrow> Exc AttributeError)"

definition extract_cert_from_json :: "string \<Rightarrow> json py" where
  "extract_cert_from_json json_input =
     py_try
       (py_bind (of_opt JSONDecodeError (json_loads json_input)) (\<lambda>data.
        py_bind (of_result (json_get data ''signedCertificates'')) (\<lambda>certs.
        py_bind (if py_truth certs then py_ret certs else of_result (json_get data ''signed_certificates'')) (\<lambda>certs.
        case certs of
          JList (cert # _) \<Rightarrow> py_ret cert
        | _ \<Rightarrow> py_seq (py_eprint (''Error: Could not find '' @ [CHR 0x27] @ ''signedCertificates'' @ [CHR 0x27] @ '' field in input.''))
               (py_ret JNull)))))
       (\<lambda>e. e = JSONDecodeError)
       (\<lambda>e. py_seq (py_eprint (''Error decoding JSON: '' @ exn_str e)) (py_ret JNull))"

definition issue_parser :: parser where
  "issue_parser = \<lparr>p_opts = [help_opt], p_positional = None\<rparr>"

definition byte_chars :: "byte list \<Rightarrow> string" where
  "byte_chars bs = map (\<lambda>b. char_of (unat b)) bs"

text \<open>
  \<open>sys.stdout.buffer.write\<close>: what becomes of the bytes is a parameter. They are written, or a part of them is and the
  call raises.
\<close>

type_synonym sink = "string \<Rightarrow> (string \<times> exn) option"

definition write_buffer :: "sink \<Rightarrow> string \<Rightarrow> unit py" where
  "write_buffer stdout s =
     (case stdout s of
        None \<Rightarrow> emit (Stdout s)
      | Some (written, e) \<Rightarrow> py_seq (py_when (written \<noteq> []) (emit (Stdout written))) (py_raise e))"

text \<open>The script; \<open>stdin\<close> is what reading the standard input gives.\<close>

definition issue_certificate_main :: "string result \<Rightarrow> sink \<Rightarrow> string list \<Rightarrow> unit py" where
  "issue_certificate_main stdin stdout argv =
     py_bind (parse_args issue_parser argv) (\<lambda>_.
     py_bind (py_try (of_result stdin) is_Exception
       (\<lambda>e. py_seq (py_eprint (''Error reading from stdin: '' @ exn_str e)) (sys_exit 1))) (\<lambda>json_content.
     py_bind (extract_cert_from_json json_content) (\<lambda>b64_cert.
     if py_truth b64_cert then
       py_try
         (py_bind (of_result (b64decode b64_cert)) (\<lambda>der_output. write_buffer stdout (byte_chars der_output)))
         is_Exception
         (\<lambda>e. py_seq (py_eprint (''Error decoding Base64: '' @ exn_str e)) (sys_exit 1))
     else sys_exit 1)))"

section \<open>Encoding and decoding\<close>

text \<open>The encoding of RFC 4648.\<close>

definition b64_char :: "byte \<Rightarrow> char" where
  "b64_char v =
     (let n = unat (take_bit 6 v)
      in char_of (if n < 26 then n + 65 else if n < 52 then n + 71 else if n < 62 then n - 4
                  else if n = 62 then 43 else 47))"

fun b64encode :: "byte list \<Rightarrow> string" where
  "b64encode [] = []"
| "b64encode [a] = [b64_char (drop_bit 2 a), b64_char (push_bit 4 (a AND 3)), CHR ''='', CHR ''='']"
| "b64encode [a, b] =
     [b64_char (drop_bit 2 a), b64_char (push_bit 4 (a AND 3) OR drop_bit 4 b), b64_char (push_bit 2 (b AND 15)), CHR ''='']"
| "b64encode (a # b # c # bs) =
     [b64_char (drop_bit 2 a), b64_char (push_bit 4 (a AND 3) OR drop_bit 4 b),
      b64_char (push_bit 2 (b AND 15) OR drop_bit 6 c), b64_char (c AND 63)] @ b64encode bs"

lemma six_bits: "unat (take_bit 6 v :: byte) < 64"
proof -
  have "unat (take_bit 6 v) = take_bit 6 (unat v)" by transfer (simp add: take_bit_nat_eq nat_take_bit_eq)
  then show ?thesis using take_bit_nat_less_exp [of 6 "unat v"] by simp
qed

lemma b64_value_char: "b64_value (b64_char v) = Some (take_bit 6 v)"
proof -
  have id6: "(of_nat (unat (take_bit 6 v)) :: byte) = take_bit 6 v" by simp
  then have "unat (take_bit 6 v) = 62 \<Longrightarrow> take_bit 6 v = 62" "unat (take_bit 6 v) = 63 \<Longrightarrow> take_bit 6 v = 63"
    by (metis of_nat_numeral)+
  then show ?thesis using six_bits [of v] id6
    by (auto simp: b64_value_def b64_char_def Let_def)
qed

lemma b64_char_plain: "32 \<le> (of_char (b64_char v) :: nat) \<and> (of_char (b64_char v) :: nat) < 128 \<and>
    b64_char v \<noteq> CHR 0x22 \<and> b64_char v \<noteq> CHR 0x5C \<and> b64_char v \<noteq> CHR ''=''"
proof -
  let ?n = "of_char (b64_char v) :: nat"
  have "?n = 43 \<or> (47 \<le> ?n \<and> ?n \<le> 57) \<or> (65 \<le> ?n \<and> ?n \<le> 90) \<or> (97 \<le> ?n \<and> ?n \<le> 122)"
    using six_bits [of v] by (auto simp: b64_char_def Let_def)
  then show ?thesis by auto
qed

lemma byte_index: "n < 8 \<Longrightarrow> n \<in> {0, 1, 2, 3, 4, 5, 6, 7 :: nat}"
  by auto

lemma byte_high: "8 \<le> n \<Longrightarrow> \<not> bit (b :: byte) n"
  using bit_imp_le_length [of b n] by auto

lemma byte_eqI: "bit a 0 = bit b 0 \<Longrightarrow> bit a 1 = bit b 1 \<Longrightarrow> bit a 2 = bit b 2 \<Longrightarrow> bit a 3 = bit b 3 \<Longrightarrow>
    bit a 4 = bit b 4 \<Longrightarrow> bit a 5 = bit b 5 \<Longrightarrow> bit a 6 = bit b 6 \<Longrightarrow> bit a 7 = bit b 7 \<Longrightarrow> a = (b :: byte)"
  by (rule bit_word_eqI) (auto dest!: byte_index)

lemma byte_masks: "(3 :: byte) = mask 2" "(15 :: byte) = mask 4" "(63 :: byte) = mask 6"
  by (simp_all add: mask_eq_exp_minus_1)

lemma regroup:
  fixes a b c :: byte
  shows "push_bit 2 (take_bit 6 (drop_bit 2 a)) OR drop_bit 4 (take_bit 6 (push_bit 4 (a AND 3) OR drop_bit 4 b)) = a"
    "push_bit 2 (take_bit 6 (drop_bit 2 a)) OR drop_bit 4 (take_bit 6 (push_bit 4 (a AND 3))) = a"
    "push_bit 4 (take_bit 6 (push_bit 4 (a AND 3) OR drop_bit 4 b) AND 15) OR
       drop_bit 2 (take_bit 6 (push_bit 2 (b AND 15) OR drop_bit 6 c)) = b"
    "push_bit 4 (take_bit 6 (push_bit 4 (a AND 3) OR drop_bit 4 b) AND 15) OR
       drop_bit 2 (take_bit 6 (push_bit 2 (b AND 15))) = b"
    "push_bit 6 (take_bit 6 (push_bit 2 (b AND 15) OR drop_bit 6 c) AND 3) OR take_bit 6 (c AND 63) = c"
  unfolding byte_masks by (rule byte_eqI; simp add: bit_simps byte_high)+

text \<open>One group of four characters, and the last group.\<close>

lemma a2b_group:
  "a2b_loop 0 p l (b64_char x # b64_char y # b64_char z # b64_char u # cs) =
     map_option (\<lambda>r. (push_bit 2 (take_bit 6 x) OR drop_bit 4 (take_bit 6 y)) #
       (push_bit 4 (take_bit 6 y AND 15) OR drop_bit 2 (take_bit 6 z)) #
       (push_bit 6 (take_bit 6 z AND 3) OR take_bit 6 u) # r) (a2b_loop 0 0 0 cs)"
  "a2b_loop 0 p l [b64_char x, b64_char y, b64_char z, CHR ''=''] =
     Some [push_bit 2 (take_bit 6 x) OR drop_bit 4 (take_bit 6 y), push_bit 4 (take_bit 6 y AND 15) OR drop_bit 2 (take_bit 6 z)]"
  "a2b_loop 0 p l [b64_char x, b64_char y, CHR ''='', CHR ''=''] = Some [push_bit 2 (take_bit 6 x) OR drop_bit 4 (take_bit 6 y)]"
  by (cases "a2b_loop 0 0 0 cs") (simp_all add: b64_value_char b64_char_plain)

lemma a2b_encode: "a2b_loop 0 p l (b64encode bs) = Some bs"
  by (induction bs arbitrary: p l rule: b64encode.induct)
    (simp, simp_all only: b64encode.simps append_Cons append_Nil a2b_group regroup option.map)

lemma b64encode_chars:
  "c \<in> set (b64encode bs) \<Longrightarrow> 32 \<le> (of_char c :: nat) \<and> (of_char c :: nat) < 128 \<and> c \<noteq> CHR 0x22 \<and> c \<noteq> CHR 0x5C"
  by (induction bs rule: b64encode.induct) (auto simp: b64_char_plain)

lemma b64encode_ne: "bs \<noteq> [] \<Longrightarrow> b64encode bs \<noteq> []"
  by (cases bs rule: b64encode.cases) simp_all

text \<open>Characters outside the alphabet do not count.\<close>

definition b64_relevant :: "char \<Rightarrow> bool" where
  "b64_relevant c = (c = CHR ''='' \<or> b64_value c \<noteq> None)"

lemma a2b_filter: "a2b_loop q p l (filter b64_relevant s) = a2b_loop q p l s"
  by (induction q p l s rule: a2b_loop.induct) (auto simp: b64_relevant_def split: option.splits)

lemma b64decode_encoded:
  assumes "is_ascii s" "filter b64_relevant s = b64encode bs"
  shows "b64decode (JStr s) = Ok bs"
  using assms a2b_filter [of 0 0 0 s, symmetric] by (simp add: b64decode_def a2b_encode)

section \<open>The certificate of a response\<close>

text \<open>The certificates of an answer: the field in the spelling of the JSON mapping or, when that is missing or empty, of the
  message definition.\<close>

definition json_or_null :: "json option \<Rightarrow> json" where
  "json_or_null v = (case v of Some x \<Rightarrow> x | None \<Rightarrow> JNull)"

definition certificates :: "(string \<times> json) list \<Rightarrow> json" where
  "certificates d =
     (case map_of d ''signedCertificates'' of
        Some v \<Rightarrow> if v \<in> {JNull, JList []} then json_or_null (map_of d ''signed_certificates'') else v
      | None \<Rightarrow> json_or_null (map_of d ''signed_certificates''))"

lemma extract_first:
  assumes "json_loads text = Some (JObj d)" "certificates d = JList (c # cs)"
  shows "extract_cert_from_json text w = (Ok c, w)"
proof -
  have truth: "py_truth (JList (c # cs))" "\<not> py_truth JNull" "\<not> py_truth (JList [])" by (simp_all add: py_truth_def)
  show ?thesis
    using assms by (auto simp: extract_cert_from_json_def certificates_def json_or_null_def json_get_def of_result_def py_simps truth
        split: option.splits if_splits)
qed

text \<open>
  C15. Given an answer of the certificate service that lists one or more certificates, under either spelling of the field,
  the program writes exactly the bytes of the first certificate to the standard output, nothing else, and
  ends normally, provided that the standard output can be written.
\<close>
theorem certificate_extracted:
  assumes "json_loads text = Some (JObj d)" "certificates d = JList (JStr s # issuers)"
    and "is_ascii s" "filter b64_relevant s = b64encode der" "der \<noteq> []" "stdout (byte_chars der) = None"
  shows "issue_certificate_main (Ok text) stdout [] w = (Ok (), w\<lparr>w_trace := w_trace w @ [Stdout (byte_chars der)]\<rparr>)"
proof -
  have args: "parse_known issue_parser [] = Parsed [] []" by code_simp
  have "py_truth (JStr s)" using b64encode_ne [OF assms(5)] assms(4) by (auto simp: py_truth_def)
  then show ?thesis using extract_first [OF assms(1,2)] b64decode_encoded [OF assms(3,4)] assms(6)
    by (simp add: issue_certificate_main_def write_buffer_def parse_args_def parse_known_args_def args of_result_def py_simps)
qed

definition idle_world :: world where
  "idle_world = world_of (FDir []) [] (\<lambda>_ _. Exited 0 [] [])"

text \<open>An answer with a certificate and its issuer.\<close>

definition chain_text :: string where
  "chain_text = ''{'' @ [CHR 0x0A] @ '' '' @ [CHR 0x22] @ ''signedCertificates'' @ [CHR 0x22] @ '': [ '' @
     [CHR 0x22] @ ''TWE='' @ [CHR 0x22] @ '', '' @ [CHR 0x22] @ ''TWFu'' @ [CHR 0x22] @ '' ]'' @ [CHR 0x0A] @ ''}''"

theorem certificate_extracted_witness:
  "issue_certificate_main (Ok chain_text) (\<lambda>_. None) [] idle_world = (Ok (), idle_world\<lparr>w_trace := [Stdout ''Ma'']\<rparr>)"
proof -
  have "json_loads chain_text = Some (JObj [(''signedCertificates'', JList [JStr ''TWE='', JStr ''TWFu''])])"
    "certificates [(''signedCertificates'', JList [JStr ''TWE='', JStr ''TWFu''])] = JList [JStr ''TWE='', JStr ''TWFu'']"
    "is_ascii ''TWE=''" "filter b64_relevant ''TWE='' = b64encode [77, 97]" "byte_chars [77, 97] = ''Ma''" "w_trace idle_world = []"
    by code_simp+
  then show ?thesis using certificate_extracted [of chain_text _ "''TWE=''" _ "[77, 97]" "\<lambda>_. None" idle_world] by simp
qed

definition only_errors :: "world \<Rightarrow> world \<Rightarrow> bool" where
  "only_errors w w' = (\<exists>t. w_trace w' = w_trace w @ t \<and> (\<forall>ev \<in> set t. \<exists>s. ev = Stderr s))"

lemma only_errors_intros: "only_errors w w" "only_errors w w1 \<Longrightarrow> only_errors w (traced w1 (Stderr s))"
  by (auto simp: only_errors_def)

lemma wp_extract_errors:
  "only_errors w0 w \<Longrightarrow> wp (extract_cert_from_json s) (\<lambda>_. only_errors w0) (\<lambda>_. only_errors w0) w"
  unfolding extract_cert_from_json_def
  by (simp add: wp_simps json_get_def only_errors_intros split: option.split json.split list.split)

text \<open>
  C32. The program writes to the standard output only when it ends normally: whenever it raises, exits or
  finds no certificate, nothing was written there, so a redirected certificate file is never partial. (A failing write
  of the standard output itself is covered as long as it writes nothing.)
\<close>
theorem no_output_on_failure:
  assumes "issue_certificate_main stdin stdout argv w = (Exc e, w')" "e \<noteq> SystemExit 0"
    and "\<And>s written f. stdout s = Some (written, f) \<Longrightarrow> written = []"
  shows "\<exists>t. w_trace w' = w_trace w @ t \<and> (\<forall>ev \<in> set t. \<exists>s. ev = Stderr s)"
proof -
  let ?E = "\<lambda>e w'. e = SystemExit 0 \<or> only_errors w w'"
  have "wp (if py_truth c then py_try (py_bind (of_result (b64decode c)) (\<lambda>d. write_buffer stdout (byte_chars d))) is_Exception
      (\<lambda>e. py_seq (py_eprint (''Error decoding Base64: '' @ exn_str e)) (sys_exit 1)) else sys_exit 1) (\<lambda>_ _. True) ?E w1"
    if "only_errors w w1" for c w1
    using that assms(3) by (auto simp: write_buffer_def wp_simps only_errors_intros split: result.split option.split)
  then have "wp (issue_certificate_main stdin stdout argv) (\<lambda>_ _. True) ?E w"
    unfolding issue_certificate_main_def parse_args_def parse_known_args_def
    by (auto simp: wp_simps only_errors_intros split: result.split parse_outcome.split
        intro!: wp_mono [OF wp_extract_errors])
  then show ?thesis using assms by (auto simp: wp_def only_errors_def)
qed

theorem no_output_on_failure_witness:
  "\<exists>w' t. issue_certificate_main (Ok chain_text) (\<lambda>_. Some ([], OSError ''closed'')) [] idle_world = (Exc (SystemExit 1), w') \<and>
     w_trace w' = t \<and> (\<forall>ev \<in> set t. \<exists>s. ev = Stderr s)"
proof -
  let ?m = "issue_certificate_main (Ok chain_text) (\<lambda>_. Some ([], OSError ''closed'')) [] idle_world"
  have "fst ?m = Exc (SystemExit 1)" "w_trace idle_world = []" by code_simp+
  then obtain w' where run: "?m = (Exc (SystemExit 1), w')" "w_trace idle_world = []" by (metis prod.collapse)
  show ?thesis using no_output_on_failure [OF run(1)] run by simp
qed

end
