(* ===== verification/Devkit_Deviations.thy ===== *)
theory Devkit_Deviations
  imports Docker_Run_Live Issue_Certificate
begin

text \<open>
  Behaviour of \<open>docker_run.py\<close> and \<open>issue_certificate_response_to_der.py\<close> that their authors did not intend, beside the
  cases shown with the components (\<open>get_image_prefix_type_error\<close>, \<open>cleanup_fails_open\<close>, \<open>bep_output_collision\<close>,
  \<open>oversized_timestamp_ends_listener\<close>, \<open>idle_connection_blocks_listener\<close>).
\<close>

section \<open>The project root\<close>

text \<open>Outside a project the program fails although \<open>DEVKIT_HOST_PROJECT_ROOT\<close> names the root: the default, which is
  searched for, is an argument of the call.\<close>

lemma root_variable_ignored:
  assumes "find_project_root w = (Exc (FileNotFoundError m), w1)"
  shows "find_places H w = (Exc (SystemExit 1), traced w1 (Stderr (''Error: '' @ m @ [CHR 0x0A])))"
  using assms by (simp add: find_places_def find_host_root_def py_simps is_FileNotFound_def exn_str_def traced_def)

definition outside_project :: world where
  "outside_project = world_of (FDir [(''p'', FDir [])]) [(''DEVKIT_HOST_PROJECT_ROOT'', ''/p'')] (\<lambda>_ _. Exited 0 [] [])"

lemma root_variable_ignored_sample: "fst (find_places sample_host outside_project) = Exc (SystemExit 1)"
proof -
  have "case fst (find_project_root outside_project) of Exc (FileNotFoundError m) \<Rightarrow> True | _ \<Rightarrow> False" by code_simp
  then obtain m w1 where "find_project_root outside_project = (Exc (FileNotFoundError m), w1)"
    by (cases "find_project_root outside_project") (auto split: result.splits exn.splits)
  from root_variable_ignored [OF this] show ?thesis by simp
qed

section \<open>The arguments\<close>

text \<open>An item of \<open>docker.run\<close> that is not a string passes the validation and makes \<open>os.path.expandvars\<close> raise.\<close>

lemma run_item_raises:
  assumes "v \<in> set as" "\<And>s. v \<noteq> JStr s"
  shows "evaluate_args env as = Exc TypeError"
  using assms by (induction as) (auto split: json.splits)

lemma run_item_validated: "validate_config (JObj [(''docker'', JObj [(''run'', JList [JInt 5])])]) CONFIG_SCHEMA [] = Ok ()"
  by code_simp

text \<open>An argument meant for the container is taken as an abbreviation of the option of the program.\<close>

lemma option_abbreviated:
  "parse_known docker_run_parser [''--dev'', ''server'', ''run''] = Parsed [(''devkit_log_file'', [''server''])] [''run'']"
  by code_simp

section \<open>The display\<close>

text \<open>When \<open>xhost\<close> fails the program ends with both threads running: no event is set and no thread is joined.\<close>

definition threads_left :: "world \<Rightarrow> exn \<Rightarrow> world \<Rightarrow> bool" where
  "threads_left w e w' = (is_CalledProcess e \<and> (\<exists>t. w_trace w' = w_trace w @ t \<and> ThreadStart ''DockerCleanupThread'' \<in> set t \<and>
     (\<forall>n. EventSet n \<notin> set t \<and> ThreadJoin n \<notin> set t)))"

lemma wp_display_fails:
  assumes "list_ex (py_contains ''DISPLAY'') cmd" "n \<noteq> 0" "w_proc w (w_trace w) [''xhost'', ''+local:'' @ user] = Exited n out err"
  shows "wp (allow_display user cmd) Q E w =
    E (CalledProcessError [''xhost'', ''+local:'' @ user] n [] []) (traced w (Spawn [''xhost'', ''+local:'' @ user]))"
  using assms by (simp add: allow_display_def run_checked_def wp_simps)

lemma xhost_leaves_threads:
  assumes "net_bind N (w_trace w) = None" "list_ex (py_contains ''DISPLAY'') as"
    and "\<And>t. \<exists>n out err. n \<noteq> 0 \<and> w_proc w t [''xhost'', ''+local:'' @ user_name I] = Exited n out err"
  shows "wp (launch_container start_container_event_handler R H N busy fuel d P I gid x ms as argv) (\<lambda>_ _. False) (threads_left w) w"
proof -
  have display: "list_ex (py_contains ''DISPLAY'') (docker_command H d cwd P I port gid env path ms as argv)" for cwd port env path
  proof -
    have "set as \<subseteq> set (docker_command H d cwd P I port gid env path ms as argv)" unfolding docker_command_def by (simp only: set_append) blast
    with assms(2) show ?thesis unfolding list_ex_iff by blast
  qed
  have last: "wp (allow_display (user_name I) cmd) Q (threads_left w) w'"
    if proc: "w_proc w' = w_proc w" and "list_ex (py_contains ''DISPLAY'') cmd" "\<And>c n. threads_left w (CalledProcessError c n [] []) (traced w' (Spawn c))"
    for cmd Q w'
  proof -
    obtain n out err where "n \<noteq> 0" and spawn: "w_proc w' (w_trace w') [''xhost'', ''+local:'' @ user_name I] = Exited n out err"
      using assms(3) [of "w_trace w'"] unfolding proc by blast
    show ?thesis unfolding wp_display_fails [OF that(2) \<open>n \<noteq> 0\<close> spawn] by (rule that(3))
  qed
  show ?thesis
    unfolding launch_container_def start_container_event_handler_def start_handler_def start_background_cleanup_def net_call_def Let_def
    using assms(1)
    by (simp add: wp_simps) (rule last, simp, rule display, simp add: threads_left_def is_CalledProcess_def)
qed

section \<open>The certificate\<close>

text \<open>A document that is not an object raises instead of being reported.\<close>

lemma json_without_get:
  assumes "json_loads s = Some v" "\<And>d. v \<noteq> JObj d"
  shows "issue_certificate_main (Ok s) stdout [] w = (Exc AttributeError, w)"
proof -
  have "parse_args issue_parser [] = py_ret []" by (simp add: parse_args_def parse_known_args_def parse_known_def issue_parser_def
      has_ambiguous_def missing_required_def consume.simps help_opt_def mk_opt_def)
  moreover have "json_get v k = Exc AttributeError" for k using assms(2) by (auto simp: json_get_def split: json.split)
  ultimately show ?thesis using assms(1)
    by (simp add: issue_certificate_main_def extract_cert_from_json_def of_result_def py_simps)
qed

end
