(* ===== verification/Spec2Isabelle.thy ===== *)
theory Spec2Isabelle
  imports Bep Bootstrap Docker_Build_Live Docker_Cleanup_End Container_Events_Spec Coverage_Lcov Coverage_Program
    Devkit_Deviations
begin

text \<open>
  \<^bold>\<open>Verification of the Python programs of the Transparent Certificate Authority repository.\<close>

  \<^bold>\<open>The programs.\<close> The Python code of the repository is its development kit, the scripts under
  \<open>src/.devkit/scripts\<close>, and the tool \<open>src/tools/issue_certificate_response_to_der.py\<close>. The development
  kit builds the docker images of a project, runs commands in them and supports the build:

  \<^item> \<open>docker/build.py\<close> reads \<open>devkit.json\<close> and the \<open>deps.json\<close> files, computes a content-addressed tag for
    every image, and builds, pulls or pushes the images in the order of their dependencies.
  \<^item> \<open>docker_run.py\<close> runs a command in a container. It finds the project with \<open>find_project_root.py\<close>,
    collects the mounts with \<open>list_external_mounts.py\<close>, starts the listener of
    \<open>container_event_handler.py\<close> and the task of \<open>docker_cleanup.py\<close> as threads, and stops both when the
    container ends.
  \<^item> \<open>docker_cleanup.py\<close> removes old images, except those that \<open>docker/build.py\<close> says are in use.
  \<^item> \<open>coverage_report.py\<close> runs \<open>bazel coverage\<close>, reads the LCOV report and compares it with thresholds;
    \<open>bep.py\<close> records the build events of targets; \<open>bootstrap.py\<close> instantiates project templates.

  The directories \<open>api\<close>, \<open>container-tools\<close>, \<open>mbs\<close> and \<open>mbs/api\<close> hold copies of the development kit. They
  are identical to the root copy except for three files, each modelled beside the original:
  \<open>mbs/api/.devkit/scripts/docker_run.py\<close> (\<open>docker_run_main_google\<close>, with further mounts),
  \<open>mbs/api/.devkit/scripts/container_event_handler.py\<close> (\<open>start_container_event_handler_metric\<close>, with a
  metric) and \<open>container-tools/.devkit/scripts/coverage_report.py\<close> (\<open>coverage_main_root\<close>).

  \<^bold>\<open>The model.\<close> A script is a computation \<open>'a py\<close>: a function from the world to a result (a value or a
  raised exception) and the world afterwards. The world (record \<open>world\<close> in Py_Monad) holds the
  file tree, the working directory, the environment and a trace of events: commands started, text printed,
  records logged, threads started and joined, cancel events set and polled. What a script cannot decide is
  a function of the trace that the world fixes: the outcome of a command (\<open>w_proc\<close>) and whether
  the cancel event of a background task is set (\<open>w_cancel\<close>). Theorems hold for all such functions, so for
  all behaviours of docker, bazel and of the other threads. A call that blocks (\<open>accept\<close>, \<open>recv\<close>, the wait for a process)
  is \<open>py_await\<close>: it asks at every moment whether there is an answer, and every moment without one is the event \<open>Waited\<close> of the trace. \<open>try\<close>, \<open>finally\<close>, \<open>raise\<close> and \<open>sys.exit\<close> are
  \<open>py_try\<close>, \<open>py_finally\<close>, \<open>py_raise\<close> and \<open>sys_exit\<close>; a loop is \<open>py_for\<close> or \<open>py_fold\<close>, or a recursion.

  \<^bold>\<open>Theories.\<close> The Python language and library, as far as the scripts use them:
  \<^item> Devkit_Prelude: string operations, decimal numbers and their round trips, generic lemmas.
  \<^item> Py_Path, Py_Fs, Py_Fs_Laws: \<open>pathlib\<close> and \<open>posixpath\<close>; a file tree with symbolic links, name
    resolution as the kernel does it, \<open>os.walk\<close>, reading and writing; the laws of resolution.
  \<^item> Py_Float, Py_Json, Py_Text, Py_Regex, Py_Hashlib, Py_Graphlib, Py_Shell: binary64 arithmetic, the \<open>json\<close>
    parser, UTF-8 decoding and points in time, \<open>re\<close>, SHA-256, topological sorting, \<open>shlex\<close> and \<open>expandvars\<close>.
  \<^item> Py_Monad, Py_Argparse: the effects, command lines, and two calculi for reasoning about them:
    \<open>wp\<close> (weakest preconditions) and \<open>does\<close> (what is added to the trace).
  \<^item> Py_Frame: frame conditions, proved once for every reflexive and transitive relation between worlds (locales
    \<open>frame\<close>, \<open>log_frame\<close>, \<open>event_frame\<close>, \<open>script_frame\<close>, each allowing more events than the one before) and interpreted: \<open>starts_only\<close> (which commands are started),
    \<open>keeps_files\<close> (Py_Reads: the files stay, with \<open>reads_only\<close> for results that depend on the files only),
    \<open>calm\<close> (Docker_Cleanup_Task: the cancel event is not seen), \<open>calmly\<close> (Coverage_Program: the trace alone grows), and that
    nothing is printed (Docker_Build_Live). Components add the laws of their operations to the
    locales (Docker_Build_Frame, Docker_Cleanup_Task).
  \<^item> Py_Conversation: \<open>conv m Q\<close> speaks of the commands a computation starts with the replies they got, the
    form in which protocols with docker and bazel are stated.

  The programs, each with the theories that state what it establishes:
  \<^item> Project_Root (\<open>find_project_root.py\<close>), Bep (\<open>bep.py\<close>), Bootstrap (\<open>bootstrap.py\<close>).
  \<^item> External_Mounts, External_Mounts_Closure (\<open>list_external_mounts.py\<close>): \<open>scan_loop\<close> is the work list of
    \<open>list_external_mounts\<close>, \<open>process_loop\<close> follows a chain of links, \<open>minimize_paths\<close> keeps the topmost paths.
  \<^item> Docker_Config, Docker_Build, Docker_Build_Frame, Docker_Build_Tags, Docker_Build_Total, Docker_Build_Ops,
    Docker_Build_Images, Docker_Build_Live (\<open>docker/build.py\<close>): record \<open>builder\<close> is the object \<open>DockerBuilder\<close>, with its memo of generated tags.
  \<^item> Docker_Cleanup, Docker_Cleanup_Safety, Docker_Cleanup_Task, Docker_Cleanup_End (\<open>docker_cleanup.py\<close>).
  \<^item> Container_Events, Container_Events_Spec (\<open>container_event_handler.py\<close>).
  \<^item> Coverage_Report, Coverage_Report_Spec, Coverage_Lcov, Coverage_Program (\<open>coverage_report.py\<close>).
  \<^item> Docker_Run, Docker_Run_Spec, Docker_Run_Live (\<open>docker_run.py\<close>): \<open>forwarded\<close> says which arguments reach the container
    (all but \<open>--devkit-log-file\<close> and its value), \<open>prepared\<close> that the preparations succeed.
  \<^item> Issue_Certificate (\<open>tools/issue_certificate_response_to_der.py\<close>).
  \<^item> Devkit_Deviations: behaviour of \<open>docker_run.py\<close> and of the tool that their authors did not intend.

  \<^bold>\<open>What is shown.\<close>
  \<^item> Protocols: \<open>docker_run\<close> starts at most one container, as its last command, with the arguments that are not its own, and
    exits as it did, and it does start it when the preparations succeed (both in Docker_Run_Live); one image is managed by the protocol
    \<open>image_protocol\<close> of lookups, builds, pulls and pushes, and all images by that protocol in the build order, which
    holds the targets and respects the dependencies; \<open>bep\<close> runs bazel for one target after the other up to the first failure. The specifications are relations between a result and a conversation; the programs refine them.
  \<^item> Service: when the configuration can be built (\<open>buildable\<close>) and docker does its part (\<open>serves\<close>), \<open>docker/build.py\<close> ends
    with every image it was asked for available under its tag, and prints the tag it was asked for and nothing else to its
    standard output; the coverage program passes only on a report that the run of bazel left and that meets the thresholds.
  \<^item> Content addressing: a tag is the digest of the Dockerfile, the sorted arguments and the tags of the
    dependencies; it does not depend on the order in which Python iterates over sets; the cleanup recognises
    the generated tags, and the thread that \<open>docker_run\<close> starts never removes one that is in use (this theory).
  \<^item> Termination: the scan for mounts ends on every well-formed file tree, cyclic links included; the
    recursion of the tags never exceeds Python's limit, because images are visited after their
    dependencies; the tags are computed whenever the dependencies have no cycle and the Dockerfiles can be read;
    the listener and the cleanup task end when they are cancelled, so \<open>docker_run\<close> can join its threads (this theory),
    provided that connections send, close or fail sooner or later and a terminated removal ends.
  \<^item> Exactness: the verdict on coverage, computed in floats, is the comparison in integers; an LCOV report is read as
    its records say, line ranges and tags are read back as they were written, and the first certificate of an answer is written byte for byte; the validation of \<open>devkit.json\<close> accepts
    exactly the declared shape, and after it loading cannot fail except by the deliberate exit.
  \<^item> Errors: which exceptions escape, what was written before, and in which cases the code deviates from what
    its authors intended (an unvalidated prefix, a cleanup that ignores nothing, a listener that dies of a large
    number or waits for a silent connection forever, event files of two targets that coincide, an ignored variable, threads left when \<open>xhost\<close> fails).

  \<^bold>\<open>Interfaces.\<close> The laws a component relies on are locales, interpreted on the model of the component that
  provides them: \<open>topo_sorter\<close> (Py_Graphlib, the order of images), \<open>hex_digest\<close> (Py_Hashlib, extended in
  Docker_Cleanup_Safety by the tags the cleanup recognises), \<open>path_hierarchy\<close> (External_Mounts, the minimal mounts),
  \<open>event_processor\<close> (Container_Events_Spec: what the listener relies on when it hands over an event, provided by both
  variants of the handler), \<open>coverage_runner\<close> (Coverage_Program: what the program relies on when it runs bazel, provided
  by both variants), \<open>outside\<close> (Docker_Cleanup_End: conditions on the world that no script changes), and the frame
  conditions above.

  \<^bold>\<open>Parameters.\<close> Code that is not in the repository is an argument: Jinja2 (\<open>j_render\<close>), the
  metric sink of the \<open>mbs/api\<close> variant, the sockets (record \<open>network\<close>), what bazel does to the files when a coverage run starts it
  (\<open>bazel\<close>), what becomes of a write to the standard output (\<open>sink\<close>), the host's answers about users, groups,
  limits and terminals (record \<open>host\<close>), and what Python leaves open: the order of sets, the digest function
  and the rendering of values in messages (record \<open>runtime\<close>). What a theorem assumes of them is a named
  predicate (\<open>network_ok\<close>, \<open>shutdown_ok\<close>, \<open>sink_ok\<close>, \<open>xhost_ok\<close>, \<open>enumerates\<close>, \<open>serves\<close>, \<open>programs_end\<close>; \<open>talkative\<close>: every connection sends,
  closes or fails within \<open>m\<close> moments; \<open>yields\<close>: a terminated removal ends within \<open>m\<close> moments; \<open>wakes\<close>: a socket that was shut
  down wakes \<open>accept\<close>), and a witness instantiates it. What a thread sees of the main program is \<open>observes\<close> and \<open>done_by\<close>
  (Container_Events_Spec): the function \<open>M\<close> gives the trace of the main program at each moment of the thread.

  \<^bold>\<open>Bounds.\<close> The loops that need not end (the listener, the wait for a removal, blocking calls) have a fuel argument and raise
  \<open>Diverges\<close> when it runs out; the theorems about them show that enough fuel gives a result; Container_Events_Spec shows
  the one case in which no fuel is enough. The JSON parser
  takes the length of the text plus one as fuel; \<open>parse_fuel_enough\<close> shows that more changes nothing. Chains
  of links are followed to \<open>link_limit\<close> 40, the limit of the kernel, and recursion to \<open>recursion_limit\<close> 1000.
  Floats are exact up to rounding; the verdict on coverage is shown for counts up to \<open>10\<^sup>1\<^sup>3\<close>.

  \<^bold>\<open>Not modelled.\<close> Characters outside Latin-1; the wording of usage and help texts and the formatting of log
  records (their template and arguments are kept); changes that a started command other than bazel's coverage run
  makes to the file tree; the
  interleaving of the two threads with the main program (a thread is started, cancelled and joined as an event
  of the trace, and its body is verified on its own, for every behaviour of the cancel event and of the sockets, related to the
  main program by \<open>observes\<close> and \<open>wakes\<close>). The Java
  servers (\<open>src/java\<close>, \<open>src/mbs/java\<close>), the C++ proxy (\<open>src/container-tools/cc\<close>), the shell wrappers
  (\<open>src/.devkit/devkit\<close>), Dockerfiles, templates, Bazel rules and protocol definitions are not Python and not
  part of this development.
\<close>

section \<open>The build and the cleanup\<close>

text \<open>The commands that remove only images of the allow list that are not in use.\<close>

definition spares :: "string list \<Rightarrow> string list \<Rightarrow> bool" where
  "spares tags cmd = (\<forall>img. cmd = rmi_command img \<longrightarrow> img \<notin> set tags \<and> allowed img)"

lemma set_batches: "set (concat (batches_of n xs)) \<subseteq> set xs"
proof (induction n xs rule: batches_of.induct)
  case (1 n xs)
  then show ?case
    by (subst batches_of.simps) (auto dest: in_set_takeD in_set_dropD)
qed

lemma removal_spares:
  assumes "set imgs \<inter> set tags = {}" "\<forall>img \<in> set imgs. allowed img"
  shows "starts_only (spares tags) (batch_loop busy fuel interval (batches_of n imgs))"
  by (rule so.frame_batches)
    (use assms set_batches [of n imgs] in \<open>auto simp: only_spawns_def spares_def rmi_command_def\<close>)

lemma candidates_spare: "starts_only (spares tags) (get_images_to_cleanup R config_path search_paths days)"
  by (rule so.frame_candidates) (simp add: only_spawns_def spares_def rmi_command_def list_images_command_def)

lemma does_wp:
  "does m w Q \<Longrightarrow> wp m A B w \<Longrightarrow> does m w (\<lambda>r w' t. Q r w' t \<and> (case r of Ok x \<Rightarrow> A x w' | Exc e \<Rightarrow> B e w'))"
  by (auto simp: does_def wp_def split: prod.splits result.splits)

lemma cleanup_spares:
  assumes "fst (get_all_docker_image_tags R config_path search_paths [] w) = Ok tags"
  shows "does (cleanup_images R busy fuel config_path search_paths delay interval batch_size days) w
    (\<lambda>r w' t. \<forall>c \<in> set (spawned t). spares tags c)"
proof -
  let ?S = "\<lambda>t. \<forall>c \<in> set (spawned t). spares tags c"
  have so: "does m v (\<lambda>r w' t. ?S t)" if "starts_only (spares tags) m" for m :: "'x py" and v
    using that by (rule does_starts_only)
  have wait: "does (event_wait delay) w (\<lambda>r w' t. ?S t \<and> same_files w w')"
    using does_wp [OF so [OF so.frame_wait] wp_keeps [OF fl.frame_wait]]
    by (rule does_mono) (auto simp: only_spawns_def split: result.splits)
  have choose: "does (get_images_to_cleanup R config_path search_paths days) v
      (\<lambda>r w' t. ?S t \<and> (\<forall>imgs. r = Ok imgs \<longrightarrow> set imgs \<inter> set tags = {} \<and> (\<forall>img \<in> set imgs. allowed img)))" if "same_files w v" for v
  proof -
    have "wp (get_images_to_cleanup R config_path search_paths days) 
        (\<lambda>imgs _. set imgs \<inter> set tags = {} \<and> (\<forall>img \<in> set imgs. allowed img)) (\<lambda>_ _. True) v"
      by (rule candidates_wp [where P = "\<lambda>r. r = tags"]) (auto intro: ignored_wp [OF same_files_trans [OF that] assms])
    from does_wp [OF so [OF candidates_spare] this] show ?thesis by (rule does_mono) auto
  qed
  show ?thesis unfolding cleanup_images_def
    by (intro does_bind does_mono [OF wait])
      (auto intro!: does_bind does_mono [OF choose] does_mono [OF so [OF removal_spares]] split: result.split, blast)
qed

text \<open>
  C5. The thread that \<open>docker_run\<close> starts for the cleanup removes only images of the allow list whose reference has the
  expected form, and never one that the build still uses: whatever docker lists and whenever the thread is
  cancelled, no \<open>docker rmi\<close> names one of the tags that \<open>docker/build.py\<close> computes from the same files.
\<close>
theorem cleanup_thread_keeps_images:
  assumes "start_background_cleanup R busy fuel config_path search_paths delay interval batch_size days w0 = (Ok th, w1)"
    and "fst (get_all_docker_image_tags R config_path search_paths [] w) = Ok tags" "th_target th w = (r, w')"
  shows "\<exists>t. w_trace w' = w_trace w @ t \<and> (\<forall>img. rmi_command img \<in> set (spawned t) \<longrightarrow>
     img \<notin> set tags \<and> (\<exists>n. image_name img = Some n \<and> n \<in> set ALLOWED_IMAGE_NAMES))"
proof -
  have "th_target th = cleanup_images R busy fuel config_path search_paths delay interval batch_size days"
    using assms(1) by (auto simp: start_background_cleanup_def Let_def py_simps)
  with doesD [OF cleanup_spares [OF assms(2)]] assms(3) obtain t where
    "w_trace w' = w_trace w @ t" "\<forall>c \<in> set (spawned t). spares tags c" by metis
  then show ?thesis by (fastforce simp: spares_def allowed_def split: option.splits)
qed

theorem cleanup_thread_keeps_images_witness:
  "\<exists>th w1 r w'. start_background_cleanup (plain_runtime id) (\<lambda>_. False) 1 (path_of ''/c'') [path_of ''/i''] (Fin 0) (Fin 0) 4 7
       old_images = (Ok th, w1) \<and>
     th_target th old_images = (r, w') \<and> rmi_command (sample_image ''a'' (CHR ''0'')) \<notin> set (spawned (w_trace w'))"
proof -
  let ?t = "get_all_docker_image_tags (plain_runtime id) (path_of ''/c'') [path_of ''/i''] [] old_images"
  have t: "fst ?t = Ok [sample_image ''a'' (CHR ''0'')]" by code_simp
  obtain th w1 where th: "start_background_cleanup (plain_runtime id) (\<lambda>_. False) 1 (path_of ''/c'') [path_of ''/i'']
      (Fin 0) (Fin 0) 4 7 old_images = (Ok th, w1)"
    by (simp add: start_background_cleanup_def py_simps)
  obtain r w' where run: "th_target th old_images = (r, w')" by fastforce
  have "w_trace old_images = []" by (simp add: old_images_def world_of_def)
  with cleanup_thread_keeps_images [OF th t run]
  have "rmi_command (sample_image ''a'' (CHR ''0'')) \<notin> set (spawned (w_trace w'))" by auto
  with th run show ?thesis by blast
qed

section \<open>The end of the background threads\<close>







end
